theory Spec2Isabelle
  imports Main "HOL-Library.Word" "HOL-Library.Multiset"
begin

section \<open>JavaScript strings\<close>

text \<open>
  A JavaScript string is a sequence of 16-bit UTF-16 code units: \<open>length\<close> is the
  source's \<open>.length\<close>, equality is \<open>===\<close>. ASCII literals of the source are
  written \<open>js ''...''\<close>.
\<close>

type_synonym jsstring = "16 word list"

definition js :: "string \<Rightarrow> jsstring" where
  "js s = map (\<lambda>c. of_nat (of_char c)) s"

text \<open>
  The characters \<open>String.prototype.trim\<close> strips and the regular expression class
  \<open>\s\<close> matches: ECMAScript's WhiteSpace and LineTerminator.
\<close>

definition is_js_whitespace :: "16 word \<Rightarrow> bool" where
  "is_js_whitespace c \<longleftrightarrow>
     c = 0x09 \<or> c = 0x0A \<or> c = 0x0B \<or> c = 0x0C \<or> c = 0x0D \<or> c = 0x20 \<or> c = 0xA0
     \<or> c = 0x1680 \<or> (0x2000 \<le> c \<and> c \<le> 0x200A) \<or> c = 0x2028 \<or> c = 0x2029
     \<or> c = 0x202F \<or> c = 0x205F \<or> c = 0x3000 \<or> c = 0xFEFF"

definition trim :: "jsstring \<Rightarrow> jsstring" where
  "trim s = rev (dropWhile is_js_whitespace (rev (dropWhile is_js_whitespace s)))"

text \<open>
  \<open>/[a-b c-d ...]/.test(text)\<close> without the \<open>u\<close> flag: some code unit of the text
  lies in one of the ranges of the class.
\<close>

definition char_class_test :: "(16 word \<times> 16 word) list \<Rightarrow> jsstring \<Rightarrow> bool" where
  "char_class_test ranges text =
     list_ex (\<lambda>c. list_ex (\<lambda>(lo, hi). lo \<le> c \<and> c \<le> hi) ranges) text"

section \<open>cloudcart-parser.ts: the language detector\<close>

definition containsSourceLanguage :: "jsstring \<Rightarrow> jsstring \<Rightarrow> bool" where
  "containsSourceLanguage text sourceLang =
     (if text = [] \<or> length (trim text) = 0 then False
      else if sourceLang = js ''bg'' \<or> sourceLang = js ''ru'' \<or> sourceLang = js ''sr''
              \<or> sourceLang = js ''mk'' \<or> sourceLang = js ''uk''
        then char_class_test [(0x0400, 0x04FF)] text
      else if sourceLang = js ''el'' then char_class_test [(0x0370, 0x03FF)] text
      else if sourceLang = js ''zh'' then char_class_test [(0x4E00, 0x9FFF)] text
      else if sourceLang = js ''ja''
        then char_class_test [(0x3040, 0x309F), (0x30A0, 0x30FF), (0x4E00, 0x9FFF)] text
      else if sourceLang = js ''ko'' then char_class_test [(0xAC00, 0xD7AF)] text
      else if sourceLang = js ''ar'' then char_class_test [(0x0600, 0x06FF)] text
      else if sourceLang = js ''he'' then char_class_test [(0x0590, 0x05FF)] text
      else True)"

subsection \<open>What the detector is measured against\<close>

text \<open>
  The code points of a string (UTF-16 decoding: a high surrogate followed by a low
  surrogate is one supplementary code point, every other code unit is its own code
  point), the Unicode blocks of the scripts, and the scripts of each language code of
  the closed set.
\<close>

fun codepoints :: "jsstring \<Rightarrow> nat list" where
  "codepoints [] = []"
| "codepoints [u] = [unat u]"
| "codepoints (h # l # rest) =
     (if 0xD800 \<le> h \<and> h \<le> 0xDBFF \<and> 0xDC00 \<le> l \<and> l \<le> 0xDFFF
      then (0x10000 + (unat h - 0xD800) * 0x400 + (unat l - 0xDC00)) # codepoints rest
      else unat h # codepoints (l # rest))"

datatype script = Cyrillic | Greek | CJK | Hiragana | Katakana | Hangul | Arabic | Hebrew

fun script_block :: "script \<Rightarrow> nat \<times> nat" where
  "script_block Cyrillic = (0x0400, 0x04FF)"
| "script_block Greek = (0x0370, 0x03FF)"
| "script_block CJK = (0x4E00, 0x9FFF)"
| "script_block Hiragana = (0x3040, 0x309F)"
| "script_block Katakana = (0x30A0, 0x30FF)"
| "script_block Hangul = (0xAC00, 0xD7AF)"
| "script_block Arabic = (0x0600, 0x06FF)"
| "script_block Hebrew = (0x0590, 0x05FF)"

definition closed_language_set :: "(jsstring \<times> script list) list" where
  "closed_language_set =
     [(js ''bg'', [Cyrillic]), (js ''ru'', [Cyrillic]), (js ''sr'', [Cyrillic]),
      (js ''mk'', [Cyrillic]), (js ''uk'', [Cyrillic]), (js ''el'', [Greek]),
      (js ''zh'', [CJK]), (js ''ja'', [Hiragana, Katakana, CJK]), (js ''ko'', [Hangul]),
      (js ''ar'', [Arabic]), (js ''he'', [Hebrew])]"

definition in_script :: "script \<Rightarrow> nat \<Rightarrow> bool" where
  "in_script s cp \<longleftrightarrow> fst (script_block s) \<le> cp \<and> cp \<le> snd (script_block s)"

definition has_codepoint_of :: "script list \<Rightarrow> jsstring \<Rightarrow> bool" where
  "has_codepoint_of scripts text =
     list_ex (\<lambda>cp. list_ex (\<lambda>s. in_script s cp) scripts) (codepoints text)"

definition whitespace_only :: "jsstring \<Rightarrow> bool" where
  "whitespace_only text \<longleftrightarrow> list_all is_js_whitespace text"


section \<open>JavaScript values and containers\<close>

text \<open>
  A value found where the source expects a string: a string, or an object or a function
  (what a property lookup can find on the prototype chain), kept here by the text that
  \<open>String(v)\<close> gives. Only the empty string is falsy, and a string is never \<open>===\<close> to
  an object. \<open>obj[key]\<close> on an object literal with string values is the own property of
  that name or else the member that the prototype of the object has under that name;
  with neither it is \<open>undefined\<close>, which is falsy.
\<close>

datatype js_value = Str jsstring | Obj jsstring

fun to_string :: "js_value \<Rightarrow> jsstring" where
  "to_string (Str s) = s"
| "to_string (Obj s) = s"

fun truthy :: "js_value \<Rightarrow> bool" where
  "truthy (Str s) \<longleftrightarrow> s \<noteq> []"
| "truthy (Obj s) \<longleftrightarrow> True"

definition get_property ::
  "(jsstring \<times> js_value) list \<Rightarrow> (jsstring \<times> jsstring) list \<Rightarrow> jsstring \<Rightarrow> js_value option" where
  "get_property prototype obj key =
     (case map_of obj key of
        Some v \<Rightarrow> Some (Str v)
      | None \<Rightarrow> map_of prototype key)"

text \<open>
  A \<open>Map\<close> keeps its entries in insertion order with unique keys: an association list.
  \<open>set\<close> on a key already present replaces the value where the entry stands; on a new
  key it appends. A \<open>Set\<close> is the list of its members in insertion order.
\<close>

type_synonym ('k, 'v) js_map = "('k \<times> 'v) list"

definition map_get :: "('k, 'v) js_map \<Rightarrow> 'k \<Rightarrow> 'v option" where
  "map_get m k = map_of m k"

definition map_has :: "('k, 'v) js_map \<Rightarrow> 'k \<Rightarrow> bool" where
  "map_has m k \<longleftrightarrow> map_of m k \<noteq> None"

fun map_set :: "('k, 'v) js_map \<Rightarrow> 'k \<Rightarrow> 'v \<Rightarrow> ('k, 'v) js_map" where
  "map_set [] k v = [(k, v)]"
| "map_set ((k', v') # m) k v = (if k' = k then (k, v) # m else (k', v') # map_set m k v)"

definition set_add :: "'a list \<Rightarrow> 'a \<Rightarrow> 'a list" where
  "set_add s x = (if x \<in> set s then s else s @ [x])"

text \<open>
  \<open>Array.prototype.sort(cmp)\<close> is stable (ECMAScript 2019): elements the comparator
  does not order keep their places. The result is computed here by insertion from the
  right, each element going before the first one it is not greater than.
\<close>

fun insert_sorted :: "('a \<Rightarrow> 'a \<Rightarrow> int) \<Rightarrow> 'a \<Rightarrow> 'a list \<Rightarrow> 'a list" where
  "insert_sorted cmp x [] = [x]"
| "insert_sorted cmp x (y # ys) =
     (if cmp x y \<le> 0 then x # y # ys else y # insert_sorted cmp x ys)"

definition array_sort :: "('a \<Rightarrow> 'a \<Rightarrow> int) \<Rightarrow> 'a list \<Rightarrow> 'a list" where
  "array_sort cmp xs = foldr (insert_sorted cmp) xs []"

text \<open>
  \<open>s.split(sep)\<close> for a string separator: with an empty separator the code units of
  \<open>s\<close> one by one; otherwise the pieces between the occurrences of \<open>sep\<close>, found from
  left to right, each search starting where the last occurrence ended.
  \<open>pieces.join(sep)\<close> puts \<open>sep\<close> between the pieces.
\<close>

function split_from :: "jsstring \<Rightarrow> jsstring \<Rightarrow> jsstring \<Rightarrow> jsstring list" where
  "split_from sep cur s =
     (if s = [] then [cur]
      else if sep \<noteq> [] \<and> take (length sep) s = sep
        then cur # split_from sep [] (drop (length sep) s)
      else split_from sep (cur @ [hd s]) (tl s))"
  by pat_completeness auto
termination
  by (relation "measure (\<lambda>(sep, cur, s). length s)") auto

definition js_split :: "jsstring \<Rightarrow> jsstring \<Rightarrow> jsstring list" where
  "js_split s sep = (if sep = [] then map (\<lambda>c. [c]) s else split_from sep [] s)"

fun js_join :: "jsstring list \<Rightarrow> jsstring \<Rightarrow> jsstring" where
  "js_join [] sep = []"
| "js_join [p] sep = p"
| "js_join (p # q # ps) sep = p @ sep @ js_join (q # ps) sep"

section \<open>cloudcart-parser.ts: items, reinsertion, deduplication\<close>

datatype TranslatableField =
    title | short_description | description | meta_title | meta_description | category
  | category_property_name | category_property_value | tab_name | tab_description
  | option_name | option_value

record TranslatableItem =
  path :: jsstring
  item_text :: jsstring
  field :: TranslatableField
  productId :: jsstring
  productTitle :: jsstring

text \<open>
  The body of the loop of \<open>applyTranslations\<close>: one entry of the sorted table. The
  table is declared with string values; what the caller passes may hold other values
  (see \<open>translateTexts\<close>), which \<open>join\<close> converts to strings.
\<close>

definition replace_entry :: "jsstring \<Rightarrow> jsstring \<times> js_value \<Rightarrow> jsstring" where
  "replace_entry result e =
     (case e of (original, translated) \<Rightarrow>
        if Str original = translated then result
        else js_join (js_split result original) (to_string translated))"

definition by_length_desc :: "jsstring \<times> js_value \<Rightarrow> jsstring \<times> js_value \<Rightarrow> int" where
  "by_length_desc a b = int (length (fst b)) - int (length (fst a))"

definition applyTranslations :: "jsstring \<Rightarrow> (jsstring, js_value) js_map \<Rightarrow> jsstring" where
  "applyTranslations xmlContent translations =
     (let sortedEntries = array_sort by_length_desc translations
      in foldl replace_entry xmlContent sortedEntries)"

record DedupedEntry =
  entry_text :: jsstring
  entry_fields :: "TranslatableField list"
  entry_count :: nat

text \<open>
  The body of the loop of \<open>deduplicateItems\<close>. The source updates the object held by
  the map in place, so the entry keeps its position.
\<close>

definition dedup_step ::
  "(jsstring, TranslatableField list \<times> nat) js_map \<Rightarrow> TranslatableItem
     \<Rightarrow> (jsstring, TranslatableField list \<times> nat) js_map" where
  "dedup_step m item =
     (case map_get m (item_text item) of
        Some (fs, n) \<Rightarrow> map_set m (item_text item) (set_add fs (field item), n + 1)
      | None \<Rightarrow> map_set m (item_text item) ([field item], 1))"

definition deduplicateItems :: "TranslatableItem list \<Rightarrow> DedupedEntry list" where
  "deduplicateItems items =
     map (\<lambda>(t, (fs, n)). \<lparr>entry_text = t, entry_fields = fs, entry_count = n\<rparr>)
       (foldl dedup_step [] items)"

text \<open>
  A literal occurrence of \<open>w\<close> in \<open>s\<close>: \<open>w\<close> stands at some position of \<open>s\<close>.
  The distinct elements of a list in the order they are first seen (\<open>remdups\<close> keeps
  the last copy of each element, so the list is reversed before and after).
\<close>

definition occurs_in :: "jsstring \<Rightarrow> jsstring \<Rightarrow> bool" where
  "occurs_in w s \<longleftrightarrow> list_ex (\<lambda>i. take (length w) (drop i s) = w) [0..<Suc (length s)]"

text \<open>
  Replacing every literal occurrence of \<open>original\<close> in a document by \<open>translated\<close>,
  as the specification words it: the document is read from left to right, and where the
  original stands it is replaced and reading goes on behind it.
\<close>

function replace_every_occurrence :: "jsstring \<Rightarrow> jsstring \<Rightarrow> jsstring \<Rightarrow> jsstring" where
  "replace_every_occurrence original translated doc =
     (if doc = [] then []
      else if original \<noteq> [] \<and> take (length original) doc = original
        then translated @ replace_every_occurrence original translated (drop (length original) doc)
      else hd doc # replace_every_occurrence original translated (tl doc))"
  by pat_completeness auto
termination
  by (relation "measure (\<lambda>(original, translated, doc). length doc)") auto

definition first_seen :: "'a list \<Rightarrow> 'a list" where
  "first_seen xs = rev (remdups (rev xs))"

text \<open>
  What holds of the map of \<open>deduplicateItems\<close> after each item: its keys are the texts
  seen so far in first-seen order, its counts add up to the number of items, and each
  entry holds the field kinds and the number of the items with its text.
\<close>

definition dedup_inv ::
  "TranslatableItem list \<Rightarrow> (jsstring, TranslatableField list \<times> nat) js_map \<Rightarrow> bool" where
  "dedup_inv items m \<longleftrightarrow>
     map fst m = first_seen (map item_text items)
     \<and> sum_list (map (\<lambda>(t, fs, n). n) m) = length items
     \<and> (\<forall>t fs n. map_of m t = Some (fs, n) \<longrightarrow>
           set fs = field ` {i \<in> set items. item_text i = t} \<and> distinct fs
           \<and> n = length (filter (\<lambda>i. item_text i = t) items))"


section \<open>industries.ts: the industry profiles\<close>

text \<open>
  An \<open>IndustryConfig\<close> object. The glossary is an object literal with string
  values: its own properties in insertion order (what \<open>Object.entries\<close> lists).
\<close>

record IndustryConfig =
  industry_id :: jsstring
  industry_name :: jsstring
  icon :: jsstring
  industry_description :: jsstring
  industry_context :: jsstring
  glossary :: "(jsstring \<times> jsstring) list"
  exampleTerms :: "jsstring list"

section \<open>translator.ts: batched translation with retries\<close>

definition BATCH_SIZE :: nat where
  "BATCH_SIZE = 40"

definition MAX_RETRIES :: nat where
  "MAX_RETRIES = 3"

record TranslationBatch =
  texts :: "jsstring list"
  batch_fields :: "TranslatableField list list"

text \<open>
  What a failed step throws. \<open>Thrown\<close> is an error raised outside this code (the
  provider's client, \<open>JSON.parse\<close>, the request body, the file), with its message.
\<close>

datatype error =
    Thrown jsstring
  | TypeError
  | UnexpectedResponseType
  | ExpectedTranslations nat nat
  | TranslationFailedAfterRetries

text \<open>
  The provider. One call of \<open>client.messages.create\<close> either throws or returns a
  message, a list of content blocks. The prompts of a call are computed from the batch,
  the two language codes and the profile (context and glossary); the model passes these,
  with the API key of the client, in place of the formatted prompt text. What the
  provider answers may depend on everything that happened before: it is a function of
  the history of calls and waits so far, and of the request.
\<close>

datatype content_block = TextBlock jsstring | OtherBlock

datatype api_outcome = Rejected error | Message "content_block list"

record request =
  req_apiKey :: jsstring
  req_batch :: TranslationBatch
  req_sourceLang :: jsstring
  req_targetLang :: jsstring
  req_industry :: IndustryConfig

datatype effect = ProviderCall request | Sleep nat

type_synonym provider = "effect list \<Rightarrow> request \<Rightarrow> api_outcome"

text \<open>
  \<open>JSON.parse\<close> of the response text, typed as the source declares its result
  (\<open>string[]\<close>): it throws or gives an array of strings.
\<close>

type_synonym json_parser = "jsstring \<Rightarrow> error + jsstring list"

text \<open>
  Stripping a markdown code fence: \<open>jsonText.replace(/^```(?:json)?\s*\n?/, "")\<close> removes
  the opening fence, an optional \<open>json\<close> and the whitespace after it;
  \<open>.replace(/\n?\s*```$/, "")\<close> removes a closing fence at the very end with the
  whitespace before it.
\<close>

definition fence :: jsstring where
  "fence = [0x60, 0x60, 0x60]"

definition strip_opening_fence :: "jsstring \<Rightarrow> jsstring" where
  "strip_opening_fence s =
     (let a = drop 3 s;
          b = (if take 4 a = js ''json'' then drop 4 a else a)
      in dropWhile is_js_whitespace b)"

definition strip_closing_fence :: "jsstring \<Rightarrow> jsstring" where
  "strip_closing_fence s =
     (if 3 \<le> length s \<and> drop (length s - 3) s = fence
      then rev (dropWhile is_js_whitespace (rev (take (length s - 3) s)))
      else s)"

definition strip_code_fence :: "jsstring \<Rightarrow> jsstring" where
  "strip_code_fence jsonText =
     (if take 3 jsonText = fence then strip_closing_fence (strip_opening_fence jsonText)
      else jsonText)"

text \<open>
  The body of the \<open>try\<close> block of \<open>translateBatch\<close>, from the outcome of the call to
  the map of the batch: every failure is an \<open>Inl\<close>.
\<close>

definition handle_response ::
  "json_parser \<Rightarrow> TranslationBatch \<Rightarrow> api_outcome \<Rightarrow> error + (jsstring, jsstring) js_map" where
  "handle_response parse batch outcome =
     (case outcome of
        Rejected err \<Rightarrow> Inl err
      | Message content \<Rightarrow>
          (case content of
             [] \<Rightarrow> Inl TypeError
           | OtherBlock # _ \<Rightarrow> Inl UnexpectedResponseType
           | TextBlock t # _ \<Rightarrow>
               (case parse (strip_code_fence (trim t)) of
                  Inl err \<Rightarrow> Inl err
                | Inr translated \<Rightarrow>
                    if length translated \<noteq> length (texts batch)
                    then Inl (ExpectedTranslations (length (texts batch)) (length translated))
                    else Inr (foldl (\<lambda>result (original, tr). map_set result original tr) []
                                (zip (texts batch) translated)))))"

text \<open>
  The retry loop of \<open>translateBatch\<close>, from attempt number \<open>attempt\<close> on, threading
  the history. The provider sees the history before the call is made.
\<close>

function retry_loop ::
  "provider \<Rightarrow> json_parser \<Rightarrow> request \<Rightarrow> nat \<Rightarrow> error option \<Rightarrow> effect list
     \<Rightarrow> (error + (jsstring, jsstring) js_map) \<times> effect list" where
  "retry_loop provider parse req attempt lastError history =
     (if attempt < MAX_RETRIES then
        (case handle_response parse (req_batch req) (provider history req) of
           Inr result \<Rightarrow> (Inr result, history @ [ProviderCall req])
         | Inl err \<Rightarrow>
             retry_loop provider parse req (attempt + 1) (Some err)
               (if attempt < MAX_RETRIES - 1
                then history @ [ProviderCall req, Sleep (2000 * (attempt + 1))]
                else history @ [ProviderCall req]))
      else
        (Inl (case lastError of Some err \<Rightarrow> err | None \<Rightarrow> TranslationFailedAfterRetries),
         history))"
  by pat_completeness auto
termination
  by (relation "measure (\<lambda>(provider, parse, req, attempt, lastError, history).
        MAX_RETRIES - attempt)") auto

definition batch_request ::
  "jsstring \<Rightarrow> TranslationBatch \<Rightarrow> jsstring \<Rightarrow> jsstring \<Rightarrow> IndustryConfig \<Rightarrow> request" where
  "batch_request apiKey batch sourceLang targetLang industry =
     \<lparr>req_apiKey = apiKey, req_batch = batch, req_sourceLang = sourceLang,
      req_targetLang = targetLang, req_industry = industry\<rparr>"

definition translateBatch ::
  "provider \<Rightarrow> json_parser \<Rightarrow> jsstring \<Rightarrow> TranslationBatch \<Rightarrow> jsstring \<Rightarrow> jsstring
     \<Rightarrow> IndustryConfig \<Rightarrow> effect list
     \<Rightarrow> (error + (jsstring, jsstring) js_map) \<times> effect list" where
  "translateBatch provider parse apiKey batch sourceLang targetLang industry history =
     retry_loop provider parse (batch_request apiKey batch sourceLang targetLang industry)
       0 None history"

text \<open>
  \<open>translateTexts\<close>. The progress callback is optional and runs in the caller's state:
  it may throw. The state of a run is the history of provider calls and waits together
  with the state of the callback. The table holds what the glossary lookup found and,
  as strings, what the provider translated.
\<close>

type_synonym 's progress_callback = "nat \<Rightarrow> nat \<Rightarrow> 's \<Rightarrow> error option \<times> 's"

definition call_progress ::
  "'s progress_callback option \<Rightarrow> nat \<Rightarrow> nat \<Rightarrow> 's \<Rightarrow> error option \<times> 's" where
  "call_progress onProgress completed totalItems s =
     (case onProgress of None \<Rightarrow> (None, s) | Some f \<Rightarrow> f completed totalItems s)"

text \<open>
  The first loop: glossary matches go straight into the table. The lookup
  \<open>industry.glossary[item.text]\<close> is a property lookup on an object literal, so it
  also finds what the literal inherits from \<open>Object.prototype\<close>; the prototype is
  given from outside, as the list of its members. Whatever truthy value is found is
  stored.
\<close>

definition glossary_step ::
  "(jsstring \<times> js_value) list \<Rightarrow> IndustryConfig \<Rightarrow> (jsstring, js_value) js_map \<Rightarrow> DedupedEntry
     \<Rightarrow> (jsstring, js_value) js_map" where
  "glossary_step prototype industry translations item =
     (case get_property prototype (glossary industry) (entry_text item) of
        Some glossaryMatch \<Rightarrow>
          if truthy glossaryMatch then map_set translations (entry_text item) glossaryMatch
          else translations
      | None \<Rightarrow> translations)"

definition glossary_matches ::
  "(jsstring \<times> js_value) list \<Rightarrow> IndustryConfig \<Rightarrow> DedupedEntry list
     \<Rightarrow> (jsstring, js_value) js_map" where
  "glossary_matches prototype industry items = foldl (glossary_step prototype industry) [] items"

definition remaining_items ::
  "(jsstring \<times> js_value) list \<Rightarrow> IndustryConfig \<Rightarrow> DedupedEntry list \<Rightarrow> DedupedEntry list" where
  "remaining_items prototype industry items =
     filter (\<lambda>t. \<not> map_has (glossary_matches prototype industry items) (entry_text t)) items"

text \<open>\<open>xs.slice(a, b)\<close> for \<open>a \<le> b\<close>, and the loop that cuts the batches.\<close>

definition slice :: "'a list \<Rightarrow> nat \<Rightarrow> nat \<Rightarrow> 'a list" where
  "slice xs a b = take (b - a) (drop a xs)"

function batch_loop :: "DedupedEntry list \<Rightarrow> nat \<Rightarrow> TranslationBatch list" where
  "batch_loop remaining i =
     (if i < length remaining then
        \<lparr>texts = map entry_text (slice remaining i (i + BATCH_SIZE)),
         batch_fields = map entry_fields (slice remaining i (i + BATCH_SIZE))\<rparr>
        # batch_loop remaining (i + BATCH_SIZE)
      else [])"
  by pat_completeness auto
termination
  by (relation "measure (\<lambda>(remaining, i). length remaining - i)") (auto simp: BATCH_SIZE_def)

text \<open>The loop over the batches: a batch that fails ends the run with its error.\<close>

fun process_batches ::
  "provider \<Rightarrow> json_parser \<Rightarrow> jsstring \<Rightarrow> jsstring \<Rightarrow> jsstring \<Rightarrow> IndustryConfig
     \<Rightarrow> 's progress_callback option \<Rightarrow> nat \<Rightarrow> TranslationBatch list
     \<Rightarrow> (jsstring, js_value) js_map \<Rightarrow> nat \<Rightarrow> effect list \<times> 's
     \<Rightarrow> (error + (jsstring, js_value) js_map) \<times> effect list \<times> 's" where
  "process_batches provider parse apiKey sourceLang targetLang industry onProgress totalItems
       [] translations completed st = (Inr translations, st)"
| "process_batches provider parse apiKey sourceLang targetLang industry onProgress totalItems
       (batch # rest) translations completed st =
     (case translateBatch provider parse apiKey batch sourceLang targetLang industry (fst st) of
        (Inl err, history) \<Rightarrow> (Inl err, history, snd st)
      | (Inr batchTranslations, history) \<Rightarrow>
          (let translations' =
                 foldl (\<lambda>m (original, translated). map_set m original (Str translated))
                   translations batchTranslations;
               completed' = completed + length (texts batch)
           in case call_progress onProgress completed' totalItems (snd st) of
                (Some err, s) \<Rightarrow> (Inl err, history, s)
              | (None, s) \<Rightarrow>
                  process_batches provider parse apiKey sourceLang targetLang industry
                    onProgress totalItems rest translations' completed' (history, s)))"

definition translateTexts ::
  "(jsstring \<times> js_value) list \<Rightarrow> provider \<Rightarrow> json_parser \<Rightarrow> DedupedEntry list \<Rightarrow> jsstring
     \<Rightarrow> jsstring \<Rightarrow> IndustryConfig \<Rightarrow> jsstring \<Rightarrow> 's progress_callback option
     \<Rightarrow> effect list \<times> 's
     \<Rightarrow> (error + (jsstring, js_value) js_map) \<times> effect list \<times> 's" where
  "translateTexts prototype provider parse items sourceLang targetLang industry apiKey
       onProgress st =
     (let translations = glossary_matches prototype industry items;
          remaining = remaining_items prototype industry items
      in if length remaining = 0 then
           (case call_progress onProgress (length items) (length items) (snd st) of
              (Some err, s) \<Rightarrow> (Inl err, fst st, s)
            | (None, s) \<Rightarrow> (Inr translations, fst st, s))
         else
           (let batches = batch_loop remaining 0;
                completed = length items - length remaining
            in case call_progress onProgress completed (length items) (snd st) of
                 (Some err, s) \<Rightarrow> (Inl err, fst st, s)
               | (None, s) \<Rightarrow>
                   process_batches provider parse apiKey sourceLang targetLang industry
                     onProgress (length items) batches translations completed (fst st, s)))"

text \<open>
  The history a batch adds when its first \<open>k\<close> attempts fail: each failed attempt is a
  call followed by a wait of 2000 ms times its number.
\<close>

definition failed_attempts :: "request \<Rightarrow> nat \<Rightarrow> effect list" where
  "failed_attempts req k = concat (map (\<lambda>j. [ProviderCall req, Sleep (2000 * (j + 1))]) [0..<k])"

definition provider_calls :: "effect list \<Rightarrow> request list" where
  "provider_calls history = concat (map (\<lambda>e. case e of ProviderCall r \<Rightarrow> [r] | Sleep _ \<Rightarrow> []) history)"

definition waits :: "effect list \<Rightarrow> nat list" where
  "waits history = concat (map (\<lambda>e. case e of ProviderCall _ \<Rightarrow> [] | Sleep ms \<Rightarrow> [ms]) history)"

section \<open>industries.ts: the table of profiles\<close>

text \<open>
  The module-level array \<open>industries\<close> as the module creates it. Strings outside plain
  ASCII, and the long prompt contexts, are written as their UTF-16 code units.
\<close>

definition luxury_watches_jewellery_context :: jsstring where
  "luxury_watches_jewellery_context =
     [0x0059, 0x006F, 0x0075, 0x0020, 0x0061, 0x0072, 0x0065, 0x0020, 0x0061, 0x0020,
      0x0070, 0x0072, 0x006F, 0x0066, 0x0065, 0x0073, 0x0073, 0x0069, 0x006F, 0x006E,
      0x0061, 0x006C, 0x0020, 0x0074, 0x0072, 0x0061, 0x006E, 0x0073, 0x006C, 0x0061,
      0x0074, 0x006F, 0x0072, 0x0020, 0x0073, 0x0070, 0x0065, 0x0063, 0x0069, 0x0061,
      0x006C, 0x0069, 0x0073, 0x0069, 0x006E, 0x0067, 0x0020, 0x0069, 0x006E, 0x0020,
      0x0068, 0x0069, 0x0067, 0x0068, 0x002D, 0x0065, 0x006E, 0x0064, 0x0020, 0x006C,
      0x0075, 0x0078, 0x0075, 0x0072, 0x0079, 0x0020, 0x0077, 0x0061, 0x0074, 0x0063,
      0x0068, 0x0065, 0x0073, 0x0020, 0x0061, 0x006E, 0x0064, 0x0020, 0x0066, 0x0069,
      0x006E, 0x0065, 0x0020, 0x006A, 0x0065, 0x0077, 0x0065, 0x006C, 0x006C, 0x0065,
      0x0072, 0x0079, 0x002E, 0x000A, 0x0055, 0x0073, 0x0065, 0x0020, 0x0070, 0x0072,
      0x0065, 0x0063, 0x0069, 0x0073, 0x0065, 0x0020, 0x0068, 0x006F, 0x0072, 0x006F,
      0x006C, 0x006F, 0x0067, 0x0069, 0x0063, 0x0061, 0x006C, 0x0020, 0x0074, 0x0065,
      0x0072, 0x006D, 0x0069, 0x006E, 0x006F, 0x006C, 0x006F, 0x0067, 0x0079, 0x0020,
      0x0028, 0x0065, 0x002E, 0x0067, 0x002E, 0x0020, 0x0022, 0x006D, 0x006F, 0x0076,
      0x0065, 0x006D, 0x0065, 0x006E, 0x0074, 0x0022, 0x0020, 0x006E, 0x006F, 0x0074,
      0x0020, 0x0022, 0x006D, 0x0065, 0x0063, 0x0068, 0x0061, 0x006E, 0x0069, 0x0073,
      0x006D, 0x0022, 0x002C, 0x0020, 0x0022, 0x0063, 0x006F, 0x006D, 0x0070, 0x006C,
      0x0069, 0x0063, 0x0061, 0x0074, 0x0069, 0x006F, 0x006E, 0x0022, 0x0020, 0x006E,
      0x006F, 0x0074, 0x0020, 0x0022, 0x0066, 0x0065, 0x0061, 0x0074, 0x0075, 0x0072,
      0x0065, 0x0022, 0x002C, 0x0020, 0x0022, 0x0063, 0x0061, 0x0073, 0x0065, 0x0022,
      0x0020, 0x006E, 0x006F, 0x0074, 0x0020, 0x0022, 0x0062, 0x006F, 0x0064, 0x0079,
      0x0022, 0x002C, 0x0020, 0x0022, 0x0062, 0x0065, 0x007A, 0x0065, 0x006C, 0x0022,
      0x0020, 0x006E, 0x006F, 0x0074, 0x0020, 0x0022, 0x0066, 0x0072, 0x0061, 0x006D,
      0x0065, 0x0022, 0x002C, 0x0020, 0x0022, 0x0064, 0x0069, 0x0061, 0x006C, 0x0022,
      0x0020, 0x006E, 0x006F, 0x0074, 0x0020, 0x0022, 0x0066, 0x0061, 0x0063, 0x0065,
      0x0022, 0x002C, 0x0020, 0x0022, 0x0070, 0x006F, 0x0077, 0x0065, 0x0072, 0x0020,
      0x0072, 0x0065, 0x0073, 0x0065, 0x0072, 0x0076, 0x0065, 0x0022, 0x0020, 0x006E,
      0x006F, 0x0074, 0x0020, 0x0022, 0x0062, 0x0061, 0x0074, 0x0074, 0x0065, 0x0072,
      0x0079, 0x0020, 0x006C, 0x0069, 0x0066, 0x0065, 0x0022, 0x002C, 0x0020, 0x0022,
      0x0063, 0x0061, 0x006C, 0x0069, 0x0062, 0x0072, 0x0065, 0x0022, 0x0020, 0x0066,
      0x006F, 0x0072, 0x0020, 0x006D, 0x006F, 0x0076, 0x0065, 0x006D, 0x0065, 0x006E,
      0x0074, 0x0020, 0x0072, 0x0065, 0x0066, 0x0065, 0x0072, 0x0065, 0x006E, 0x0063,
      0x0065, 0x0029, 0x002E, 0x000A, 0x0055, 0x0073, 0x0065, 0x0020, 0x0070, 0x0072,
      0x0065, 0x0063, 0x0069, 0x0073, 0x0065, 0x0020, 0x0067, 0x0065, 0x006D, 0x006F,
      0x006C, 0x006F, 0x0067, 0x0069, 0x0063, 0x0061, 0x006C, 0x0020, 0x0074, 0x0065,
      0x0072, 0x006D, 0x0069, 0x006E, 0x006F, 0x006C, 0x006F, 0x0067, 0x0079, 0x0020,
      0x0028, 0x0065, 0x002E, 0x0067, 0x002E, 0x0020, 0x0022, 0x0063, 0x0074, 0x0022,
      0x0020, 0x0066, 0x006F, 0x0072, 0x0020, 0x0063, 0x0061, 0x0072, 0x0061, 0x0074,
      0x0020, 0x0077, 0x0065, 0x0069, 0x0067, 0x0068, 0x0074, 0x002C, 0x0020, 0x0022,
      0x0062, 0x0072, 0x0069, 0x006C, 0x006C, 0x0069, 0x0061, 0x006E, 0x0074, 0x002D,
      0x0063, 0x0075, 0x0074, 0x0022, 0x0020, 0x006E, 0x006F, 0x0074, 0x0020, 0x0022,
      0x0073, 0x0068, 0x0069, 0x006E, 0x0079, 0x0020, 0x0063, 0x0075, 0x0074, 0x0022,
      0x002C, 0x0020, 0x0022, 0x0070, 0x0061, 0x0076, 0x00E9, 0x0022, 0x0020, 0x0066,
      0x006F, 0x0072, 0x0020, 0x0070, 0x0061, 0x0076, 0x0065, 0x0020, 0x0073, 0x0065,
      0x0074, 0x0074, 0x0069, 0x006E, 0x0067, 0x002C, 0x0020, 0x0022, 0x0063, 0x0061,
      0x0062, 0x006F, 0x0063, 0x0068, 0x006F, 0x006E, 0x0022, 0x0020, 0x0066, 0x006F,
      0x0072, 0x0020, 0x0064, 0x006F, 0x006D, 0x0065, 0x0064, 0x0020, 0x0070, 0x006F,
      0x006C, 0x0069, 0x0073, 0x0068, 0x002C, 0x0020, 0x0022, 0x0062, 0x0061, 0x0067,
      0x0075, 0x0065, 0x0074, 0x0074, 0x0065, 0x0022, 0x0020, 0x0066, 0x006F, 0x0072,
      0x0020, 0x0072, 0x0065, 0x0063, 0x0074, 0x0061, 0x006E, 0x0067, 0x0075, 0x006C,
      0x0061, 0x0072, 0x0020, 0x0063, 0x0075, 0x0074, 0x0029, 0x002E, 0x000A, 0x004D,
      0x0065, 0x0074, 0x0061, 0x006C, 0x0020, 0x0074, 0x0079, 0x0070, 0x0065, 0x0073,
      0x003A, 0x0020, 0x0061, 0x006C, 0x0077, 0x0061, 0x0079, 0x0073, 0x0020, 0x0075,
      0x0073, 0x0065, 0x0020, 0x0022, 0x0031, 0x0038, 0x004B, 0x0020, 0x0057, 0x0068,
      0x0069, 0x0074, 0x0065, 0x0020, 0x0047, 0x006F, 0x006C, 0x0064, 0x0022, 0x002C,
      0x0020, 0x0022, 0x0031, 0x0038, 0x004B, 0x0020, 0x0052, 0x006F, 0x0073, 0x0065,
      0x0020, 0x0047, 0x006F, 0x006C, 0x0064, 0x0022, 0x002C, 0x0020, 0x0022, 0x0031,
      0x0038, 0x004B, 0x0020, 0x0059, 0x0065, 0x006C, 0x006C, 0x006F, 0x0077, 0x0020,
      0x0047, 0x006F, 0x006C, 0x0064, 0x0022, 0x002C, 0x0020, 0x0022, 0x0039, 0x0032,
      0x0035, 0x0020, 0x0053, 0x0074, 0x0065, 0x0072, 0x006C, 0x0069, 0x006E, 0x0067,
      0x0020, 0x0053, 0x0069, 0x006C, 0x0076, 0x0065, 0x0072, 0x0022, 0x002C, 0x0020,
      0x0022, 0x0053, 0x0074, 0x0061, 0x0069, 0x006E, 0x006C, 0x0065, 0x0073, 0x0073,
      0x0020, 0x0053, 0x0074, 0x0065, 0x0065, 0x006C, 0x0022, 0x002C, 0x0020, 0x0022,
      0x0050, 0x0061, 0x006C, 0x006C, 0x0061, 0x0064, 0x0069, 0x0075, 0x006D, 0x0022,
      0x002C, 0x0020, 0x0022, 0x0050, 0x006C, 0x0061, 0x0074, 0x0069, 0x006E, 0x0075,
      0x006D, 0x0022, 0x002E, 0x000A, 0x004A, 0x0065, 0x0077, 0x0065, 0x006C, 0x006C,
      0x0065, 0x0072, 0x0079, 0x0020, 0x0074, 0x0079, 0x0070, 0x0065, 0x0073, 0x003A,
      0x0020, 0x0022, 0x0052, 0x0069, 0x006E, 0x0067, 0x0022, 0x002C, 0x0020, 0x0022,
      0x0045, 0x0061, 0x0072, 0x0072, 0x0069, 0x006E, 0x0067, 0x0073, 0x0022, 0x002C,
      0x0020, 0x0022, 0x004E, 0x0065, 0x0063, 0x006B, 0x006C, 0x0061, 0x0063, 0x0065,
      0x0022, 0x002C, 0x0020, 0x0022, 0x0042, 0x0072, 0x0061, 0x0063, 0x0065, 0x006C,
      0x0065, 0x0074, 0x0022, 0x002C, 0x0020, 0x0022, 0x0050, 0x0065, 0x006E, 0x0064,
      0x0061, 0x006E, 0x0074, 0x0022, 0x002C, 0x0020, 0x0022, 0x0042, 0x0072, 0x006F,
      0x006F, 0x0063, 0x0068, 0x0022, 0x002C, 0x0020, 0x0022, 0x0043, 0x0075, 0x0066,
      0x0066, 0x006C, 0x0069, 0x006E, 0x006B, 0x0073, 0x0022, 0x002E, 0x000A, 0x004D,
      0x0061, 0x0069, 0x006E, 0x0074, 0x0061, 0x0069, 0x006E, 0x0020, 0x0061, 0x006E,
      0x0020, 0x0065, 0x006C, 0x0065, 0x0076, 0x0061, 0x0074, 0x0065, 0x0064, 0x002C,
      0x0020, 0x0072, 0x0065, 0x0066, 0x0069, 0x006E, 0x0065, 0x0064, 0x0020, 0x0074,
      0x006F, 0x006E, 0x0065, 0x0020, 0x0062, 0x0065, 0x0066, 0x0069, 0x0074, 0x0074,
      0x0069, 0x006E, 0x0067, 0x0020, 0x0061, 0x0020, 0x006C, 0x0075, 0x0078, 0x0075,
      0x0072, 0x0079, 0x0020, 0x006D, 0x0061, 0x0069, 0x0073, 0x006F, 0x006E, 0x002E,
      0x0020, 0x0042, 0x0072, 0x0069, 0x0074, 0x0069, 0x0073, 0x0068, 0x0020, 0x0045,
      0x006E, 0x0067, 0x006C, 0x0069, 0x0073, 0x0068, 0x0020, 0x0073, 0x0070, 0x0065,
      0x006C, 0x006C, 0x0069, 0x006E, 0x0067, 0x0020, 0x0028, 0x006A, 0x0065, 0x0077,
      0x0065, 0x006C, 0x006C, 0x0065, 0x0072, 0x0079, 0x002C, 0x0020, 0x0063, 0x006F,
      0x006C, 0x006F, 0x0075, 0x0072, 0x002C, 0x0020, 0x0063, 0x0065, 0x006E, 0x0074,
      0x0072, 0x0065, 0x0029, 0x002E]"

definition luxury_watches_jewellery :: IndustryConfig where
  "luxury_watches_jewellery =
     \<lparr>industry_id = js ''luxury-watches-jewellery'',
      industry_name = js ''Luxury Watches & Jewellery'',
      icon = [0xD83D, 0xDC8E],
      industry_description =
        js ''High-end timepieces and fine jewellery. Uses horological and gemological terminology.'',
      industry_context = luxury_watches_jewellery_context,
      glossary =
        [([0x0411, 0x0438, 0x0436, 0x0443, 0x0442, 0x0430], js ''Jewellery''),
         ([0x0427, 0x0430, 0x0441, 0x043E, 0x0432, 0x043D, 0x0438, 0x0446, 0x0438], js ''Watches''),
         ([0x041F, 0x0440, 0x044A, 0x0441, 0x0442, 0x0435, 0x043D], js ''Ring''),
         ([0x041E, 0x0431, 0x0435, 0x0446, 0x0438], js ''Earrings''),
         ([0x041A, 0x043E, 0x043B, 0x0438, 0x0435], js ''Necklace''),
         ([0x0413, 0x0440, 0x0438, 0x0432, 0x043D, 0x0430], js ''Bracelet''),
         ([0x0412, 0x0438, 0x0441, 0x0443, 0x043B, 0x043A, 0x0430], js ''Pendant''),
         ([0x0411, 0x0440, 0x043E, 0x0448, 0x043A, 0x0430], js ''Brooch''),
         ([0x0414, 0x0438, 0x0430, 0x043C, 0x0430, 0x043D, 0x0442, 0x0438], js ''Diamonds''),
         ([0x0421, 0x0430, 0x043F, 0x0444, 0x0438, 0x0440, 0x0438], js ''Sapphires''),
         ([0x0420, 0x0443, 0x0431, 0x0438, 0x043D, 0x0438], js ''Rubies''),
         ([0x0421, 0x043C, 0x0430, 0x0440, 0x0430, 0x0433, 0x0434, 0x0438], js ''Emeralds''),
         ([0x0031, 0x0038, 0x041A, 0x0020, 0x0431, 0x044F, 0x043B, 0x043E, 0x0020,
           0x0437, 0x043B, 0x0430, 0x0442, 0x043E], js ''18K White Gold''),
         ([0x0031, 0x0038, 0x041A, 0x0020, 0x0440, 0x043E, 0x0437, 0x043E, 0x0432,
           0x043E, 0x0020, 0x0437, 0x043B, 0x0430, 0x0442, 0x043E], js ''18K Rose Gold''),
         ([0x0031, 0x0038, 0x041A, 0x0020, 0x0436, 0x044A, 0x043B, 0x0442, 0x043E,
           0x0020, 0x0437, 0x043B, 0x0430, 0x0442, 0x043E], js ''18K Yellow Gold''),
         ([0x041D, 0x0435, 0x0440, 0x044A, 0x0436, 0x0434, 0x0430, 0x0435, 0x043C,
           0x0430, 0x0020, 0x0441, 0x0442, 0x043E, 0x043C, 0x0430, 0x043D, 0x0430], js ''Stainless Steel''),
         ([0x043A, 0x0430, 0x0440, 0x0430, 0x0442, 0x0430], js ''ct''),
         ([0x0410, 0x0432, 0x0442, 0x043E, 0x043C, 0x0430, 0x0442, 0x0438, 0x0447,
           0x0435, 0x043D], js ''Automatic''),
         ([0x0420, 0x044A, 0x0447, 0x043D, 0x043E, 0x0020, 0x043D, 0x0430, 0x0432,
           0x0438, 0x0432, 0x0430, 0x043D, 0x0435], js ''Hand-Winding''),
         ([0x0412, 0x043E, 0x0434, 0x043E, 0x0443, 0x0441, 0x0442, 0x043E, 0x0439,
           0x0447, 0x0438, 0x0432, 0x043E, 0x0441, 0x0442], js ''Water Resistance''),
         ([0x041C, 0x0435, 0x0445, 0x0430, 0x043D, 0x0438, 0x0437, 0x044A, 0x043C], js ''Movement''),
         ([0x041A, 0x043E, 0x0440, 0x043F, 0x0443, 0x0441], js ''Case''),
         ([0x0411, 0x0435, 0x0437, 0x0435, 0x043B], js ''Bezel''),
         ([0x0426, 0x0438, 0x0444, 0x0435, 0x0440, 0x0431, 0x043B, 0x0430, 0x0442], js ''Dial''),
         ([0x041A, 0x0430, 0x0438, 0x0448, 0x043A, 0x0430], js ''Strap''),
         ([0x0421, 0x0442, 0x044A, 0x043A, 0x043B, 0x043E], js ''Crystal'')],
      exampleTerms =
        [[0x0411, 0x0435, 0x0437, 0x0435, 0x043B, 0x0020, 0x2192, 0x0020, 0x0042,
           0x0065, 0x007A, 0x0065, 0x006C],
         [0x043A, 0x0430, 0x0440, 0x0430, 0x0442, 0x0430, 0x0020, 0x2192, 0x0020,
           0x0063, 0x0074],
         [0x041C, 0x0435, 0x0445, 0x0430, 0x043D, 0x0438, 0x0437, 0x044A, 0x043C,
           0x0020, 0x2192, 0x0020, 0x004D, 0x006F, 0x0076, 0x0065, 0x006D, 0x0065,
           0x006E, 0x0074],
         [0x0031, 0x0038, 0x041A, 0x0020, 0x0440, 0x043E, 0x0437, 0x043E, 0x0432,
           0x043E, 0x0020, 0x0437, 0x043B, 0x0430, 0x0442, 0x043E, 0x0020, 0x2192,
           0x0020, 0x0031, 0x0038, 0x004B, 0x0020, 0x0052, 0x006F, 0x0073, 0x0065,
           0x0020, 0x0047, 0x006F, 0x006C, 0x0064]]\<rparr>"

definition fashion_apparel_context :: jsstring where
  "fashion_apparel_context =
     [0x0059, 0x006F, 0x0075, 0x0020, 0x0061, 0x0072, 0x0065, 0x0020, 0x0061, 0x0020,
      0x0070, 0x0072, 0x006F, 0x0066, 0x0065, 0x0073, 0x0073, 0x0069, 0x006F, 0x006E,
      0x0061, 0x006C, 0x0020, 0x0074, 0x0072, 0x0061, 0x006E, 0x0073, 0x006C, 0x0061,
      0x0074, 0x006F, 0x0072, 0x0020, 0x0073, 0x0070, 0x0065, 0x0063, 0x0069, 0x0061,
      0x006C, 0x0069, 0x0073, 0x0069, 0x006E, 0x0067, 0x0020, 0x0069, 0x006E, 0x0020,
      0x0066, 0x0061, 0x0073, 0x0068, 0x0069, 0x006F, 0x006E, 0x0020, 0x0061, 0x006E,
      0x0064, 0x0020, 0x0061, 0x0070, 0x0070, 0x0061, 0x0072, 0x0065, 0x006C, 0x002E,
      0x000A, 0x0055, 0x0073, 0x0065, 0x0020, 0x0073, 0x0074, 0x0061, 0x006E, 0x0064,
      0x0061, 0x0072, 0x0064, 0x0020, 0x0066, 0x0061, 0x0073, 0x0068, 0x0069, 0x006F,
      0x006E, 0x0020, 0x0069, 0x006E, 0x0064, 0x0075, 0x0073, 0x0074, 0x0072, 0x0079,
      0x0020, 0x0074, 0x0065, 0x0072, 0x006D, 0x0069, 0x006E, 0x006F, 0x006C, 0x006F,
      0x0067, 0x0079, 0x0020, 0x0028, 0x0065, 0x002E, 0x0067, 0x002E, 0x0020, 0x0022,
      0x0073, 0x0069, 0x006C, 0x0068, 0x006F, 0x0075, 0x0065, 0x0074, 0x0074, 0x0065,
      0x0022, 0x0020, 0x006E, 0x006F, 0x0074, 0x0020, 0x0022, 0x0073, 0x0068, 0x0061,
      0x0070, 0x0065, 0x0022, 0x002C, 0x0020, 0x0022, 0x0064, 0x0072, 0x0061, 0x0070,
      0x0065, 0x0022, 0x0020, 0x006E, 0x006F, 0x0074, 0x0020, 0x0022, 0x0068, 0x0061,
      0x006E, 0x0067, 0x0022, 0x002C, 0x0020, 0x0022, 0x0066, 0x0061, 0x0062, 0x0072,
      0x0069, 0x0063, 0x0061, 0x0074, 0x0069, 0x006F, 0x006E, 0x0022, 0x0020, 0x006E,
      0x006F, 0x0074, 0x0020, 0x0022, 0x006D, 0x0061, 0x0074, 0x0065, 0x0072, 0x0069,
      0x0061, 0x006C, 0x0020, 0x0074, 0x0079, 0x0070, 0x0065, 0x0022, 0x002C, 0x0020,
      0x0022, 0x0063, 0x006F, 0x006C, 0x006F, 0x0075, 0x0072, 0x0077, 0x0061, 0x0079,
      0x0022, 0x0020, 0x006E, 0x006F, 0x0074, 0x0020, 0x0022, 0x0063, 0x006F, 0x006C,
      0x006F, 0x0075, 0x0072, 0x0020, 0x0076, 0x0065, 0x0072, 0x0073, 0x0069, 0x006F,
      0x006E, 0x0022, 0x0029, 0x002E, 0x000A, 0x0046, 0x0061, 0x0062, 0x0072, 0x0069,
      0x0063, 0x0020, 0x0074, 0x0079, 0x0070, 0x0065, 0x0073, 0x003A, 0x0020, 0x0075,
      0x0073, 0x0065, 0x0020, 0x0070, 0x0072, 0x006F, 0x0070, 0x0065, 0x0072, 0x0020,
      0x0074, 0x0065, 0x0078, 0x0074, 0x0069, 0x006C, 0x0065, 0x0020, 0x006E, 0x0061,
      0x006D, 0x0065, 0x0073, 0x0020, 0x0028, 0x0065, 0x002E, 0x0067, 0x002E, 0x0020,
      0x0022, 0x0063, 0x0068, 0x0061, 0x0072, 0x006D, 0x0065, 0x0075, 0x0073, 0x0065,
      0x0022, 0x002C, 0x0020, 0x0022, 0x006F, 0x0072, 0x0067, 0x0061, 0x006E, 0x007A,
      0x0061, 0x0022, 0x002C, 0x0020, 0x0022, 0x0074, 0x0077, 0x0069, 0x006C, 0x006C,
      0x0022, 0x002C, 0x0020, 0x0022, 0x006A, 0x0065, 0x0072, 0x0073, 0x0065, 0x0079,
      0x0020, 0x006B, 0x006E, 0x0069, 0x0074, 0x0022, 0x002C, 0x0020, 0x0022, 0x0046,
      0x0072, 0x0065, 0x006E, 0x0063, 0x0068, 0x0020, 0x0074, 0x0065, 0x0072, 0x0072,
      0x0079, 0x0022, 0x0029, 0x002E, 0x000A, 0x0053, 0x0069, 0x007A, 0x0069, 0x006E,
      0x0067, 0x003A, 0x0020, 0x006D, 0x0061, 0x0069, 0x006E, 0x0074, 0x0061, 0x0069,
      0x006E, 0x0020, 0x006F, 0x0072, 0x0069, 0x0067, 0x0069, 0x006E, 0x0061, 0x006C,
      0x0020, 0x0073, 0x0069, 0x007A, 0x0069, 0x006E, 0x0067, 0x0020, 0x006E, 0x006F,
      0x0074, 0x0061, 0x0074, 0x0069, 0x006F, 0x006E, 0x002E, 0x000A, 0x004D, 0x0061,
      0x0069, 0x006E, 0x0074, 0x0061, 0x0069, 0x006E, 0x0020, 0x0061, 0x0020, 0x0063,
      0x006F, 0x006E, 0x0074, 0x0065, 0x006D, 0x0070, 0x006F, 0x0072, 0x0061, 0x0072,
      0x0079, 0x002C, 0x0020, 0x0066, 0x0061, 0x0073, 0x0068, 0x0069, 0x006F, 0x006E,
      0x002D, 0x0066, 0x006F, 0x0072, 0x0077, 0x0061, 0x0072, 0x0064, 0x0020, 0x0074,
      0x006F, 0x006E, 0x0065, 0x002E, 0x0020, 0x0042, 0x0072, 0x0069, 0x0074, 0x0069,
      0x0073, 0x0068, 0x0020, 0x0045, 0x006E, 0x0067, 0x006C, 0x0069, 0x0073, 0x0068,
      0x0020, 0x0073, 0x0070, 0x0065, 0x006C, 0x006C, 0x0069, 0x006E, 0x0067, 0x002E]"

definition fashion_apparel :: IndustryConfig where
  "fashion_apparel =
     \<lparr>industry_id = js ''fashion-apparel'',
      industry_name = js ''Fashion & Apparel'',
      icon = [0xD83D, 0xDC57],
      industry_description =
        js ''Clothing, footwear, and fashion accessories. Uses textile and fashion industry terminology.'',
      industry_context = fashion_apparel_context,
      glossary =
        [([0x0414, 0x0440, 0x0435, 0x0445, 0x0438], js ''Clothing''),
         ([0x041E, 0x0431, 0x0443, 0x0432, 0x043A, 0x0438], js ''Footwear''),
         ([0x0410, 0x043A, 0x0441, 0x0435, 0x0441, 0x043E, 0x0430, 0x0440, 0x0438], js ''Accessories''),
         ([0x0420, 0x043E, 0x043A, 0x043B, 0x044F], js ''Dress''),
         ([0x041F, 0x0430, 0x043D, 0x0442, 0x0430, 0x043B, 0x043E, 0x043D], js ''Trousers''),
         ([0x0420, 0x0438, 0x0437, 0x0430], js ''Shirt''),
         ([0x042F, 0x043A, 0x0435], js ''Jacket''),
         ([0x041F, 0x0430, 0x043B, 0x0442, 0x043E], js ''Coat''),
         ([0x041F, 0x0430, 0x043C, 0x0443, 0x043A], js ''Cotton''),
         ([0x041A, 0x043E, 0x043F, 0x0440, 0x0438, 0x043D, 0x0430], js ''Silk''),
         ([0x0412, 0x044A, 0x043B, 0x043D, 0x0430], js ''Wool''),
         ([0x041F, 0x043E, 0x043B, 0x0438, 0x0435, 0x0441, 0x0442, 0x0435, 0x0440], js ''Polyester'')],
      exampleTerms =
        [[0x0420, 0x043E, 0x043A, 0x043B, 0x044F, 0x0020, 0x2192, 0x0020, 0x0044,
           0x0072, 0x0065, 0x0073, 0x0073],
         [0x041A, 0x043E, 0x043F, 0x0440, 0x0438, 0x043D, 0x0430, 0x0020, 0x2192,
           0x0020, 0x0053, 0x0069, 0x006C, 0x006B],
         [0x042F, 0x043A, 0x0435, 0x0020, 0x2192, 0x0020, 0x004A, 0x0061, 0x0063,
           0x006B, 0x0065, 0x0074],
         [0x041F, 0x0430, 0x043B, 0x0442, 0x043E, 0x0020, 0x2192, 0x0020, 0x0043,
           0x006F, 0x0061, 0x0074]]\<rparr>"

definition electronics_tech_context :: jsstring where
  "electronics_tech_context =
     [0x0059, 0x006F, 0x0075, 0x0020, 0x0061, 0x0072, 0x0065, 0x0020, 0x0061, 0x0020,
      0x0070, 0x0072, 0x006F, 0x0066, 0x0065, 0x0073, 0x0073, 0x0069, 0x006F, 0x006E,
      0x0061, 0x006C, 0x0020, 0x0074, 0x0072, 0x0061, 0x006E, 0x0073, 0x006C, 0x0061,
      0x0074, 0x006F, 0x0072, 0x0020, 0x0073, 0x0070, 0x0065, 0x0063, 0x0069, 0x0061,
      0x006C, 0x0069, 0x0073, 0x0069, 0x006E, 0x0067, 0x0020, 0x0069, 0x006E, 0x0020,
      0x0063, 0x006F, 0x006E, 0x0073, 0x0075, 0x006D, 0x0065, 0x0072, 0x0020, 0x0065,
      0x006C, 0x0065, 0x0063, 0x0074, 0x0072, 0x006F, 0x006E, 0x0069, 0x0063, 0x0073,
      0x0020, 0x0061, 0x006E, 0x0064, 0x0020, 0x0074, 0x0065, 0x0063, 0x0068, 0x006E,
      0x006F, 0x006C, 0x006F, 0x0067, 0x0079, 0x002E, 0x000A, 0x0055, 0x0073, 0x0065,
      0x0020, 0x0070, 0x0072, 0x0065, 0x0063, 0x0069, 0x0073, 0x0065, 0x0020, 0x0074,
      0x0065, 0x0063, 0x0068, 0x006E, 0x0069, 0x0063, 0x0061, 0x006C, 0x0020, 0x0074,
      0x0065, 0x0072, 0x006D, 0x0069, 0x006E, 0x006F, 0x006C, 0x006F, 0x0067, 0x0079,
      0x0020, 0x0028, 0x0065, 0x002E, 0x0067, 0x002E, 0x0020, 0x0022, 0x0064, 0x0069,
      0x0073, 0x0070, 0x006C, 0x0061, 0x0079, 0x0022, 0x0020, 0x006E, 0x006F, 0x0074,
      0x0020, 0x0022, 0x0073, 0x0063, 0x0072, 0x0065, 0x0065, 0x006E, 0x0022, 0x0020,
      0x0066, 0x006F, 0x0072, 0x0020, 0x0073, 0x0070, 0x0065, 0x0063, 0x0073, 0x002C,
      0x0020, 0x0022, 0x0070, 0x0072, 0x006F, 0x0063, 0x0065, 0x0073, 0x0073, 0x006F,
      0x0072, 0x0022, 0x0020, 0x006E, 0x006F, 0x0074, 0x0020, 0x0022, 0x0063, 0x0068,
      0x0069, 0x0070, 0x0022, 0x002C, 0x0020, 0x0022, 0x0073, 0x0074, 0x006F, 0x0072,
      0x0061, 0x0067, 0x0065, 0x0020, 0x0063, 0x0061, 0x0070, 0x0061, 0x0063, 0x0069,
      0x0074, 0x0079, 0x0022, 0x0020, 0x006E, 0x006F, 0x0074, 0x0020, 0x0022, 0x006D,
      0x0065, 0x006D, 0x006F, 0x0072, 0x0079, 0x0020, 0x0073, 0x0069, 0x007A, 0x0065,
      0x0022, 0x002C, 0x0020, 0x0022, 0x0063, 0x006F, 0x006E, 0x006E, 0x0065, 0x0063,
      0x0074, 0x0069, 0x0076, 0x0069, 0x0074, 0x0079, 0x0022, 0x0020, 0x006E, 0x006F,
      0x0074, 0x0020, 0x0022, 0x0063, 0x006F, 0x006E, 0x006E, 0x0065, 0x0063, 0x0074,
      0x0069, 0x006F, 0x006E, 0x0073, 0x0022, 0x0029, 0x002E, 0x000A, 0x0053, 0x0070,
      0x0065, 0x0063, 0x0069, 0x0066, 0x0069, 0x0063, 0x0061, 0x0074, 0x0069, 0x006F,
      0x006E, 0x0073, 0x003A, 0x0020, 0x006D, 0x0061, 0x0069, 0x006E, 0x0074, 0x0061,
      0x0069, 0x006E, 0x0020, 0x0065, 0x0078, 0x0061, 0x0063, 0x0074, 0x0020, 0x0076,
      0x0061, 0x006C, 0x0075, 0x0065, 0x0073, 0x002C, 0x0020, 0x0075, 0x006E, 0x0069,
      0x0074, 0x0073, 0x002C, 0x0020, 0x0061, 0x006E, 0x0064, 0x0020, 0x006D, 0x006F,
      0x0064, 0x0065, 0x006C, 0x0020, 0x006E, 0x0075, 0x006D, 0x0062, 0x0065, 0x0072,
      0x0073, 0x0020, 0x0075, 0x006E, 0x0074, 0x0072, 0x0061, 0x006E, 0x0073, 0x006C,
      0x0061, 0x0074, 0x0065, 0x0064, 0x002E, 0x000A, 0x0055, 0x0073, 0x0065, 0x0020,
      0x0063, 0x006C, 0x0065, 0x0061, 0x0072, 0x002C, 0x0020, 0x0063, 0x006F, 0x006E,
      0x0063, 0x0069, 0x0073, 0x0065, 0x0020, 0x0070, 0x0072, 0x006F, 0x0064, 0x0075,
      0x0063, 0x0074, 0x0020, 0x006C, 0x0061, 0x006E, 0x0067, 0x0075, 0x0061, 0x0067,
      0x0065, 0x0020, 0x0074, 0x0079, 0x0070, 0x0069, 0x0063, 0x0061, 0x006C, 0x0020,
      0x006F, 0x0066, 0x0020, 0x0074, 0x0065, 0x0063, 0x0068, 0x0020, 0x0072, 0x0065,
      0x0074, 0x0061, 0x0069, 0x006C, 0x002E, 0x0020, 0x0042, 0x0072, 0x0069, 0x0074,
      0x0069, 0x0073, 0x0068, 0x0020, 0x0045, 0x006E, 0x0067, 0x006C, 0x0069, 0x0073,
      0x0068, 0x0020, 0x0073, 0x0070, 0x0065, 0x006C, 0x006C, 0x0069, 0x006E, 0x0067,
      0x002E]"

definition electronics_tech :: IndustryConfig where
  "electronics_tech =
     \<lparr>industry_id = js ''electronics-tech'',
      industry_name = js ''Electronics & Technology'',
      icon = [0xD83D, 0xDCF1],
      industry_description =
        js ''Consumer electronics, gadgets, and tech accessories. Uses technical specification terminology.'',
      industry_context = electronics_tech_context,
      glossary =
        [([0x0415, 0x043B, 0x0435, 0x043A, 0x0442, 0x0440, 0x043E, 0x043D, 0x0438,
           0x043A, 0x0430], js ''Electronics''),
         ([0x0421, 0x043C, 0x0430, 0x0440, 0x0442, 0x0444, 0x043E, 0x043D], js ''Smartphone''),
         ([0x041B, 0x0430, 0x043F, 0x0442, 0x043E, 0x043F], js ''Laptop''),
         ([0x0422, 0x0430, 0x0431, 0x043B, 0x0435, 0x0442], js ''Tablet''),
         ([0x0421, 0x043B, 0x0443, 0x0448, 0x0430, 0x043B, 0x043A, 0x0438], js ''Headphones''),
         ([0x0411, 0x0430, 0x0442, 0x0435, 0x0440, 0x0438, 0x044F], js ''Battery''),
         ([0x0414, 0x0438, 0x0441, 0x043F, 0x043B, 0x0435, 0x0439], js ''Display''),
         ([0x041F, 0x0440, 0x043E, 0x0446, 0x0435, 0x0441, 0x043E, 0x0440], js ''Processor''),
         ([0x041F, 0x0430, 0x043C, 0x0435, 0x0442], js ''Memory'')],
      exampleTerms =
        [[0x0414, 0x0438, 0x0441, 0x043F, 0x043B, 0x0435, 0x0439, 0x0020, 0x2192,
           0x0020, 0x0044, 0x0069, 0x0073, 0x0070, 0x006C, 0x0061, 0x0079],
         [0x041F, 0x0440, 0x043E, 0x0446, 0x0435, 0x0441, 0x043E, 0x0440, 0x0020,
           0x2192, 0x0020, 0x0050, 0x0072, 0x006F, 0x0063, 0x0065, 0x0073, 0x0073,
           0x006F, 0x0072],
         [0x0411, 0x0430, 0x0442, 0x0435, 0x0440, 0x0438, 0x044F, 0x0020, 0x2192,
           0x0020, 0x0042, 0x0061, 0x0074, 0x0074, 0x0065, 0x0072, 0x0079],
         [0x0421, 0x043B, 0x0443, 0x0448, 0x0430, 0x043B, 0x043A, 0x0438, 0x0020,
           0x2192, 0x0020, 0x0048, 0x0065, 0x0061, 0x0064, 0x0070, 0x0068, 0x006F,
           0x006E, 0x0065, 0x0073]]\<rparr>"

definition home_furniture_context :: jsstring where
  "home_furniture_context =
     [0x0059, 0x006F, 0x0075, 0x0020, 0x0061, 0x0072, 0x0065, 0x0020, 0x0061, 0x0020,
      0x0070, 0x0072, 0x006F, 0x0066, 0x0065, 0x0073, 0x0073, 0x0069, 0x006F, 0x006E,
      0x0061, 0x006C, 0x0020, 0x0074, 0x0072, 0x0061, 0x006E, 0x0073, 0x006C, 0x0061,
      0x0074, 0x006F, 0x0072, 0x0020, 0x0073, 0x0070, 0x0065, 0x0063, 0x0069, 0x0061,
      0x006C, 0x0069, 0x0073, 0x0069, 0x006E, 0x0067, 0x0020, 0x0069, 0x006E, 0x0020,
      0x0068, 0x006F, 0x006D, 0x0065, 0x0020, 0x0066, 0x0075, 0x0072, 0x006E, 0x0069,
      0x0073, 0x0068, 0x0069, 0x006E, 0x0067, 0x0073, 0x0020, 0x0061, 0x006E, 0x0064,
      0x0020, 0x0069, 0x006E, 0x0074, 0x0065, 0x0072, 0x0069, 0x006F, 0x0072, 0x0020,
      0x0064, 0x0065, 0x0073, 0x0069, 0x0067, 0x006E, 0x002E, 0x000A, 0x0055, 0x0073,
      0x0065, 0x0020, 0x0069, 0x006E, 0x0074, 0x0065, 0x0072, 0x0069, 0x006F, 0x0072,
      0x0020, 0x0064, 0x0065, 0x0073, 0x0069, 0x0067, 0x006E, 0x0020, 0x0074, 0x0065,
      0x0072, 0x006D, 0x0069, 0x006E, 0x006F, 0x006C, 0x006F, 0x0067, 0x0079, 0x0020,
      0x0028, 0x0065, 0x002E, 0x0067, 0x002E, 0x0020, 0x0022, 0x0075, 0x0070, 0x0068,
      0x006F, 0x006C, 0x0073, 0x0074, 0x0065, 0x0072, 0x0079, 0x0022, 0x0020, 0x006E,
      0x006F, 0x0074, 0x0020, 0x0022, 0x0063, 0x006F, 0x0076, 0x0065, 0x0072, 0x0069,
      0x006E, 0x0067, 0x0022, 0x002C, 0x0020, 0x0022, 0x0076, 0x0065, 0x006E, 0x0065,
      0x0065, 0x0072, 0x0022, 0x0020, 0x006E, 0x006F, 0x0074, 0x0020, 0x0022, 0x0074,
      0x0068, 0x0069, 0x006E, 0x0020, 0x0077, 0x006F, 0x006F, 0x0064, 0x0020, 0x006C,
      0x0061, 0x0079, 0x0065, 0x0072, 0x0022, 0x002C, 0x0020, 0x0022, 0x0070, 0x0061,
      0x0074, 0x0069, 0x006E, 0x0061, 0x0022, 0x0020, 0x006E, 0x006F, 0x0074, 0x0020,
      0x0022, 0x0061, 0x0067, 0x0065, 0x0064, 0x0020, 0x006C, 0x006F, 0x006F, 0x006B,
      0x0022, 0x002C, 0x0020, 0x0022, 0x0062, 0x0065, 0x0073, 0x0070, 0x006F, 0x006B,
      0x0065, 0x0022, 0x0020, 0x0066, 0x006F, 0x0072, 0x0020, 0x0063, 0x0075, 0x0073,
      0x0074, 0x006F, 0x006D, 0x002D, 0x006D, 0x0061, 0x0064, 0x0065, 0x0029, 0x002E,
      0x000A, 0x004D, 0x0061, 0x0074, 0x0065, 0x0072, 0x0069, 0x0061, 0x006C, 0x0073,
      0x003A, 0x0020, 0x0075, 0x0073, 0x0065, 0x0020, 0x0070, 0x0072, 0x006F, 0x0070,
      0x0065, 0x0072, 0x0020, 0x006E, 0x0061, 0x006D, 0x0065, 0x0073, 0x0020, 0x0028,
      0x0065, 0x002E, 0x0067, 0x002E, 0x0020, 0x0022, 0x0073, 0x006F, 0x006C, 0x0069,
      0x0064, 0x0020, 0x006F, 0x0061, 0x006B, 0x0022, 0x002C, 0x0020, 0x0022, 0x0049,
      0x0074, 0x0061, 0x006C, 0x0069, 0x0061, 0x006E, 0x0020, 0x006D, 0x0061, 0x0072,
      0x0062, 0x006C, 0x0065, 0x0022, 0x002C, 0x0020, 0x0022, 0x0062, 0x0072, 0x0075,
      0x0073, 0x0068, 0x0065, 0x0064, 0x0020, 0x006E, 0x0069, 0x0063, 0x006B, 0x0065,
      0x006C, 0x0022, 0x002C, 0x0020, 0x0022, 0x0068, 0x0061, 0x006E, 0x0064, 0x002D,
      0x0062, 0x006C, 0x006F, 0x0077, 0x006E, 0x0020, 0x0067, 0x006C, 0x0061, 0x0073,
      0x0073, 0x0022, 0x0029, 0x002E, 0x000A, 0x004D, 0x0061, 0x0069, 0x006E, 0x0074,
      0x0061, 0x0069, 0x006E, 0x0020, 0x0061, 0x0020, 0x0073, 0x006F, 0x0070, 0x0068,
      0x0069, 0x0073, 0x0074, 0x0069, 0x0063, 0x0061, 0x0074, 0x0065, 0x0064, 0x002C,
      0x0020, 0x006C, 0x0069, 0x0066, 0x0065, 0x0073, 0x0074, 0x0079, 0x006C, 0x0065,
      0x002D, 0x006F, 0x0072, 0x0069, 0x0065, 0x006E, 0x0074, 0x0065, 0x0064, 0x0020,
      0x0074, 0x006F, 0x006E, 0x0065, 0x002E, 0x0020, 0x0042, 0x0072, 0x0069, 0x0074,
      0x0069, 0x0073, 0x0068, 0x0020, 0x0045, 0x006E, 0x0067, 0x006C, 0x0069, 0x0073,
      0x0068, 0x0020, 0x0073, 0x0070, 0x0065, 0x006C, 0x006C, 0x0069, 0x006E, 0x0067,
      0x002E]"

definition home_furniture :: IndustryConfig where
  "home_furniture =
     \<lparr>industry_id = js ''home-furniture'',
      industry_name = js ''Home & Furniture'',
      icon = [0xD83C, 0xDFE0],
      industry_description =
        js ''Home decor, furniture, and interior design products. Uses interior design terminology.'',
      industry_context = home_furniture_context,
      glossary =
        [([0x041C, 0x0435, 0x0431, 0x0435, 0x043B, 0x0438], js ''Furniture''),
         ([0x041C, 0x0430, 0x0441, 0x0430], js ''Table''),
         ([0x0421, 0x0442, 0x043E, 0x043B], js ''Chair''),
         ([0x0414, 0x0438, 0x0432, 0x0430, 0x043D], js ''Sofa''),
         ([0x041B, 0x0435, 0x0433, 0x043B, 0x043E], js ''Bed''),
         ([0x0428, 0x043A, 0x0430, 0x0444], js ''Cabinet''),
         ([0x041B, 0x0430, 0x043C, 0x043F, 0x0430], js ''Lamp''),
         ([0x041A, 0x0438, 0x043B, 0x0438, 0x043C], js ''Rug''),
         ([0x0414, 0x044A, 0x0440, 0x0432, 0x043E], js ''Wood'')],
      exampleTerms =
        [[0x041C, 0x0435, 0x0431, 0x0435, 0x043B, 0x0438, 0x0020, 0x2192, 0x0020,
           0x0046, 0x0075, 0x0072, 0x006E, 0x0069, 0x0074, 0x0075, 0x0072, 0x0065],
         [0x0414, 0x0438, 0x0432, 0x0430, 0x043D, 0x0020, 0x2192, 0x0020, 0x0053,
           0x006F, 0x0066, 0x0061],
         [0x041A, 0x0438, 0x043B, 0x0438, 0x043C, 0x0020, 0x2192, 0x0020, 0x0052,
           0x0075, 0x0067],
         [0x0414, 0x044A, 0x0440, 0x0432, 0x043E, 0x0020, 0x2192, 0x0020, 0x0057,
           0x006F, 0x006F, 0x0064]]\<rparr>"

definition beauty_cosmetics_context :: jsstring where
  "beauty_cosmetics_context =
     [0x0059, 0x006F, 0x0075, 0x0020, 0x0061, 0x0072, 0x0065, 0x0020, 0x0061, 0x0020,
      0x0070, 0x0072, 0x006F, 0x0066, 0x0065, 0x0073, 0x0073, 0x0069, 0x006F, 0x006E,
      0x0061, 0x006C, 0x0020, 0x0074, 0x0072, 0x0061, 0x006E, 0x0073, 0x006C, 0x0061,
      0x0074, 0x006F, 0x0072, 0x0020, 0x0073, 0x0070, 0x0065, 0x0063, 0x0069, 0x0061,
      0x006C, 0x0069, 0x0073, 0x0069, 0x006E, 0x0067, 0x0020, 0x0069, 0x006E, 0x0020,
      0x0062, 0x0065, 0x0061, 0x0075, 0x0074, 0x0079, 0x002C, 0x0020, 0x0073, 0x006B,
      0x0069, 0x006E, 0x0063, 0x0061, 0x0072, 0x0065, 0x002C, 0x0020, 0x0061, 0x006E,
      0x0064, 0x0020, 0x0063, 0x006F, 0x0073, 0x006D, 0x0065, 0x0074, 0x0069, 0x0063,
      0x0073, 0x002E, 0x000A, 0x0055, 0x0073, 0x0065, 0x0020, 0x0062, 0x0065, 0x0061,
      0x0075, 0x0074, 0x0079, 0x0020, 0x0069, 0x006E, 0x0064, 0x0075, 0x0073, 0x0074,
      0x0072, 0x0079, 0x0020, 0x0074, 0x0065, 0x0072, 0x006D, 0x0069, 0x006E, 0x006F,
      0x006C, 0x006F, 0x0067, 0x0079, 0x0020, 0x0028, 0x0065, 0x002E, 0x0067, 0x002E,
      0x0020, 0x0022, 0x0066, 0x006F, 0x0072, 0x006D, 0x0075, 0x006C, 0x0061, 0x0074,
      0x0069, 0x006F, 0x006E, 0x0022, 0x0020, 0x006E, 0x006F, 0x0074, 0x0020, 0x0022,
      0x0072, 0x0065, 0x0063, 0x0069, 0x0070, 0x0065, 0x0022, 0x002C, 0x0020, 0x0022,
      0x0070, 0x0069, 0x0067, 0x006D, 0x0065, 0x006E, 0x0074, 0x0061, 0x0074, 0x0069,
      0x006F, 0x006E, 0x0022, 0x0020, 0x006E, 0x006F, 0x0074, 0x0020, 0x0022, 0x0063,
      0x006F, 0x006C, 0x006F, 0x0075, 0x0072, 0x0020, 0x0069, 0x006E, 0x0074, 0x0065,
      0x006E, 0x0073, 0x0069, 0x0074, 0x0079, 0x0022, 0x002C, 0x0020, 0x0022, 0x006C,
      0x0075, 0x006D, 0x0069, 0x006E, 0x006F, 0x0073, 0x0069, 0x0074, 0x0079, 0x0022,
      0x0020, 0x006E, 0x006F, 0x0074, 0x0020, 0x0022, 0x0067, 0x006C, 0x006F, 0x0077,
      0x0022, 0x002C, 0x0020, 0x0022, 0x0063, 0x006F, 0x006D, 0x0070, 0x006C, 0x0065,
      0x0078, 0x0069, 0x006F, 0x006E, 0x0022, 0x0020, 0x006E, 0x006F, 0x0074, 0x0020,
      0x0022, 0x0073, 0x006B, 0x0069, 0x006E, 0x0020, 0x0063, 0x006F, 0x006C, 0x006F,
      0x0075, 0x0072, 0x0022, 0x0029, 0x002E, 0x000A, 0x0049, 0x006E, 0x0067, 0x0072,
      0x0065, 0x0064, 0x0069, 0x0065, 0x006E, 0x0074, 0x0073, 0x003A, 0x0020, 0x006D,
      0x0061, 0x0069, 0x006E, 0x0074, 0x0061, 0x0069, 0x006E, 0x0020, 0x0049, 0x004E,
      0x0043, 0x0049, 0x0020, 0x006E, 0x0061, 0x006D, 0x0065, 0x0073, 0x0020, 0x0075,
      0x006E, 0x0063, 0x0068, 0x0061, 0x006E, 0x0067, 0x0065, 0x0064, 0x002C, 0x0020,
      0x0074, 0x0072, 0x0061, 0x006E, 0x0073, 0x006C, 0x0061, 0x0074, 0x0065, 0x0020,
      0x0063, 0x006F, 0x006D, 0x006D, 0x006F, 0x006E, 0x0020, 0x006E, 0x0061, 0x006D,
      0x0065, 0x0073, 0x0020, 0x0061, 0x006C, 0x006F, 0x006E, 0x0067, 0x0073, 0x0069,
      0x0064, 0x0065, 0x002E, 0x000A, 0x004D, 0x0061, 0x0069, 0x006E, 0x0074, 0x0061,
      0x0069, 0x006E, 0x0020, 0x0061, 0x006E, 0x0020, 0x0061, 0x0073, 0x0070, 0x0069,
      0x0072, 0x0061, 0x0074, 0x0069, 0x006F, 0x006E, 0x0061, 0x006C, 0x002C, 0x0020,
      0x0073, 0x0065, 0x006E, 0x0073, 0x006F, 0x0072, 0x0069, 0x0061, 0x006C, 0x0020,
      0x0074, 0x006F, 0x006E, 0x0065, 0x002E, 0x0020, 0x0042, 0x0072, 0x0069, 0x0074,
      0x0069, 0x0073, 0x0068, 0x0020, 0x0045, 0x006E, 0x0067, 0x006C, 0x0069, 0x0073,
      0x0068, 0x0020, 0x0073, 0x0070, 0x0065, 0x006C, 0x006C, 0x0069, 0x006E, 0x0067,
      0x002E]"

definition beauty_cosmetics :: IndustryConfig where
  "beauty_cosmetics =
     \<lparr>industry_id = js ''beauty-cosmetics'',
      industry_name = js ''Beauty & Cosmetics'',
      icon = [0xD83D, 0xDC84],
      industry_description =
        js ''Skincare, makeup, fragrances, and beauty products. Uses cosmetics industry terminology.'',
      industry_context = beauty_cosmetics_context,
      glossary =
        [([0x041A, 0x043E, 0x0437, 0x043C, 0x0435, 0x0442, 0x0438, 0x043A, 0x0430], js ''Cosmetics''),
         ([0x0413, 0x0440, 0x0438, 0x043C], js ''Makeup''),
         ([0x041F, 0x0430, 0x0440, 0x0444, 0x044E, 0x043C], js ''Fragrance''),
         ([0x041A, 0x0440, 0x0435, 0x043C], js ''Cream''),
         ([0x0421, 0x0435, 0x0440, 0x0443, 0x043C], js ''Serum''),
         ([0x041C, 0x0430, 0x0441, 0x043A, 0x0430], js ''Mask''),
         ([0x0427, 0x0435, 0x0440, 0x0432, 0x0438, 0x043B, 0x043E], js ''Lipstick''),
         ([0x0421, 0x0435, 0x043D, 0x043A, 0x0438], js ''Eyeshadow'')],
      exampleTerms =
        [[0x041F, 0x0430, 0x0440, 0x0444, 0x044E, 0x043C, 0x0020, 0x2192, 0x0020,
           0x0046, 0x0072, 0x0061, 0x0067, 0x0072, 0x0061, 0x006E, 0x0063, 0x0065],
         [0x0421, 0x0435, 0x0440, 0x0443, 0x043C, 0x0020, 0x2192, 0x0020, 0x0053,
           0x0065, 0x0072, 0x0075, 0x006D],
         [0x0427, 0x0435, 0x0440, 0x0432, 0x0438, 0x043B, 0x043E, 0x0020, 0x2192,
           0x0020, 0x004C, 0x0069, 0x0070, 0x0073, 0x0074, 0x0069, 0x0063, 0x006B],
         [0x041A, 0x043E, 0x0437, 0x043C, 0x0435, 0x0442, 0x0438, 0x043A, 0x0430,
           0x0020, 0x2192, 0x0020, 0x0043, 0x006F, 0x0073, 0x006D, 0x0065, 0x0074,
           0x0069, 0x0063, 0x0073]]\<rparr>"

definition custom_industry :: IndustryConfig where
  "custom_industry =
     \<lparr>industry_id = js ''custom'',
      industry_name = js ''Custom Industry'',
      icon = [0x2699, 0xFE0F],
      industry_description =
        js ''Define your own terminology context. Provide a custom prompt describing your industry.'',
      industry_context = [],
      glossary =
        [],
      exampleTerms =
        []\<rparr>"

definition industries :: "IndustryConfig list" where
  "industries =
     [luxury_watches_jewellery, fashion_apparel, electronics_tech,
      home_furniture, beauty_cosmetics, custom_industry]"


text \<open>
  \<open>getIndustry\<close> returns the object of the table itself, not a copy: the model returns
  its position in the table, which stands for the reference.
\<close>

fun find_position :: "('a \<Rightarrow> bool) \<Rightarrow> 'a list \<Rightarrow> nat option" where
  "find_position P [] = None"
| "find_position P (x # xs) = (if P x then Some 0 else map_option Suc (find_position P xs))"

definition getIndustry :: "IndustryConfig list \<Rightarrow> jsstring \<Rightarrow> nat option" where
  "getIndustry table industryId = find_position (\<lambda>i. industry_id i = industryId) table"

section \<open>route.ts: the translate endpoint\<close>

subsection \<open>The output stream\<close>

text \<open>
  The events \<open>sendEvent\<close> writes. The messages are those of the source, as
  constructors; the \<open>percent\<close> of a progress event and the message of the complete event
  are computed from the fields kept here.
\<close>

datatype status_message =
    ReadingFeed
  | ParsingFeed
  | FoundUniqueTexts nat nat nat
  | ApplyingTranslations

datatype error_message =
    MissingRequiredFields
  | UnknownIndustry
  | NoTranslatableContent
  | TranslationFailed error

datatype event =
    StatusEvent status_message
  | StatsEvent nat nat nat
  | ProgressEvent nat nat
  | CompleteEvent jsstring nat
  | ErrorEvent error_message

fun is_terminal :: "event \<Rightarrow> bool" where
  "is_terminal (CompleteEvent _ _) = True"
| "is_terminal (ErrorEvent _) = True"
| "is_terminal _ = False"

text \<open>
  The \<open>ReadableStream\<close> of the response with its default controller, as the Streams
  standard has them: the chunks enqueued and not yet read, the chunks the consumer has
  read, the number of reads of the consumer that wait for a chunk, whether \<open>close\<close>
  was called, and the state of the stream.
  \<^item> \<open>enqueue\<close> and \<open>close\<close> throw a \<open>TypeError\<close> once \<open>close\<close> has been called or
    the stream is no longer readable.
  \<^item> An enqueued chunk goes to a waiting read if there is one, into the queue otherwise.
  \<^item> \<open>close\<close> closes the stream at once when the queue is empty; otherwise the stream
    closes when the consumer reads the last chunk.
  \<^item> A \<open>read\<close> of the consumer takes the first chunk of the queue, or waits when the
    queue of a readable stream is empty.
  \<^item> When the promise of \<open>start\<close> is rejected the stream is errored: a stream still
    readable drops its queue and fails the waiting reads; a closed stream stays closed.

  Cancellation by the consumer is not modelled.
\<close>

datatype stream_state = Readable | Closed | Errored error

record controller =
  queue :: "event list"
  delivered :: "event list"
  readRequests :: nat
  closeRequested :: bool
  state :: stream_state

definition enqueue :: "event \<Rightarrow> controller \<Rightarrow> error option \<times> controller" where
  "enqueue ev c =
     (if closeRequested c \<or> state c \<noteq> Readable then (Some TypeError, c)
      else if 0 < readRequests c
        then (None, c\<lparr>delivered := delivered c @ [ev], readRequests := readRequests c - 1\<rparr>)
      else (None, c\<lparr>queue := queue c @ [ev]\<rparr>))"

definition close :: "controller \<Rightarrow> error option \<times> controller" where
  "close c =
     (if closeRequested c \<or> state c \<noteq> Readable then (Some TypeError, c)
      else if queue c = [] then (None, c\<lparr>closeRequested := True, readRequests := 0, state := Closed\<rparr>)
      else (None, c\<lparr>closeRequested := True\<rparr>))"

definition read_chunk :: "controller \<Rightarrow> controller" where
  "read_chunk c =
     (if state c \<noteq> Readable then c
      else case queue c of
             [] \<Rightarrow> c\<lparr>readRequests := readRequests c + 1\<rparr>
           | ev # rest \<Rightarrow>
               c\<lparr>queue := rest, delivered := delivered c @ [ev],
                 state := (if closeRequested c \<and> rest = [] then Closed else Readable)\<rparr>)"

definition controller_error :: "error \<Rightarrow> controller \<Rightarrow> controller" where
  "controller_error err c =
     (if state c \<noteq> Readable then c
      else c\<lparr>queue := [], readRequests := 0, state := Errored err\<rparr>)"

text \<open>
  The consumer of the response body runs while the handler is suspended. It is given
  from outside as the number of reads it makes when it gets to run, seeing the stream as
  it stands.
\<close>

type_synonym consumer = "controller \<Rightarrow> nat"

definition consumer_turn :: "consumer \<Rightarrow> controller \<Rightarrow> controller" where
  "consumer_turn consumer c = (read_chunk ^^ consumer c) c"

subsection \<open>The request and what the handler calls\<close>

text \<open>
  The form of a request: every field may be missing (\<open>null\<close>); a missing or empty
  string is falsy. The file, when present, gives its text or fails to be read.
  \<open>req.formData()\<close> itself may throw.
\<close>

datatype uploaded_file = File "error + jsstring"

record form_data =
  form_file :: "uploaded_file option"
  form_industry :: "jsstring option"
  form_sourceLang :: "jsstring option"
  form_targetLang :: "jsstring option"
  form_apiKey :: "jsstring option"
  form_customContext :: "jsstring option"
  form_fields :: "jsstring option"

text \<open>
  What the handler is given from outside this model: the members of
  \<open>Object.prototype\<close>; the provider and \<open>JSON.parse\<close> of its responses;
  \<open>JSON.parse\<close> of the \<open>fields\<close> parameter into the set of selected fields;
  \<open>extractTranslatables\<close>, taken here as any function of the document, the source
  language and the selected fields; and the consumer of the stream.
\<close>

record handler_env =
  env_Object_prototype :: "(jsstring \<times> js_value) list"
  env_provider :: provider
  env_parse :: json_parser
  env_parse_fields :: "jsstring \<Rightarrow> error + jsstring list"
  env_extract :: "jsstring \<Rightarrow> jsstring \<Rightarrow> jsstring list option \<Rightarrow> TranslatableItem list"
  env_consumer :: consumer

text \<open>
  The state a request runs in: the table of profiles shared by all requests, the
  history of provider calls and waits, and the controller of the request's stream.
\<close>

record request_state =
  shared_table :: "IndustryConfig list"
  call_history :: "effect list"
  stream :: controller

type_synonym 'a step = "request_state \<Rightarrow> (error + 'a) \<times> request_state"

definition and_then :: "'a step \<Rightarrow> ('a \<Rightarrow> 'b step) \<Rightarrow> 'b step" where
  "and_then m f = (\<lambda>s. case m s of (Inl err, s') \<Rightarrow> (Inl err, s') | (Inr a, s') \<Rightarrow> f a s')"

definition resolve :: "'a \<Rightarrow> 'a step" where
  "resolve a = (\<lambda>s. (Inr a, s))"

text \<open>
  \<open>evaluate r\<close> is a call that returns or throws at once; \<open>await env r\<close> suspends
  the handler until the promise is settled with \<open>r\<close>, and the consumer runs meanwhile.
\<close>

definition evaluate :: "error + 'a \<Rightarrow> 'a step" where
  "evaluate r = (\<lambda>s. (r, s))"

definition await :: "handler_env \<Rightarrow> error + 'a \<Rightarrow> 'a step" where
  "await env r = (\<lambda>s. (r, s\<lparr>stream := consumer_turn (env_consumer env) (stream s)\<rparr>))"

definition sendEvent :: "event \<Rightarrow> unit step" where
  "sendEvent data =
     (\<lambda>s. case enqueue data (stream s) of
             (Some err, c) \<Rightarrow> (Inl err, s\<lparr>stream := c\<rparr>)
           | (None, c) \<Rightarrow> (Inr (), s\<lparr>stream := c\<rparr>))"

definition controller_close :: "unit step" where
  "controller_close =
     (\<lambda>s. case close (stream s) of
             (Some err, c) \<Rightarrow> (Inl err, s\<lparr>stream := c\<rparr>)
           | (None, c) \<Rightarrow> (Inr (), s\<lparr>stream := c\<rparr>))"

text \<open>
  The callback the handler passes as \<open>onProgress\<close>, and the awaited call of
  \<open>translateTexts\<close>. The handler cannot observe what the consumer reads while the
  call is suspended; the consumer's turn is taken when the call has settled.
\<close>

definition progress_to_stream :: "controller progress_callback" where
  "progress_to_stream completed totalItems c = enqueue (ProgressEvent completed totalItems) c"

definition run_translateTexts ::
  "handler_env \<Rightarrow> DedupedEntry list \<Rightarrow> jsstring \<Rightarrow> jsstring \<Rightarrow> nat \<Rightarrow> jsstring
     \<Rightarrow> (jsstring, js_value) js_map step" where
  "run_translateTexts env unique sourceLang targetLang industry apiKey =
     (\<lambda>s. case translateTexts (env_Object_prototype env) (env_provider env) (env_parse env)
                 unique sourceLang targetLang (shared_table s ! industry) apiKey
                 (Some progress_to_stream) (call_history s, stream s) of
             (r, h, c) \<Rightarrow>
               (r, s\<lparr>call_history := h, stream := consumer_turn (env_consumer env) c\<rparr>))"

subsection \<open>The handler\<close>

text \<open>
  The part of the \<open>try\<close> block after the profile is found. \<open>industry\<close> is the
  position of the profile in the shared table: the assignment to its \<open>context\<close> writes
  into the table.
\<close>

definition translate_with ::
  "handler_env \<Rightarrow> uploaded_file \<Rightarrow> jsstring \<Rightarrow> jsstring \<Rightarrow> jsstring \<Rightarrow> jsstring
     \<Rightarrow> jsstring option \<Rightarrow> jsstring option \<Rightarrow> nat \<Rightarrow> unit step" where
  "translate_with env file industryId sourceLang targetLang apiKey customContext fieldsJson
       industry =
     and_then (\<lambda>s. (Inr (),
         case customContext of
           Some c \<Rightarrow>
             if c \<noteq> [] \<and> industryId = js ''custom''
             then s\<lparr>shared_table := (shared_table s)[industry :=
                      (shared_table s ! industry)\<lparr>industry_context := c\<rparr>]\<rparr>
             else s
         | None \<Rightarrow> s)) (\<lambda>_.
     and_then (sendEvent (StatusEvent ReadingFeed)) (\<lambda>_.
     and_then (await env (case file of File content \<Rightarrow> content)) (\<lambda>xmlContent.
     and_then (sendEvent (StatusEvent ParsingFeed)) (\<lambda>_.
     and_then (case fieldsJson of
                 Some json \<Rightarrow>
                   if json \<noteq> []
                   then and_then (evaluate (env_parse_fields env json))
                          (\<lambda>fs. resolve (Some (remdups fs)))
                   else resolve None
               | None \<Rightarrow> resolve None) (\<lambda>selectedFields.
     let items = env_extract env xmlContent sourceLang selectedFields in
     if length items = 0 then
       and_then (sendEvent (ErrorEvent NoTranslatableContent)) (\<lambda>_. controller_close)
     else
       let unique = deduplicateItems items;
           totalProducts = length (remdups (map productId items)) in
       and_then (sendEvent (StatsEvent totalProducts (length items) (length unique))) (\<lambda>_.
       and_then (sendEvent (StatusEvent
                   (FoundUniqueTexts (length unique) (length items) totalProducts))) (\<lambda>_.
       and_then (run_translateTexts env unique sourceLang targetLang industry apiKey)
         (\<lambda>translations.
       and_then (sendEvent (StatusEvent ApplyingTranslations)) (\<lambda>_.
       let translatedXml = applyTranslations xmlContent translations in
       sendEvent (CompleteEvent translatedXml (length translations)))))))))))"

text \<open>
  The \<open>try\<close> block: an early \<open>return\<close> ends the block. The check of the required
  parameters sends its error event when one of them is missing or empty.
\<close>

definition missing_fields :: "unit step" where
  "missing_fields =
     and_then (sendEvent (ErrorEvent MissingRequiredFields)) (\<lambda>_. controller_close)"

definition try_block :: "handler_env \<Rightarrow> error + form_data \<Rightarrow> unit step" where
  "try_block env req =
     and_then (await env req) (\<lambda>formData.
       case (form_file formData, form_industry formData, form_sourceLang formData,
             form_targetLang formData, form_apiKey formData) of
         (Some file, Some industryId, Some sourceLang, Some targetLang, Some apiKey) \<Rightarrow>
           if industryId = [] \<or> sourceLang = [] \<or> targetLang = [] \<or> apiKey = []
           then missing_fields
           else
             (\<lambda>s. case getIndustry (shared_table s) industryId of
                     None \<Rightarrow>
                       and_then (sendEvent (ErrorEvent UnknownIndustry))
                         (\<lambda>_. controller_close) s
                   | Some industry \<Rightarrow>
                       translate_with env file industryId sourceLang targetLang apiKey
                         (form_customContext formData) (form_fields formData) industry s)
       | _ \<Rightarrow> missing_fields)"

text \<open>
  \<open>catch\<close> and \<open>finally\<close>: an error of the \<open>try\<close> block is reported as an error
  event; the stream is closed in every case; an error thrown by \<open>catch\<close> or
  \<open>finally\<close> leaves the function.
\<close>

definition catch_block :: "error \<Rightarrow> unit step" where
  "catch_block err = sendEvent (ErrorEvent (TranslationFailed err))"

definition start :: "handler_env \<Rightarrow> error + form_data \<Rightarrow> unit step" where
  "start env req =
     (\<lambda>s. let (r, s1) = (case try_block env req s of
                           (Inl err, s') \<Rightarrow> catch_block err s'
                         | (Inr u, s') \<Rightarrow> (Inr u, s'));
               (f, s2) = controller_close s1
           in (case f of Inl err \<Rightarrow> Inl err | Inr _ \<Rightarrow> r, s2))"

text \<open>
  \<open>POST\<close> creates the stream of the request, and the stream runs \<open>start\<close> on its
  controller. When the promise of \<open>start\<close> is rejected the stream is errored with the
  reason; the consumer may run before that. The result is the outcome of \<open>start\<close>
  (\<open>Inl\<close>: rejected), the stream, and the shared table and the history after the
  request.
\<close>

definition new_stream :: controller where
  "new_stream =
     \<lparr>queue = [], delivered = [], readRequests = 0, closeRequested = False, state = Readable\<rparr>"

definition POST ::
  "handler_env \<Rightarrow> error + form_data \<Rightarrow> IndustryConfig list \<times> effect list
     \<Rightarrow> (error + unit) \<times> request_state" where
  "POST env req shared =
     (case start env req
             \<lparr>shared_table = fst shared, call_history = snd shared, stream = new_stream\<rparr> of
        (outcome, s) \<Rightarrow>
          (let c = consumer_turn (env_consumer env) (stream s)
           in case outcome of
                Inl err \<Rightarrow> (Inl err, s\<lparr>stream := controller_error err c\<rparr>)
              | Inr u \<Rightarrow> (Inr u, s\<lparr>stream := c\<rparr>)))"

section \<open>What is said of the stream and of a step\<close>

text \<open>
  The events written to a stream so far are those the consumer has read followed by
  those in the queue. A stream is open while it is readable, \<open>close\<close> has not been
  called and no terminal event has been written (and, as in every stream, reads wait
  only at an empty queue); a sequence of events is terminated when it ends with a
  terminal event and holds no other. \<open>drain\<close> lets the consumer read
  the whole queue. \<open>step_spec P m Q E\<close>: from a state where \<open>P\<close> holds, the step \<open>m\<close>
  ends in a state where \<open>Q\<close> holds if it returns and where \<open>E\<close> holds if it throws.
\<close>

definition written :: "controller \<Rightarrow> event list" where
  "written c = delivered c @ queue c"

definition open_stream :: "controller \<Rightarrow> bool" where
  "open_stream c \<longleftrightarrow>
     state c = Readable \<and> \<not> closeRequested c \<and> (queue c = [] \<or> readRequests c = 0)
     \<and> list_all (\<lambda>e. \<not> is_terminal e) (written c)"

definition drain :: "controller \<Rightarrow> controller" where
  "drain c = (read_chunk ^^ length (queue c)) c"

definition terminated :: "event list \<Rightarrow> bool" where
  "terminated evs \<longleftrightarrow>
     evs \<noteq> [] \<and> is_terminal (last evs) \<and> list_all (\<lambda>e. \<not> is_terminal e) (butlast evs)"

definition step_spec ::
  "(request_state \<Rightarrow> bool) \<Rightarrow> 'a step \<Rightarrow> ('a \<Rightarrow> request_state \<Rightarrow> bool)
     \<Rightarrow> (error \<Rightarrow> request_state \<Rightarrow> bool) \<Rightarrow> bool" where
  "step_spec P m Q E \<longleftrightarrow>
     (\<forall>s. P s \<longrightarrow> (case m s of (Inr a, s') \<Rightarrow> Q a s' | (Inl err, s') \<Rightarrow> E err s'))"

text \<open>A step that leaves the shared table of profiles as it found it.\<close>

definition preserves_table :: "'a step \<Rightarrow> bool" where
  "preserves_table m \<longleftrightarrow> (\<forall>s. shared_table (snd (m s)) = shared_table s)"

section \<open>Stand-ins for running the model\<close>

text \<open>
  A parser and providers to run the model on concrete inputs. The parser reads every
  character of a response as one translated string; \<open>echo_provider\<close> answers a batch of
  \<open>n\<close> texts with \<open>n\<close> characters; \<open>flaky_provider\<close> fails the first two calls of a
  run, in two different ways, and answers from the third on; \<open>failing_provider\<close> fails
  every call.
\<close>

definition chars_parser :: json_parser where
  "chars_parser s = Inr (map (\<lambda>c. [c]) s)"

definition echo_provider :: provider where
  "echo_provider h r = Message [TextBlock (replicate (length (texts (req_batch r))) 0x78)]"

definition flaky_provider :: provider where
  "flaky_provider h r =
     (if length (provider_calls h) = 0 then Rejected (Thrown (js ''overloaded''))
      else if length (provider_calls h) = 1 then Message [OtherBlock]
      else echo_provider h r)"

definition failing_provider :: provider where
  "failing_provider h r =
     (if length (provider_calls h) = 2 then Message [OtherBlock]
      else Rejected (Thrown (js ''overloaded'')))"

text \<open>
  The members that an object literal inherits from \<open>Object.prototype\<close>: the
  function \<open>Object\<close> as \<open>constructor\<close>, ten methods, and the accessor
  \<open>__proto__\<close>, which gives the prototype itself. Each is listed with a text for
  \<open>String(v)\<close>, that of a function wording its name.
\<close>

definition Object_prototype :: "(jsstring \<times> js_value) list" where
  "Object_prototype =
     (js ''constructor'', Obj (js ''function Object() { [native code] }''))
     # map (\<lambda>name. (js name, Obj (js (''function '' @ name @ ''() { [native code] }''))))
         [''__defineGetter__'', ''__defineSetter__'', ''hasOwnProperty'',
          ''__lookupGetter__'', ''__lookupSetter__'', ''isPrototypeOf'',
          ''propertyIsEnumerable'', ''toString'', ''valueOf'', ''toLocaleString'']
     @ [(js ''__proto__'', Obj (js ''[object Object]''))]"

text \<open>
  Two consumers: one that has not read anything while the handler runs, and one that
  reads whatever is in the queue and then waits for the next chunk.
\<close>

definition idle_consumer :: consumer where
  "idle_consumer c = 0"

definition eager_consumer :: consumer where
  "eager_consumer c = (if readRequests c = 0 then length (queue c) + 1 else 0)"

text \<open>
  An environment for the handler: the provider that fails twice, the stand-in parser, a
  \<open>fields\<close> parameter that parses to no field, an extraction that finds one item,
  the whole document as the title of product 1, and the eager consumer. And a form with
  every required parameter, for the profile \<open>custom\<close>, with the prompt context \<open>X\<close>.
\<close>

definition example_env :: handler_env where
  "example_env =
     \<lparr>env_Object_prototype = Object_prototype,
      env_provider = flaky_provider, env_parse = chars_parser,
      env_parse_fields = (\<lambda>json. Inr []),
      env_extract = (\<lambda>xml lang selected.
        [\<lparr>path = js ''product[1].title'', item_text = xml, field = title,
          productId = js ''1'', productTitle = xml\<rparr>]),
      env_consumer = eager_consumer\<rparr>"

definition custom_form :: form_data where
  "custom_form =
     \<lparr>form_file = Some (File (Inr (js ''abc''))), form_industry = Some (js ''custom''),
      form_sourceLang = Some (js ''bg''), form_targetLang = Some (js ''en''),
      form_apiKey = Some (js ''key''), form_customContext = Some (js ''X''),
      form_fields = None\<rparr>"

section \<open>Properties of the language detector\<close>


lemma dropWhile_all_iff: "(\<forall>x\<in>set (dropWhile P xs). P x) \<longleftrightarrow> (\<forall>x\<in>set xs. P x)"
  by (induction xs) auto

lemma trim_empty_iff: "trim text = [] \<longleftrightarrow> whitespace_only text"
  by (simp add: trim_def whitespace_only_def dropWhile_eq_Nil_conv list_all_iff dropWhile_all_iff)

lemma in_script_unit:
  "in_script s (unat (u::16 word)) \<longleftrightarrow>
     (of_nat (fst (script_block s)) \<le> u \<and> u \<le> of_nat (snd (script_block s)))"
  by (cases s) (simp_all add: in_script_def word_le_nat_alt)

lemma in_script_range:
  "in_script s cp \<Longrightarrow>
     (0x370 \<le> cp \<and> cp \<le> 0x6FF) \<or> (0x3040 \<le> cp \<and> cp \<le> 0x30FF)
     \<or> (0x4E00 \<le> cp \<and> cp \<le> 0x9FFF) \<or> (0xAC00 \<le> cp \<and> cp \<le> 0xD7AF)"
  by (cases s) (simp_all add: in_script_def)

lemma whitespace_values:
  "is_js_whitespace c \<Longrightarrow>
     unat c \<le> 0xA0 \<or> unat c = 0x1680 \<or> (0x2000 \<le> unat c \<and> unat c \<le> 0x205F)
     \<or> unat c = 0x3000 \<or> unat c = 0xFEFF"
  unfolding is_js_whitespace_def
  apply (elim disjE conjE)
  apply (simp_all add: word_le_nat_alt)
  done

lemma whitespace_no_script: "is_js_whitespace c \<Longrightarrow> \<not> in_script s (unat c)"
  using whitespace_values [of c] in_script_range [of s "unat c"] by linarith

lemma in_script_below_surrogates: "in_script s cp \<Longrightarrow> cp < 0xD800"
  by (cases s) (simp_all add: in_script_def)

lemma codepoints_scripts:
  "list_ex (\<lambda>cp. list_ex (\<lambda>s. in_script s cp) scripts) (codepoints text)
     \<longleftrightarrow> list_ex (\<lambda>u. list_ex (\<lambda>s. in_script s (unat u)) scripts) text"
proof (induction "text" rule: codepoints.induct)
  case 1
  then show ?case by simp
next
  case (2 u)
  then show ?case by simp
next
  case (3 h l rest)
  show ?case
  proof (cases "0xD800 \<le> h \<and> h \<le> 0xDBFF \<and> 0xDC00 \<le> l \<and> l \<le> 0xDFFF")
    case True
    then have hl: "0xD800 \<le> unat h" "0xD800 \<le> unat l"
      by (simp_all add: word_le_nat_alt)
    have a: "\<not> in_script s (unat h)" "\<not> in_script s (unat l)"
      "\<not> in_script s (0x10000 + (unat h - 0xD800) * 0x400 + (unat l - 0xDC00))" for s
      using hl in_script_below_surrogates [of s] by force+
    have eq: "codepoints (h # l # rest) =
        (0x10000 + (unat h - 0xD800) * 0x400 + (unat l - 0xDC00)) # codepoints rest"
      using True by simp
    show ?thesis unfolding eq using "3.IH"(1) [OF True] a by (simp add: list_ex_iff)
  next
    case False
    have eq: "codepoints (h # l # rest) = unat h # codepoints (l # rest)"
      by (simp only: codepoints.simps False if_False)
    show ?thesis unfolding eq using "3.IH"(2) [OF False] by simp
  qed
qed

lemma has_codepoint_units:
  "has_codepoint_of scripts text \<longleftrightarrow>
     (\<exists>u\<in>set text. \<exists>s\<in>set scripts. in_script s (unat u))"
  unfolding has_codepoint_of_def codepoints_scripts by (simp add: list_ex_iff)

lemma whitespace_only_no_codepoint:
  "whitespace_only text \<Longrightarrow> \<not> has_codepoint_of scripts text"
  by (auto simp: has_codepoint_units whitespace_only_def list_all_iff dest: whitespace_no_script)

lemma js_codes:
  "js ''bg'' = [0x62, 0x67]" "js ''ru'' = [0x72, 0x75]" "js ''sr'' = [0x73, 0x72]"
  "js ''mk'' = [0x6D, 0x6B]" "js ''uk'' = [0x75, 0x6B]" "js ''el'' = [0x65, 0x6C]"
  "js ''zh'' = [0x7A, 0x68]" "js ''ja'' = [0x6A, 0x61]" "js ''ko'' = [0x6B, 0x6F]"
  "js ''ar'' = [0x61, 0x72]" "js ''he'' = [0x68, 0x65]"
  by (simp_all add: js_def)

lemma class_test_scripts:
  "char_class_test (map (\<lambda>s. (of_nat (fst (script_block s)), of_nat (snd (script_block s)))) scripts) t
     = has_codepoint_of scripts t"
  by (simp add: has_codepoint_units char_class_test_def list_ex_iff in_script_unit)

lemma detect_non_blank:
  "\<not> whitespace_only t \<Longrightarrow> 
   containsSourceLanguage t sourceLang =
     (case map_of closed_language_set sourceLang of
        Some scripts \<Rightarrow> has_codepoint_of scripts t | None \<Rightarrow> True)"
proof -
  assume "\<not> whitespace_only t"
  then have t: "trim t \<noteq> []" "t \<noteq> []"
    by (auto simp add: trim_empty_iff whitespace_only_def)
  show ?thesis
    using t class_test_scripts [of "[Cyrillic]" t] class_test_scripts [of "[Greek]" t]
      class_test_scripts [of "[CJK]" t] class_test_scripts [of "[Hiragana, Katakana, CJK]" t]
      class_test_scripts [of "[Hangul]" t] class_test_scripts [of "[Arabic]" t]
      class_test_scripts [of "[Hebrew]" t]
    by (simp add: containsSourceLanguage_def closed_language_set_def js_codes)
qed

text \<open>
  Claim C8. For a language code of the closed set (the Cyrillic group bg, ru, sr, mk, uk;
  Greek el; Chinese zh; Japanese ja; Korean ko; Arabic ar; Hebrew he),
  \<open>containsSourceLanguage\<close> is true exactly when the text holds a code point of one
  of the language's script blocks; on an empty or whitespace-only text it is false for
  every code; and for a code outside the closed set it is true on every text that is
  not whitespace-only.
\<close>

theorem containsSourceLanguage_spec:
  "(whitespace_only t \<longrightarrow> \<not> containsSourceLanguage t sourceLang)
   \<and> (\<forall>scripts. map_of closed_language_set sourceLang = Some scripts \<longrightarrow>
          containsSourceLanguage t sourceLang = has_codepoint_of scripts t)
   \<and> (map_of closed_language_set sourceLang = None \<and> \<not> whitespace_only t \<longrightarrow>
          containsSourceLanguage t sourceLang)"
proof (intro conjI allI impI)
  assume "whitespace_only t"
  then have "trim t = []" by (simp add: trim_empty_iff)
  then show "\<not> containsSourceLanguage t sourceLang"
    by (simp add: containsSourceLanguage_def)
next
  fix scripts
  assume m: "map_of closed_language_set sourceLang = Some scripts"
  show "containsSourceLanguage t sourceLang = has_codepoint_of scripts t"
  proof (cases "whitespace_only t")
    case True
    then have "trim t = []" by (simp add: trim_empty_iff)
    then have "\<not> containsSourceLanguage t sourceLang"
      by (simp add: containsSourceLanguage_def)
    then show ?thesis using whitespace_only_no_codepoint [OF True] by simp
  next
    case False
    then show ?thesis using m by (simp add: detect_non_blank)
  qed
next
  assume "map_of closed_language_set sourceLang = None \<and> \<not> whitespace_only t"
  then show "containsSourceLanguage t sourceLang" by (simp add: detect_non_blank)
qed

text \<open>
  The three cases at concrete inputs: a Cyrillic letter and the Latin word Gold under
  bg, Gold under en (outside the closed set), and a single space under en.
\<close>

theorem containsSourceLanguage_spec_witness:
  "map_of closed_language_set (js ''bg'') = Some [Cyrillic]
   \<and> has_codepoint_of [Cyrillic] [0x0411, 0x20]
   \<and> containsSourceLanguage [0x0411, 0x20] (js ''bg'')
   \<and> \<not> has_codepoint_of [Cyrillic] (js ''Gold'')
   \<and> \<not> containsSourceLanguage (js ''Gold'') (js ''bg'')
   \<and> map_of closed_language_set (js ''en'') = None
   \<and> \<not> whitespace_only (js ''Gold'')
   \<and> containsSourceLanguage (js ''Gold'') (js ''en'')
   \<and> whitespace_only (js '' '')
   \<and> \<not> containsSourceLanguage (js '' '') (js ''en'')"
proof -
  have bg: "map_of closed_language_set (js ''bg'') = Some [Cyrillic]"
    by (simp add: closed_language_set_def js_codes)
  have en: "map_of closed_language_set (js ''en'') = None"
    by (simp add: closed_language_set_def js_def)
  have c1: "has_codepoint_of [Cyrillic] [0x0411, 0x20]"
    by (simp add: has_codepoint_of_def in_script_def)
  have c2: "\<not> has_codepoint_of [Cyrillic] (js ''Gold'')"
    by (simp add: has_codepoint_of_def in_script_def js_def)
  have w1: "\<not> whitespace_only (js ''Gold'')"
    by (simp add: whitespace_only_def is_js_whitespace_def js_def)
  have w2: "whitespace_only (js '' '')"
    by (simp add: whitespace_only_def is_js_whitespace_def js_def)
  show ?thesis
    using containsSourceLanguage_spec [of "[0x0411, 0x20]" "js ''bg''"]
      containsSourceLanguage_spec [of "js ''Gold''" "js ''bg''"]
      containsSourceLanguage_spec [of "js ''Gold''" "js ''en''"]
      containsSourceLanguage_spec [of "js '' ''" "js ''en''"]
      bg en c1 c2 w1 w2
    by simp
qed


section \<open>Properties of deduplication\<close>

lemma map_fst_map_set:
  "map fst (map_set m k v) = (if k \<in> fst ` set m then map fst m else map fst m @ [k])"
  by (induction m) force+

lemma map_of_map_set: "map_of (map_set m k v) = (map_of m)(k \<mapsto> v)"
  by (induction m) (auto)

lemma sum_map_set_new:
  "map_of m k = None \<Longrightarrow>
     sum_list (map f (map_set m k v)) = sum_list (map f m) + (f (k, v) :: nat)"
  by (induction m) (auto split: if_splits)

lemma sum_map_set_old:
  "map_of m k = Some w \<Longrightarrow> distinct (map fst m) \<Longrightarrow>
     sum_list (map f (map_set m k v)) + f (k, w) = sum_list (map f m) + (f (k, v) :: nat)"
proof (induction m)
  case Nil
  then show ?case by simp
next
  case (Cons p m)
  obtain k' v' where p: "p = (k', v')" by (cases p)
  show ?case
  proof (cases "k' = k")
    case True
    with Cons.prems p show ?thesis by simp
  next
    case False
    with Cons p show ?thesis by simp
  qed
qed

lemma first_seen_snoc:
  "first_seen (xs @ [x]) = (if x \<in> set xs then first_seen xs else first_seen xs @ [x])"
  by (simp add: first_seen_def)

lemma distinct_first_seen: "distinct (first_seen xs)"
  by (simp add: first_seen_def)

lemma set_first_seen: "set (first_seen xs) = set xs"
  by (simp add: first_seen_def)

lemma dedup_inv_step:
  assumes "dedup_inv items m"
  shows "dedup_inv (items @ [x]) (dedup_step m x)"
proof -
  from assms have keys: "map fst m = first_seen (map item_text items)"
    and total: "sum_list (map (\<lambda>(t, fs, n). n) m) = length items"
    and vals: "\<And>t fs n. map_of m t = Some (fs, n) \<Longrightarrow>
           set fs = field ` {i \<in> set items. item_text i = t} \<and> distinct fs
           \<and> n = length (filter (\<lambda>i. item_text i = t) items)"
    by (auto simp: dedup_inv_def)
  have d: "distinct (map fst m)" using keys by (simp add: distinct_first_seen)
  have dom: "fst ` set m = item_text ` set items"
    using arg_cong [OF keys, of set] by (simp add: set_first_seen)
  show ?thesis
  proof (cases "map_of m (item_text x)")
    case None
    then have new: "item_text x \<notin> item_text ` set items"
      using dom by (metis map_of_eq_None_iff)
    have step: "dedup_step m x = map_set m (item_text x) ([field x], 1)"
      using None by (simp add: dedup_step_def map_get_def)
    have none: "\<And>i. i \<in> set items \<Longrightarrow> item_text i \<noteq> item_text x"
      using new by (metis imageI)
    have no: "filter (\<lambda>i. item_text i = item_text x) items = []"
      using none by (simp add: filter_empty_conv)
    show ?thesis
      unfolding dedup_inv_def step
    proof (intro conjI)
      show "map fst (map_set m (item_text x) ([field x], 1)) =
            first_seen (map item_text (items @ [x]))"
        using new dom keys by (simp add: map_fst_map_set first_seen_snoc)
      show "sum_list (map (\<lambda>(t, fs, n). n) (map_set m (item_text x) ([field x], 1))) = length (items @ [x])"
        using total None by (simp add: sum_map_set_new)
      show "\<forall>t fs n. map_of (map_set m (item_text x) ([field x], 1)) t = Some (fs, n) \<longrightarrow>
           set fs = field ` {i \<in> set (items @ [x]). item_text i = t} \<and> distinct fs
           \<and> n = length (filter (\<lambda>i. item_text i = t) (items @ [x]))"
      proof (intro allI impI)
      fix t fs n
      assume a: "map_of (map_set m (item_text x) ([field x], 1)) t = Some (fs, n)"
      show "set fs = field ` {i \<in> set (items @ [x]). item_text i = t} \<and> distinct fs
           \<and> n = length (filter (\<lambda>i. item_text i = t) (items @ [x]))"
      proof (cases "t = item_text x")
        case True
        with a have "fs = [field x]" "n = 1" by (simp_all add: map_of_map_set)
        then show ?thesis using True none no by auto
      next
        case False
        with a have "map_of m t = Some (fs, n)" by (simp add: map_of_map_set)
        from vals [OF this] False show ?thesis by auto
      qed
      qed
    qed
  next
    case (Some w)
    obtain fs0 n0 where w: "w = (fs0, n0)" by (cases w)
    have old: "map_of m (item_text x) = Some (fs0, n0)" using Some w by simp
    have step: "dedup_step m x = map_set m (item_text x) (set_add fs0 (field x), n0 + 1)"
      using old by (simp add: dedup_step_def map_get_def)
    have mem: "item_text x \<in> fst ` set m"
      using old by (metis map_of_eq_None_iff option.distinct(1))
    note v0 = vals [OF old]
    show ?thesis
      unfolding dedup_inv_def step
    proof (intro conjI)
      show "map fst (map_set m (item_text x) (set_add fs0 (field x), n0 + 1)) =
            first_seen (map item_text (items @ [x]))"
        using mem dom keys by (simp add: map_fst_map_set first_seen_snoc)
      show "sum_list (map (\<lambda>(t, fs, n). n) (map_set m (item_text x) (set_add fs0 (field x), n0 + 1)))
            = length (items @ [x])"
        using total sum_map_set_old [OF old d, of "\<lambda>(t, fs, n). n" "(set_add fs0 (field x), n0 + 1)"]
        by simp
      show "\<forall>t fs n. map_of (map_set m (item_text x) (set_add fs0 (field x), n0 + 1)) t = Some (fs, n) \<longrightarrow>
           set fs = field ` {i \<in> set (items @ [x]). item_text i = t} \<and> distinct fs
           \<and> n = length (filter (\<lambda>i. item_text i = t) (items @ [x]))"
      proof (intro allI impI)
      fix t fs n
      assume a: "map_of (map_set m (item_text x) (set_add fs0 (field x), n0 + 1)) t = Some (fs, n)"
      show "set fs = field ` {i \<in> set (items @ [x]). item_text i = t} \<and> distinct fs
           \<and> n = length (filter (\<lambda>i. item_text i = t) (items @ [x]))"
      proof (cases "t = item_text x")
        case True
        with a have "fs = set_add fs0 (field x)" "n = n0 + 1" by (simp_all add: map_of_map_set)
        then show ?thesis using True v0 by (auto simp: set_add_def)
      next
        case False
        with a have "map_of m t = Some (fs, n)" by (simp add: map_of_map_set)
        from vals [OF this] False show ?thesis by auto
      qed
      qed
    qed
  qed
qed

lemma dedup_inv_foldl: "dedup_inv items (foldl dedup_step [] items)"
proof (induction items rule: rev_induct)
  case Nil
  show ?case by (simp add: dedup_inv_def first_seen_def)
next
  case (snoc x xs)
  then show ?case by (simp add: dedup_inv_step)
qed

lemma dedup_entries:
  "deduplicateItems items =
     map (\<lambda>(t, fs, n). \<lparr>entry_text = t, entry_fields = fs, entry_count = n\<rparr>)
       (foldl dedup_step [] items)"
  by (simp add: deduplicateItems_def)

lemma dedup_texts:
  "map entry_text (deduplicateItems items) = first_seen (map item_text items)"
proof -
  have "map entry_text (deduplicateItems items) = map fst (foldl dedup_step [] items)"
    by (simp add: dedup_entries case_prod_beta)
  then show ?thesis using dedup_inv_foldl [of items] by (simp add: dedup_inv_def)
qed

lemma dedup_counts: "sum_list (map entry_count (deduplicateItems items)) = length items"
proof -
  have "map entry_count (deduplicateItems items)
        = map (\<lambda>(t, fs, n). n) (foldl dedup_step [] items)"
    by (simp add: dedup_entries case_prod_beta)
  then show ?thesis using dedup_inv_foldl [of items] by (simp add: dedup_inv_def)
qed

lemma dedup_entry:
  assumes "e \<in> set (deduplicateItems items)"
  shows "set (entry_fields e) = {field i | i. i \<in> set items \<and> item_text i = entry_text e}
         \<and> entry_count e = length (filter (\<lambda>i. item_text i = entry_text e) items)"
proof -
  let ?m = "foldl dedup_step [] items"
  from assms obtain t fs n where mem: "(t, fs, n) \<in> set ?m"
    and e: "e = \<lparr>entry_text = t, entry_fields = fs, entry_count = n\<rparr>"
    by (auto simp: dedup_entries)
  have inv: "dedup_inv items ?m" by (rule dedup_inv_foldl)
  then have "distinct (map fst ?m)" by (simp add: dedup_inv_def distinct_first_seen)
  with mem have "map_of ?m t = Some (fs, n)" by simp
  with inv have "set fs = field ` {i \<in> set items. item_text i = t}
      \<and> n = length (filter (\<lambda>i. item_text i = t) items)"
    by (simp add: dedup_inv_def)
  then show ?thesis using e by auto
qed

text \<open>
  Claim C9. \<open>deduplicateItems\<close> returns one entry per distinct text, in first-seen
  order; the counts of the entries add up to the number of items; the texts of the
  output are the texts of the input; and each entry holds the set of field kinds, and
  the number, of the items with its text.
\<close>

theorem deduplicateItems_spec:
  "map entry_text (deduplicateItems items) = first_seen (map item_text items)
   \<and> distinct (map entry_text (deduplicateItems items))
   \<and> set (map entry_text (deduplicateItems items)) = set (map item_text items)
   \<and> sum_list (map entry_count (deduplicateItems items)) = length items
   \<and> (\<forall>e \<in> set (deduplicateItems items).
        set (entry_fields e) = {field i | i. i \<in> set items \<and> item_text i = entry_text e}
        \<and> entry_count e = length (filter (\<lambda>i. item_text i = entry_text e) items))"
  using dedup_texts [of items] dedup_counts [of items] dedup_entry [of _ items]
  by (simp add: distinct_first_seen set_first_seen del: set_map)


text \<open>
  Four items with two distinct texts: the entry of the text seen three times, under two
  field kinds.
\<close>

theorem deduplicateItems_spec_witness:
  "\<lparr>entry_text = js ''a'', entry_fields = [title, tab_name], entry_count = 3\<rparr>
     \<in> set (deduplicateItems
         [\<lparr>path = js ''p1'', item_text = js ''a'', field = title, productId = js ''1'', productTitle = js ''T''\<rparr>,
          \<lparr>path = js ''p2'', item_text = js ''b'', field = category, productId = js ''1'', productTitle = js ''T''\<rparr>,
          \<lparr>path = js ''p3'', item_text = js ''a'', field = tab_name, productId = js ''2'', productTitle = js ''U''\<rparr>,
          \<lparr>path = js ''p4'', item_text = js ''a'', field = title, productId = js ''2'', productTitle = js ''U''\<rparr>])
   \<and> map entry_text (deduplicateItems
         [\<lparr>path = js ''p1'', item_text = js ''a'', field = title, productId = js ''1'', productTitle = js ''T''\<rparr>,
          \<lparr>path = js ''p2'', item_text = js ''b'', field = category, productId = js ''1'', productTitle = js ''T''\<rparr>,
          \<lparr>path = js ''p3'', item_text = js ''a'', field = tab_name, productId = js ''2'', productTitle = js ''U''\<rparr>,
          \<lparr>path = js ''p4'', item_text = js ''a'', field = title, productId = js ''2'', productTitle = js ''U''\<rparr>])
       = [js ''a'', js ''b'']
   \<and> sum_list (map entry_count (deduplicateItems
         [\<lparr>path = js ''p1'', item_text = js ''a'', field = title, productId = js ''1'', productTitle = js ''T''\<rparr>,
          \<lparr>path = js ''p2'', item_text = js ''b'', field = category, productId = js ''1'', productTitle = js ''T''\<rparr>,
          \<lparr>path = js ''p3'', item_text = js ''a'', field = tab_name, productId = js ''2'', productTitle = js ''U''\<rparr>,
          \<lparr>path = js ''p4'', item_text = js ''a'', field = title, productId = js ''2'', productTitle = js ''U''\<rparr>])) = 4
   \<and> set [title, tab_name] = {title, tab_name}"
proof -
  let ?items = "[\<lparr>path = js ''p1'', item_text = js ''a'', field = title, productId = js ''1'', productTitle = js ''T''\<rparr>,
          \<lparr>path = js ''p2'', item_text = js ''b'', field = category, productId = js ''1'', productTitle = js ''T''\<rparr>,
          \<lparr>path = js ''p3'', item_text = js ''a'', field = tab_name, productId = js ''2'', productTitle = js ''U''\<rparr>,
          \<lparr>path = js ''p4'', item_text = js ''a'', field = title, productId = js ''2'', productTitle = js ''U''\<rparr>]"
  have ev: "deduplicateItems ?items =
      [\<lparr>entry_text = js ''a'', entry_fields = [title, tab_name], entry_count = 3\<rparr>,
       \<lparr>entry_text = js ''b'', entry_fields = [category], entry_count = 1\<rparr>]"
    by (simp add: deduplicateItems_def dedup_step_def map_get_def set_add_def js_def)
  have mem: "\<lparr>entry_text = js ''a'', entry_fields = [title, tab_name], entry_count = 3\<rparr>
      \<in> set (deduplicateItems ?items)"
    unfolding ev by simp
  note spec = deduplicateItems_spec [of ?items]
  have texts: "map entry_text (deduplicateItems ?items) = first_seen (map item_text ?items)"
    using spec by (rule conjunct1)
  have fs: "first_seen (map item_text ?items) = [js ''a'', js ''b'']"
    by (simp add: first_seen_def js_def)
  have total: "sum_list (map entry_count (deduplicateItems ?items)) = length ?items"
    using spec by (elim conjE)
  show ?thesis using mem texts fs total by simp
qed

section \<open>Properties of reinsertion\<close>

lemma mset_insert_sorted: "mset (insert_sorted cmp x ys) = add_mset x (mset ys)"
  by (induction ys) auto

lemma mset_array_sort: "mset (array_sort cmp xs) = mset xs"
  by (induction xs) (simp_all add: array_sort_def mset_insert_sorted)

lemma set_insert_sorted: "set (insert_sorted cmp x ys) = insert x (set ys)"
  by (induction ys) auto

lemma sorted_insert_sorted:
  "sorted_wrt (\<lambda>a b. length (fst b) \<le> length (fst a)) ys \<Longrightarrow>
   sorted_wrt (\<lambda>a b. length (fst b) \<le> length (fst a)) (insert_sorted by_length_desc x ys)"
  by (induction ys) (auto simp: set_insert_sorted by_length_desc_def)

lemma sorted_array_sort:
  "sorted_wrt (\<lambda>a b. length (fst b) \<le> length (fst a)) (array_sort by_length_desc xs)"
proof (induction xs)
  case Nil
  show ?case by (simp add: array_sort_def)
next
  case (Cons x xs)
  have "array_sort by_length_desc (x # xs) = insert_sorted by_length_desc x (array_sort by_length_desc xs)"
    by (simp add: array_sort_def)
  then show ?case using Cons by (simp add: sorted_insert_sorted)
qed

lemma longer_first:
  assumes s: "sorted_wrt (\<lambda>a b. length (fst b) \<le> length (fst a)) es"
    and a: "a \<in> set es" and b: "b \<in> set es"
    and l: "length (fst b) < length (fst a)"
  shows "\<exists>pre mid post. es = pre @ a # mid @ b # post"
proof -
  from a obtain pre rest where es: "es = pre @ a # rest"
    by (auto simp: in_set_conv_decomp)
  have "b \<notin> set pre"
  proof
    assume "b \<in> set pre"
    with s es have "length (fst a) \<le> length (fst b)"
      by (auto simp: sorted_wrt_append)
    with l show False by simp
  qed
  moreover have "b \<noteq> a" using l by auto
  ultimately have "b \<in> set rest" using b es by auto
  then obtain mid post where "rest = mid @ b # post"
    by (auto simp: in_set_conv_decomp)
  with es show ?thesis by blast
qed

declare split_from.simps [simp del]

lemma split_from_nonempty: "split_from sep cur s \<noteq> []"
proof (induction sep cur s rule: split_from.induct)
  case (1 sep cur s)
  then show ?case by (subst split_from.simps) auto
qed

lemma js_join_Cons:
  "js_join (p # ps) sep = (if ps = [] then p else p @ sep @ js_join ps sep)"
  by (cases ps) simp_all

lemma join_split_from: "sep \<noteq> [] \<Longrightarrow> js_join (split_from sep cur s) sep = cur @ s"
proof (induction sep cur s rule: split_from.induct)
  case (1 sep cur s)
  show ?case
  proof (cases "s = []")
    case True
    then show ?thesis by (subst split_from.simps) simp
  next
    case ne: False
    show ?thesis
    proof (cases "take (length sep) s = sep")
      case True
      have "js_join (split_from sep [] (drop (length sep) s)) sep = drop (length sep) s"
        using "1.IH"(1) [OF ne] True "1.prems" by simp
      moreover have "sep @ drop (length sep) s = s"
        using True by (metis append_take_drop_id)
      ultimately show ?thesis using ne True "1.prems"
        by (subst split_from.simps) (simp add: js_join_Cons split_from_nonempty)
    next
      case False
      have "js_join (split_from sep (cur @ [hd s]) (tl s)) sep = (cur @ [hd s]) @ tl s"
        using "1.IH"(2) [OF ne] False "1.prems" by simp
      then show ?thesis using ne False
        by (subst split_from.simps) simp
    qed
  qed
qed

lemma occurs_in_iff: "occurs_in w s \<longleftrightarrow> (\<exists>i \<le> length s. take (length w) (drop i s) = w)"
proof -
  have "(\<exists>i \<in> set [0..<Suc (length s)]. take (length w) (drop i s) = w)
        \<longleftrightarrow> (\<exists>i \<le> length s. take (length w) (drop i s) = w)"
    unfolding set_upt Bex_def atLeastLessThan_iff less_Suc_eq_le by blast
  then show ?thesis unfolding occurs_in_def list_ex_iff .
qed

lemma occurrence_inside:
  assumes "take (length sep) (drop i cur) = sep" "sep \<noteq> []"
  shows "i < length cur \<and> take (length sep) (drop i (cur @ s)) = sep"
proof -
  have "length (take (length sep) (drop i cur)) = length sep" using assms(1) by simp
  then have le: "length sep \<le> length cur - i" by simp
  then have "i < length cur" using assms(2) by (cases sep) auto
  moreover have "take (length sep) (drop i (cur @ s)) = take (length sep) (drop i cur)"
    using le by simp
  ultimately show ?thesis using assms(1) by simp
qed

lemma split_from_pieces:
  "sep \<noteq> [] \<Longrightarrow> (\<forall>i < length cur. take (length sep) (drop i (cur @ s)) \<noteq> sep) \<Longrightarrow>
     p \<in> set (split_from sep cur s) \<Longrightarrow> \<not> occurs_in sep p"
proof (induction sep cur s rule: split_from.induct)
  case (1 sep cur s)
  have cur_free: "\<not> occurs_in sep cur"
  proof
    assume "occurs_in sep cur"
    then obtain i where "take (length sep) (drop i cur) = sep"
      by (auto simp: occurs_in_iff)
    from occurrence_inside [OF this "1.prems"(1), of s] "1.prems"(2) show False by blast
  qed
  show ?case
  proof (cases "s = []")
    case True
    then have "split_from sep cur s = [cur]" by (subst split_from.simps) simp
    with "1.prems"(3) cur_free show ?thesis by simp
  next
    case ne: False
    show ?thesis
    proof (cases "take (length sep) s = sep")
      case True
      have eq: "split_from sep cur s = cur # split_from sep [] (drop (length sep) s)"
        using ne True "1.prems"(1) by (subst split_from.simps) simp
      show ?thesis
      proof (cases "p = cur")
        case True
        then show ?thesis using cur_free by simp
      next
        case False
        with eq "1.prems"(3) have "p \<in> set (split_from sep [] (drop (length sep) s))" by simp
        then show ?thesis using "1.IH"(1) [OF ne _ "1.prems"(1)] True "1.prems"(1) by simp
      qed
    next
      case False
      have eq: "split_from sep cur s = split_from sep (cur @ [hd s]) (tl s)"
        using ne False by (subst split_from.simps) simp
      have inv: "\<forall>i < length (cur @ [hd s]). take (length sep) (drop i ((cur @ [hd s]) @ tl s)) \<noteq> sep"
      proof (intro allI impI)
        fix i assume "i < length (cur @ [hd s])"
        then have "i < length cur \<or> i = length cur" by auto
        then show "take (length sep) (drop i ((cur @ [hd s]) @ tl s)) \<noteq> sep"
          using "1.prems"(2) False ne by auto
      qed
      show ?thesis
        using "1.IH"(2) [OF ne _ "1.prems"(1) inv] False "1.prems"(3) eq by simp
    qed
  qed
qed

declare replace_every_occurrence.simps [simp del]

lemma join_split_replace:
  "sep \<noteq> [] \<Longrightarrow>
   js_join (split_from sep cur s) t = cur @ replace_every_occurrence sep t s"
proof (induction sep cur s rule: split_from.induct)
  case (1 sep cur s)
  show ?case
  proof (cases "s = []")
    case True
    then show ?thesis
      by (subst split_from.simps, subst replace_every_occurrence.simps) simp
  next
    case ne: False
    show ?thesis
    proof (cases "take (length sep) s = sep")
      case True
      have "js_join (split_from sep [] (drop (length sep) s)) t
              = replace_every_occurrence sep t (drop (length sep) s)"
        using "1.IH"(1) [OF ne] True "1.prems" by simp
      then show ?thesis using ne True "1.prems"
        by (subst split_from.simps, subst replace_every_occurrence.simps)
           (simp add: js_join_Cons split_from_nonempty)
    next
      case False
      have "js_join (split_from sep (cur @ [hd s]) (tl s)) t
              = (cur @ [hd s]) @ replace_every_occurrence sep t (tl s)"
        using "1.IH"(2) [OF ne] False "1.prems" by simp
      then show ?thesis using ne False
        by (subst split_from.simps, subst replace_every_occurrence.simps) simp
    qed
  qed
qed

lemma replace_entry_every_occurrence:
  "translated \<noteq> Str original \<Longrightarrow> original \<noteq> [] \<Longrightarrow>
   replace_entry doc (original, translated)
     = replace_every_occurrence original (to_string translated) doc"
  using join_split_replace [of original "[]" doc "to_string translated"]
  by (auto simp: replace_entry_def js_split_def)

lemma replace_entry_pieces:
  assumes "translated \<noteq> Str original" "original \<noteq> []"
  shows "\<exists>pieces. doc = js_join pieces original
           \<and> (\<forall>p \<in> set pieces. \<not> occurs_in original p)
           \<and> replace_entry doc (original, translated) = js_join pieces (to_string translated)"
proof -
  let ?ps = "js_split doc original"
  have ps: "?ps = split_from original [] doc" using assms(2) by (simp add: js_split_def)
  have "doc = js_join ?ps original" using assms(2) by (simp add: ps join_split_from)
  moreover have "\<forall>p \<in> set ?ps. \<not> occurs_in original p"
    unfolding ps using split_from_pieces [OF assms(2), of "[]" doc] by simp
  moreover have "replace_entry doc (original, translated) = js_join ?ps (to_string translated)"
    using assms(1) by (auto simp: replace_entry_def)
  ultimately show ?thesis by blast
qed

lemma array_sort_two:
  "length (fst b) < length (fst a) \<Longrightarrow>
   array_sort by_length_desc [a, b] = [a, b] \<and> array_sort by_length_desc [b, a] = [a, b]"
  by (simp add: array_sort_def by_length_desc_def)

lemma applyTranslations_two_entries:
  assumes "length (fst b) < length (fst a)"
  shows "applyTranslations doc [a, b] = replace_entry (replace_entry doc a) b"
    and "applyTranslations doc [b, a] = replace_entry (replace_entry doc a) b"
  using array_sort_two [OF assms] by (simp_all add: applyTranslations_def)

lemma replace_whole: "original \<noteq> [] \<Longrightarrow> replace_every_occurrence original t original = t"
  by (subst replace_every_occurrence.simps, subst replace_every_occurrence.simps) simp

lemma occurs_in_Cons:
  "s \<noteq> [] \<Longrightarrow> occurs_in w s \<longleftrightarrow> take (length w) s = w \<or> occurs_in w (tl s)"
proof -
  assume ne: "s \<noteq> []"
  then obtain c r where s: "s = c # r" by (cases s) auto
  show ?thesis
  proof
    assume "occurs_in w s"
    then obtain i where i: "i \<le> length s" "take (length w) (drop i s) = w"
      by (auto simp: occurs_in_iff)
    show "take (length w) s = w \<or> occurs_in w (tl s)"
    proof (cases i)
      case 0
      with i show ?thesis by simp
    next
      case (Suc j)
      with i s have "j \<le> length r" "take (length w) (drop j r) = w" by simp_all
      then have "occurs_in w r" by (auto simp: occurs_in_iff)
      with s show ?thesis by simp
    qed
  next
    assume "take (length w) s = w \<or> occurs_in w (tl s)"
    then show "occurs_in w s"
    proof
      assume "take (length w) s = w"
      then have "take (length w) (drop 0 s) = w" by simp
      then show ?thesis unfolding occurs_in_iff by blast
    next
      assume "occurs_in w (tl s)"
      then obtain j where "j \<le> length r" "take (length w) (drop j r) = w"
        using s by (auto simp: occurs_in_iff)
      then have "Suc j \<le> length s" "take (length w) (drop (Suc j) s) = w" using s by simp_all
      then show ?thesis unfolding occurs_in_iff by blast
    qed
  qed
qed

lemma replace_absent:
  "\<not> occurs_in original doc \<Longrightarrow> replace_every_occurrence original t doc = doc"
proof (induction original t doc rule: replace_every_occurrence.induct)
  case (1 original t doc)
  show ?case
  proof (cases "doc = []")
    case True
    then show ?thesis by (subst replace_every_occurrence.simps) simp
  next
    case ne: False
    from "1.prems" ne have no: "take (length original) doc \<noteq> original" "\<not> occurs_in original (tl doc)"
      by (simp_all add: occurs_in_Cons)
    have "replace_every_occurrence original t (tl doc) = tl doc"
      using "1.IH"(2) [OF ne _ no(2)] no(1) by simp
    then show ?thesis using ne no(1)
      by (subst replace_every_occurrence.simps) simp
  qed
qed

lemma take_eq_length: "take (length w) s = w \<Longrightarrow> length w \<le> length s"
proof -
  assume "take (length w) s = w"
  then have "length (take (length w) s) = length w" by simp
  then show ?thesis by simp
qed

lemma replace_length_le:
  "length t \<le> length original \<Longrightarrow> length (replace_every_occurrence original t doc) \<le> length doc"
proof (induction original t doc rule: replace_every_occurrence.induct)
  case (1 original t doc)
  show ?case
  proof (cases "doc = []")
    case True
    then show ?thesis by (subst replace_every_occurrence.simps) simp
  next
    case ne: False
    show ?thesis
    proof (cases "original \<noteq> [] \<and> take (length original) doc = original")
      case True
      then have l: "length original \<le> length doc"
        by (simp add: take_eq_length)
      from "1.IH"(1) [OF ne True "1.prems"] l "1.prems" show ?thesis using ne True
        by (subst replace_every_occurrence.simps) simp
    next
      case False
      from "1.IH"(2) [OF ne False "1.prems"] show ?thesis using ne False
        by (subst replace_every_occurrence.simps) (cases doc, auto)
    qed
  qed
qed

lemma replace_length_ge:
  "length original \<le> length t \<Longrightarrow> length doc \<le> length (replace_every_occurrence original t doc)"
proof (induction original t doc rule: replace_every_occurrence.induct)
  case (1 original t doc)
  show ?case
  proof (cases "doc = []")
    case True
    then show ?thesis by (subst replace_every_occurrence.simps) simp
  next
    case ne: False
    show ?thesis
    proof (cases "original \<noteq> [] \<and> take (length original) doc = original")
      case True
      then have l: "length original \<le> length doc"
        by (simp add: take_eq_length)
      from "1.IH"(1) [OF ne True "1.prems"] l "1.prems" show ?thesis using ne True
        by (subst replace_every_occurrence.simps) simp
    next
      case False
      from "1.IH"(2) [OF ne False "1.prems"] show ?thesis using ne False
        by (subst replace_every_occurrence.simps) (cases doc, auto)
    qed
  qed
qed

lemma replace_changes:
  "occurs_in original doc \<Longrightarrow> original \<noteq> [] \<Longrightarrow> t \<noteq> original \<Longrightarrow>
   replace_every_occurrence original t doc \<noteq> doc"
proof (induction original t doc rule: replace_every_occurrence.induct)
  case (1 original t doc)
  have ne: "doc \<noteq> []"
  proof
    assume "doc = []"
    with "1.prems"(1,2) show False by (auto simp: occurs_in_iff)
  qed
  show ?case
  proof (cases "take (length original) doc = original")
    case True
    let ?rest = "drop (length original) doc"
    have doc: "doc = original @ ?rest" using True by (metis append_take_drop_id)
    have r: "replace_every_occurrence original t doc
        = t @ replace_every_occurrence original t ?rest"
      using ne True "1.prems"(2) by (subst replace_every_occurrence.simps) simp
    show ?thesis
    proof
      assume eq: "replace_every_occurrence original t doc = doc"
      with r doc have e: "t @ replace_every_occurrence original t ?rest = original @ ?rest"
        by simp
      have "length t = length original"
      proof (rule ccontr)
        assume d: "length t \<noteq> length original"
        show False
        proof (cases "length t < length original")
          case True
          then have "length (replace_every_occurrence original t ?rest) \<le> length ?rest"
            by (intro replace_length_le) simp
          moreover from e have "length t + length (replace_every_occurrence original t ?rest)
              = length original + length ?rest"
            by (metis length_append)
          ultimately show False using True by linarith
        next
          case False
          with d have g: "length original < length t" by simp
          then have "length ?rest \<le> length (replace_every_occurrence original t ?rest)"
            by (intro replace_length_ge) simp
          moreover from e have "length t + length (replace_every_occurrence original t ?rest)
              = length original + length ?rest"
            by (metis length_append)
          ultimately show False using g by linarith
        qed
      qed
      with e have "t = original" by simp
      with "1.prems"(3) show False by simp
    qed
  next
    case False
    from "1.prems"(1) ne False have o: "occurs_in original (tl doc)"
      by (simp add: occurs_in_Cons)
    have "replace_every_occurrence original t (tl doc) \<noteq> tl doc"
      using "1.IH"(2) [OF ne _ o "1.prems"(2,3)] False by simp
    moreover have "replace_every_occurrence original t doc
        = hd doc # replace_every_occurrence original t (tl doc)"
      using ne False by (subst replace_every_occurrence.simps) simp
    ultimately show ?thesis using ne by (cases doc) auto
  qed
qed


lemma js_literals:
  "js ''Gold'' = [0x47, 0x6F, 0x6C, 0x64]"
  "js ''18K Gold'' = [0x31, 0x38, 0x4B, 0x20, 0x47, 0x6F, 0x6C, 0x64]"
  "js ''G'' = [0x47]" "js ''K'' = [0x4B]"
  "js ''18K Gold Gold'' = [0x31, 0x38, 0x4B, 0x20, 0x47, 0x6F, 0x6C, 0x64, 0x20, 0x47, 0x6F, 0x6C, 0x64]"
  "js ''K G'' = [0x4B, 0x20, 0x47]"
  by (simp_all add: js_def)



text \<open>
  Claim C10. Every entry is applied to the document as the entries before it (those with
  longer originals) have left it, and replaces every occurrence of its original there,
  also in text that an earlier replacement wrote. For two entries, the result is the
  replacement of the shorter original in the replacement of the longer one, whatever the
  order of insertion; on the document that is the longer original, the result is the
  translation of the longer original rewritten by the shorter entry, and it differs from
  that translation whenever the shorter original occurs in it.
\<close>

theorem applyTranslations_rewrites_translated_text:
  "(\<exists>entries. mset entries = mset translations
       \<and> sorted_wrt (\<lambda>a b. length (fst b) \<le> length (fst a)) entries
       \<and> (\<forall>pre e post. entries = pre @ e # post \<longrightarrow>
            applyTranslations xmlContent translations
              = foldl replace_entry (replace_entry (foldl replace_entry xmlContent pre) e) post))
   \<and> (\<forall>doc o1 t1 o2 t2.
         length o2 < length o1 \<and> o1 \<noteq> t1 \<and> o2 \<noteq> t2 \<and> o2 \<noteq> [] \<longrightarrow>
           applyTranslations doc [(o1, Str t1), (o2, Str t2)]
             = replace_every_occurrence o2 t2 (replace_every_occurrence o1 t1 doc)
           \<and> applyTranslations doc [(o2, Str t2), (o1, Str t1)]
             = replace_every_occurrence o2 t2 (replace_every_occurrence o1 t1 doc)
           \<and> applyTranslations o1 [(o1, Str t1), (o2, Str t2)]
             = replace_every_occurrence o2 t2 t1
           \<and> (occurs_in o2 t1 \<longrightarrow> applyTranslations o1 [(o1, Str t1), (o2, Str t2)] \<noteq> t1))"
proof (intro conjI allI impI)
  let ?es = "array_sort by_length_desc translations"
  have "\<forall>pre e post. ?es = pre @ e # post \<longrightarrow>
            applyTranslations xmlContent translations
              = foldl replace_entry (replace_entry (foldl replace_entry xmlContent pre) e) post"
    by (simp add: applyTranslations_def)
  with mset_array_sort [of by_length_desc "translations"] sorted_array_sort [of "translations"]
  show "\<exists>entries. mset entries = mset translations
       \<and> sorted_wrt (\<lambda>a b. length (fst b) \<le> length (fst a)) entries
       \<and> (\<forall>pre e post. entries = pre @ e # post \<longrightarrow>
            applyTranslations xmlContent translations
              = foldl replace_entry (replace_entry (foldl replace_entry xmlContent pre) e) post)"
    by blast
next
  fix doc o1 t1 o2 t2 :: jsstring
  assume h: "length o2 < length o1 \<and> o1 \<noteq> t1 \<and> o2 \<noteq> t2 \<and> o2 \<noteq> []"
  then have l: "length (fst (o2, Str t2)) < length (fst (o1, Str t1))" by simp
  from h have o1: "o1 \<noteq> []" by auto
  have r1: "replace_entry d (o1, Str t1) = replace_every_occurrence o1 t1 d" for d
    using replace_entry_every_occurrence [of "Str t1" o1 d] h o1 by auto
  have r2: "replace_entry d (o2, Str t2) = replace_every_occurrence o2 t2 d" for d
    using replace_entry_every_occurrence [of "Str t2" o2 d] h by auto
  show a: "applyTranslations doc [(o1, Str t1), (o2, Str t2)]
             = replace_every_occurrence o2 t2 (replace_every_occurrence o1 t1 doc)"
    using applyTranslations_two_entries(1) [OF l, of doc] by (simp add: r1 r2)
  show "applyTranslations doc [(o2, Str t2), (o1, Str t1)]
             = replace_every_occurrence o2 t2 (replace_every_occurrence o1 t1 doc)"
    using applyTranslations_two_entries(2) [OF l, of doc] by (simp add: r1 r2)
  show b: "applyTranslations o1 [(o1, Str t1), (o2, Str t2)] = replace_every_occurrence o2 t2 t1"
    using applyTranslations_two_entries(1) [OF l, of o1] by (simp add: r1 r2 replace_whole [OF o1])
  {
    assume "occurs_in o2 t1"
    from replace_changes [OF this, of t2] h
    have "replace_every_occurrence o2 t2 t1 \<noteq> t1" by auto
    with b show "applyTranslations o1 [(o1, Str t1), (o2, Str t2)] \<noteq> t1" by simp
  }
qed

text \<open>
  The document ab with ab translated to x and x to y: the result is y, not x.
\<close>

theorem applyTranslations_rewrites_translated_text_witness:
  "length (js ''x'') < length (js ''ab'') \<and> js ''ab'' \<noteq> js ''x'' \<and> js ''x'' \<noteq> js ''y''
   \<and> js ''x'' \<noteq> [] \<and> occurs_in (js ''x'') (js ''x'')
   \<and> [(js ''ab'', Str (js ''x'')), (js ''x'', Str (js ''y''))]
       = [] @ (js ''ab'', Str (js ''x'')) # [(js ''x'', Str (js ''y''))]
   \<and> applyTranslations (js ''ab'') [(js ''ab'', Str (js ''x'')), (js ''x'', Str (js ''y''))]
       = js ''y''
   \<and> applyTranslations (js ''ab'') [(js ''x'', Str (js ''y'')), (js ''ab'', Str (js ''x''))]
       = js ''y''
   \<and> applyTranslations (js ''ab'') [(js ''ab'', Str (js ''x'')), (js ''x'', Str (js ''y''))]
       \<noteq> js ''x''"
proof -
  have h: "length (js ''x'') < length (js ''ab'') \<and> js ''ab'' \<noteq> js ''x'' \<and> js ''x'' \<noteq> js ''y''
      \<and> js ''x'' \<noteq> []"
    by (simp add: js_def)
  have occ: "occurs_in (js ''x'') (js ''x'')" by (simp add: occurs_in_def js_def)
  have ev: "replace_every_occurrence (js ''x'') (js ''y'') (js ''x'') = js ''y''"
    "replace_every_occurrence (js ''ab'') (js ''x'') (js ''ab'') = js ''x''"
    by (simp_all add: js_def replace_every_occurrence.simps)
  note two = applyTranslations_rewrites_translated_text [of "[]" "[]", THEN conjunct2,
      THEN spec, THEN spec, THEN spec, THEN spec, THEN spec, THEN mp, OF h, of "js ''ab''"]
  have 1: "applyTranslations (js ''ab'') [(js ''ab'', Str (js ''x'')), (js ''x'', Str (js ''y''))]
       = js ''y''"
    using two [THEN conjunct1] by (simp add: ev)
  have 2: "applyTranslations (js ''ab'') [(js ''x'', Str (js ''y'')), (js ''ab'', Str (js ''x''))]
       = js ''y''"
    using two [THEN conjunct2, THEN conjunct1] by (simp add: ev)
  have 3: "applyTranslations (js ''ab'') [(js ''ab'', Str (js ''x'')), (js ''x'', Str (js ''y''))]
       \<noteq> js ''x''"
    using two [THEN conjunct2, THEN conjunct2, THEN conjunct2, THEN mp, OF occ] .
  show ?thesis
    apply (intro conjI)
    apply (rule h [THEN conjunct1])
    apply (rule h [THEN conjunct2, THEN conjunct1])
    apply (rule h [THEN conjunct2, THEN conjunct2, THEN conjunct1])
    apply (rule h [THEN conjunct2, THEN conjunct2, THEN conjunct2])
    apply (rule occ)
    apply simp
    apply (rule 1)
    apply (rule 2)
    apply (rule 3)
    done
qed


section \<open>Properties of the retry loop\<close>

declare retry_loop.simps [simp del]

lemma retry_done:
  "\<not> attempt < MAX_RETRIES \<Longrightarrow>
   retry_loop provider parse req attempt lastError history =
     (Inl (case lastError of Some err \<Rightarrow> err | None \<Rightarrow> TranslationFailedAfterRetries), history)"
  by (subst retry_loop.simps) simp

lemma retry_success:
  "attempt < MAX_RETRIES \<Longrightarrow>
   handle_response parse (req_batch req) (provider history req) = Inr result \<Longrightarrow>
   retry_loop provider parse req attempt lastError history =
     (Inr result, history @ [ProviderCall req])"
  by (subst retry_loop.simps) simp

lemma retry_failure:
  "attempt < MAX_RETRIES - 1 \<Longrightarrow>
   handle_response parse (req_batch req) (provider history req) = Inl err \<Longrightarrow>
   retry_loop provider parse req attempt lastError history =
     retry_loop provider parse req (attempt + 1) (Some err)
       (history @ [ProviderCall req, Sleep (2000 * (attempt + 1))])"
  by (subst retry_loop.simps) (simp add: MAX_RETRIES_def)

lemma retry_last_failure:
  "attempt = MAX_RETRIES - 1 \<Longrightarrow>
   handle_response parse (req_batch req) (provider history req) = Inl err \<Longrightarrow>
   retry_loop provider parse req attempt lastError history =
     (Inl err, history @ [ProviderCall req])"
  by (subst retry_loop.simps, subst retry_loop.simps) (simp add: MAX_RETRIES_def)

lemma failed_attempts_simps:
  "failed_attempts req 0 = []"
  "failed_attempts req (Suc k) =
     failed_attempts req k @ [ProviderCall req, Sleep (2000 * (k + 1))]"
  by (simp_all add: failed_attempts_def)

lemma retry_after_failures:
  assumes "k < MAX_RETRIES"
    and "\<forall>j<k. \<exists>err. handle_response parse (req_batch req)
                    (provider (history @ failed_attempts req j) req) = Inl err"
  shows "\<exists>lastError. retry_loop provider parse req 0 None history =
           retry_loop provider parse req k lastError (history @ failed_attempts req k)"
  using assms
proof (induction k)
  case 0
  show ?case unfolding failed_attempts_simps append_Nil2 by (rule exI) (rule refl)
next
  case (Suc k)
  then obtain le where le: "retry_loop provider parse req 0 None history =
           retry_loop provider parse req k le (history @ failed_attempts req k)"
    by auto
  from Suc.prems obtain err where
    "handle_response parse (req_batch req) (provider (history @ failed_attempts req k) req) = Inl err"
    by auto
  moreover have "k < MAX_RETRIES - 1" using Suc.prems(1) by simp
  ultimately have "retry_loop provider parse req k le (history @ failed_attempts req k) =
      retry_loop provider parse req (Suc k) (Some err) (history @ failed_attempts req (Suc k))"
    by (simp add: retry_failure failed_attempts_simps)
  with le show ?case by auto
qed

lemma req_batch_batch_request [simp]:
  "req_batch (batch_request apiKey batch sourceLang targetLang industry) = batch"
  by (simp add: batch_request_def)

lemma translateBatch_success_after:
  assumes "k < MAX_RETRIES"
    and "\<forall>j<k. \<exists>err. handle_response parse batch
           (provider (history @ failed_attempts
              (batch_request apiKey batch sourceLang targetLang industry) j)
              (batch_request apiKey batch sourceLang targetLang industry)) = Inl err"
    and "handle_response parse batch
           (provider (history @ failed_attempts
              (batch_request apiKey batch sourceLang targetLang industry) k)
              (batch_request apiKey batch sourceLang targetLang industry)) = Inr result"
  shows "translateBatch provider parse apiKey batch sourceLang targetLang industry history =
           (Inr result, history @ failed_attempts
              (batch_request apiKey batch sourceLang targetLang industry) k
              @ [ProviderCall (batch_request apiKey batch sourceLang targetLang industry)])"
proof -
  let ?req = "batch_request apiKey batch sourceLang targetLang industry"
  from retry_after_failures [of k parse ?req provider history] assms(1,2)
  obtain le where "retry_loop provider parse ?req 0 None history =
      retry_loop provider parse ?req k le (history @ failed_attempts ?req k)"
    by auto
  moreover have "retry_loop provider parse ?req k le (history @ failed_attempts ?req k) =
      (Inr result, (history @ failed_attempts ?req k) @ [ProviderCall ?req])"
    using assms(1,3) by (intro retry_success) (simp_all)
  ultimately show ?thesis by (simp add: translateBatch_def)
qed

lemma translateBatch_all_fail:
  assumes "\<forall>j<MAX_RETRIES. handle_response parse batch
           (provider (history @ failed_attempts
              (batch_request apiKey batch sourceLang targetLang industry) j)
              (batch_request apiKey batch sourceLang targetLang industry)) = Inl (errs j)"
  shows "translateBatch provider parse apiKey batch sourceLang targetLang industry history =
           (Inl (errs (MAX_RETRIES - 1)), history @ failed_attempts
              (batch_request apiKey batch sourceLang targetLang industry) (MAX_RETRIES - 1)
              @ [ProviderCall (batch_request apiKey batch sourceLang targetLang industry)])"
proof -
  let ?req = "batch_request apiKey batch sourceLang targetLang industry"
  have "\<forall>j<MAX_RETRIES - 1. \<exists>err. handle_response parse (req_batch ?req)
           (provider (history @ failed_attempts ?req j) ?req) = Inl err"
    using assms by (auto simp: MAX_RETRIES_def)
  from retry_after_failures [of "MAX_RETRIES - 1" parse ?req provider history, OF _ this]
  obtain le where "retry_loop provider parse ?req 0 None history =
      retry_loop provider parse ?req (MAX_RETRIES - 1) le
        (history @ failed_attempts ?req (MAX_RETRIES - 1))"
    by (auto simp: MAX_RETRIES_def)
  moreover have "retry_loop provider parse ?req (MAX_RETRIES - 1) le
        (history @ failed_attempts ?req (MAX_RETRIES - 1)) =
      (Inl (errs (MAX_RETRIES - 1)),
       (history @ failed_attempts ?req (MAX_RETRIES - 1)) @ [ProviderCall ?req])"
    using assms by (intro retry_last_failure) (simp_all add: MAX_RETRIES_def)
  ultimately show ?thesis by (simp add: translateBatch_def)
qed

lemma provider_calls_append [simp]:
  "provider_calls (a @ b) = provider_calls a @ provider_calls b"
  by (simp add: provider_calls_def)

lemma waits_append [simp]: "waits (a @ b) = waits a @ waits b"
  by (simp add: waits_def)

lemma provider_calls_simps [simp]:
  "provider_calls [] = []"
  "provider_calls (ProviderCall r # h) = r # provider_calls h"
  "provider_calls (Sleep n # h) = provider_calls h"
  by (simp_all add: provider_calls_def)

lemma waits_simps [simp]:
  "waits [] = []"
  "waits (ProviderCall r # h) = waits h"
  "waits (Sleep n # h) = n # waits h"
  by (simp_all add: waits_def)

lemma retry_loop_bound:
  "\<exists>added. snd (retry_loop provider parse req attempt lastError history) = history @ added
      \<and> length (provider_calls added) \<le> MAX_RETRIES - attempt"
proof (induction provider parse req attempt lastError history rule: retry_loop.induct)
  case (1 provider parse req attempt lastError history)
  show ?case
  proof (cases "attempt < MAX_RETRIES")
    case False
    then show ?thesis by (simp add: retry_done)
  next
    case True
    show ?thesis
    proof (cases "handle_response parse (req_batch req) (provider history req)")
      case (Inr result)
      then show ?thesis using True by (simp add: retry_success)
    next
      case (Inl err)
      from "1.IH" [OF True Inl] obtain added where
        a: "snd (retry_loop provider parse req (attempt + 1) (Some err)
               (if attempt < MAX_RETRIES - 1
                then history @ [ProviderCall req, Sleep (2000 * (attempt + 1))]
                else history @ [ProviderCall req])) =
            (if attempt < MAX_RETRIES - 1
                then history @ [ProviderCall req, Sleep (2000 * (attempt + 1))]
                else history @ [ProviderCall req]) @ added"
        and b: "length (provider_calls added) \<le> MAX_RETRIES - (attempt + 1)"
        by blast
      have eq: "retry_loop provider parse req attempt lastError history =
          retry_loop provider parse req (attempt + 1) (Some err)
               (if attempt < MAX_RETRIES - 1
                then history @ [ProviderCall req, Sleep (2000 * (attempt + 1))]
                else history @ [ProviderCall req])"
        using True Inl by (subst retry_loop.simps) simp
      show ?thesis
      proof (cases "attempt < MAX_RETRIES - 1")
        case True
        with a b eq \<open>attempt < MAX_RETRIES\<close>
        show ?thesis
          by (intro exI [of _ "[ProviderCall req, Sleep (2000 * (attempt + 1))] @ added"]) simp
      next
        case False
        with a b eq \<open>attempt < MAX_RETRIES\<close>
        show ?thesis
          by (intro exI [of _ "[ProviderCall req] @ added"]) simp
      qed
    qed
  qed
qed

lemma failed_attempts_waits: "waits (failed_attempts req k) = map (\<lambda>j. 2000 * j) [1..<Suc k]"
  by (induction k) (simp_all add: failed_attempts_simps)

lemma failed_attempts_calls: "provider_calls (failed_attempts req k) = replicate k req"
  by (induction k) (simp_all add: failed_attempts_simps replicate_append_same)

lemma handle_response_failures:
  "handle_response parse batch (Rejected err) = Inl err"
  "handle_response parse batch (Message []) = Inl TypeError"
  "handle_response parse batch (Message (OtherBlock # rest)) = Inl UnexpectedResponseType"
  "parse (strip_code_fence (trim t)) = Inl err \<Longrightarrow>
     handle_response parse batch (Message (TextBlock t # rest)) = Inl err"
  "parse (strip_code_fence (trim t)) = Inr translated \<Longrightarrow>
   length translated \<noteq> length (texts batch) \<Longrightarrow>
     handle_response parse batch (Message (TextBlock t # rest)) =
       Inl (ExpectedTranslations (length (texts batch)) (length translated))"
  by (simp_all add: handle_response_def)

text \<open>
  Claim C5. A batch is attempted at most three times, the first attempt included. Every
  kind of failure (the provider's call throws, the response is not text, the text does
  not parse, the array has the wrong length) is a failed attempt of the same loop. The
  waits after failed attempts are 2000 ms times the number of the attempt: 2000 after
  the first, 4000 after the second. When attempt \<open>k + 1\<close> succeeds after \<open>k\<close> failed
  ones, \<open>translateBatch\<close> returns the result of that attempt, and what it has done is
  exactly the \<open>k\<close> failed calls, each followed by its wait, and the successful call.
\<close>

theorem translateBatch_retry_policy:
  "(\<exists>added. snd (translateBatch provider parse apiKey batch sourceLang targetLang industry history)
        = history @ added
      \<and> length (provider_calls added) \<le> MAX_RETRIES \<and> MAX_RETRIES = 3)
   \<and> (\<forall>k result.
         k < MAX_RETRIES
         \<and> (\<forall>j<k. \<exists>err. handle_response parse batch
                (provider (history @ failed_attempts
                    (batch_request apiKey batch sourceLang targetLang industry) j)
                  (batch_request apiKey batch sourceLang targetLang industry)) = Inl err)
         \<and> handle_response parse batch
                (provider (history @ failed_attempts
                    (batch_request apiKey batch sourceLang targetLang industry) k)
                  (batch_request apiKey batch sourceLang targetLang industry)) = Inr result
         \<longrightarrow> translateBatch provider parse apiKey batch sourceLang targetLang industry history =
               (Inr result,
                history @ failed_attempts
                    (batch_request apiKey batch sourceLang targetLang industry) k
                  @ [ProviderCall (batch_request apiKey batch sourceLang targetLang industry)]))
   \<and> (\<forall>req k. waits (failed_attempts req k) = map (\<lambda>j. 2000 * j) [1..<Suc k]
            \<and> provider_calls (failed_attempts req k) = replicate k req)
   \<and> (\<forall>err. handle_response parse batch (Rejected err) = Inl err)
   \<and> (\<forall>rest. handle_response parse batch (Message (OtherBlock # rest))
            = Inl UnexpectedResponseType)
   \<and> (\<forall>t rest err. parse (strip_code_fence (trim t)) = Inl err \<longrightarrow>
          handle_response parse batch (Message (TextBlock t # rest)) = Inl err)
   \<and> (\<forall>t rest translated.
          parse (strip_code_fence (trim t)) = Inr translated
          \<and> length translated \<noteq> length (texts batch) \<longrightarrow>
          handle_response parse batch (Message (TextBlock t # rest)) =
            Inl (ExpectedTranslations (length (texts batch)) (length translated)))"
proof (intro conjI)
  show "\<exists>added. snd (translateBatch provider parse apiKey batch sourceLang targetLang industry history)
        = history @ added
      \<and> length (provider_calls added) \<le> MAX_RETRIES \<and> MAX_RETRIES = 3"
    using retry_loop_bound [of provider parse
        "batch_request apiKey batch sourceLang targetLang industry" 0 None history]
    by (simp add: translateBatch_def MAX_RETRIES_def)
  show "\<forall>k result.
         k < MAX_RETRIES
         \<and> (\<forall>j<k. \<exists>err. handle_response parse batch
                (provider (history @ failed_attempts
                    (batch_request apiKey batch sourceLang targetLang industry) j)
                  (batch_request apiKey batch sourceLang targetLang industry)) = Inl err)
         \<and> handle_response parse batch
                (provider (history @ failed_attempts
                    (batch_request apiKey batch sourceLang targetLang industry) k)
                  (batch_request apiKey batch sourceLang targetLang industry)) = Inr result
         \<longrightarrow> translateBatch provider parse apiKey batch sourceLang targetLang industry history =
               (Inr result,
                history @ failed_attempts
                    (batch_request apiKey batch sourceLang targetLang industry) k
                  @ [ProviderCall (batch_request apiKey batch sourceLang targetLang industry)])"
    using translateBatch_success_after by blast
  show "\<forall>req k. waits (failed_attempts req k) = map (\<lambda>j. 2000 * j) [1..<Suc k]
            \<and> provider_calls (failed_attempts req k) = replicate k req"
    by (simp add: failed_attempts_waits failed_attempts_calls)
  show "\<forall>err. handle_response parse batch (Rejected err) = Inl err"
    by (simp add: handle_response_failures)
  show "\<forall>rest. handle_response parse batch (Message (OtherBlock # rest))
            = Inl UnexpectedResponseType"
    by (simp add: handle_response_failures)
  show "\<forall>t rest err. parse (strip_code_fence (trim t)) = Inl err \<longrightarrow>
          handle_response parse batch (Message (TextBlock t # rest)) = Inl err"
    by (simp add: handle_response_failures)
  show "\<forall>t rest translated.
          parse (strip_code_fence (trim t)) = Inr translated
          \<and> length translated \<noteq> length (texts batch) \<longrightarrow>
          handle_response parse batch (Message (TextBlock t # rest)) =
            Inl (ExpectedTranslations (length (texts batch)) (length translated))"
    by (simp add: handle_response_failures)
qed

lemma failed_attempts_numeral:
  "failed_attempts req (Suc 0) = [ProviderCall req, Sleep 2000]"
  "failed_attempts req 2 = [ProviderCall req, Sleep 2000, ProviderCall req, Sleep 4000]"
  by (simp_all add: failed_attempts_def numeral_2_eq_2)

text \<open>
  A provider that throws on the first call, answers without text on the second and
  answers well on the third: the batch succeeds after waits of 2000 and 4000 ms.
\<close>

theorem translateBatch_retry_policy_witness:
  "handle_response chars_parser \<lparr>texts = [js ''a''], batch_fields = [[title]]\<rparr>
      (flaky_provider
         (failed_attempts (batch_request (js ''key'') \<lparr>texts = [js ''a''], batch_fields = [[title]]\<rparr>
            (js ''bg'') (js ''en'') custom_industry) 0)
         (batch_request (js ''key'') \<lparr>texts = [js ''a''], batch_fields = [[title]]\<rparr>
            (js ''bg'') (js ''en'') custom_industry))
     = Inl (Thrown (js ''overloaded''))
   \<and> handle_response chars_parser \<lparr>texts = [js ''a''], batch_fields = [[title]]\<rparr>
      (flaky_provider
         (failed_attempts (batch_request (js ''key'') \<lparr>texts = [js ''a''], batch_fields = [[title]]\<rparr>
            (js ''bg'') (js ''en'') custom_industry) 1)
         (batch_request (js ''key'') \<lparr>texts = [js ''a''], batch_fields = [[title]]\<rparr>
            (js ''bg'') (js ''en'') custom_industry))
     = Inl UnexpectedResponseType
   \<and> handle_response chars_parser \<lparr>texts = [js ''a''], batch_fields = [[title]]\<rparr>
      (flaky_provider
         (failed_attempts (batch_request (js ''key'') \<lparr>texts = [js ''a''], batch_fields = [[title]]\<rparr>
            (js ''bg'') (js ''en'') custom_industry) 2)
         (batch_request (js ''key'') \<lparr>texts = [js ''a''], batch_fields = [[title]]\<rparr>
            (js ''bg'') (js ''en'') custom_industry))
     = Inr [(js ''a'', js ''x'')]
   \<and> translateBatch flaky_provider chars_parser (js ''key'')
        \<lparr>texts = [js ''a''], batch_fields = [[title]]\<rparr> (js ''bg'') (js ''en'') custom_industry []
     = (Inr [(js ''a'', js ''x'')],
        failed_attempts (batch_request (js ''key'') \<lparr>texts = [js ''a''], batch_fields = [[title]]\<rparr>
            (js ''bg'') (js ''en'') custom_industry) 2
        @ [ProviderCall (batch_request (js ''key'') \<lparr>texts = [js ''a''], batch_fields = [[title]]\<rparr>
            (js ''bg'') (js ''en'') custom_industry)])
   \<and> waits (failed_attempts (batch_request (js ''key'') \<lparr>texts = [js ''a''], batch_fields = [[title]]\<rparr>
            (js ''bg'') (js ''en'') custom_industry) 2) = [2000, 4000]"
proof -
  let ?b = "\<lparr>texts = [js ''a''], batch_fields = [[title]]\<rparr>"
  let ?req = "batch_request (js ''key'') ?b (js ''bg'') (js ''en'') custom_industry"
  have h0: "handle_response chars_parser ?b (flaky_provider (failed_attempts ?req 0) ?req)
      = Inl (Thrown (js ''overloaded''))"
    by (simp add: failed_attempts_simps flaky_provider_def handle_response_def)
  have h1: "handle_response chars_parser ?b (flaky_provider (failed_attempts ?req 1) ?req)
      = Inl UnexpectedResponseType"
    by (simp add: failed_attempts_numeral flaky_provider_def handle_response_def)
  have x: "trim [0x78] = [0x78]" "strip_code_fence [0x78] = [0x78]" "js ''x'' = [0x78]"
    by (simp_all add: trim_def is_js_whitespace_def strip_code_fence_def fence_def js_def)
  have h2: "handle_response chars_parser ?b (flaky_provider (failed_attempts ?req 2) ?req)
      = Inr [(js ''a'', js ''x'')]"
    by (simp add: failed_attempts_numeral flaky_provider_def echo_provider_def
        handle_response_def chars_parser_def x)
  have fails: "\<forall>j<2. \<exists>err. handle_response chars_parser ?b
      (flaky_provider ([] @ failed_attempts ?req j) ?req) = Inl err"
  proof (intro allI impI)
    fix j :: nat assume "j < 2"
    then have "j = 0 \<or> j = 1" by auto
    then show "\<exists>err. handle_response chars_parser ?b
      (flaky_provider ([] @ failed_attempts ?req j) ?req) = Inl err"
      using h0 h1 by auto
  qed
  have k: "(2::nat) < MAX_RETRIES" by (simp add: MAX_RETRIES_def)
  have h2': "handle_response chars_parser ?b
      (flaky_provider ([] @ failed_attempts ?req 2) ?req) = Inr [(js ''a'', js ''x'')]"
    using h2 by simp
  note spec = translateBatch_retry_policy [of flaky_provider chars_parser "js ''key''" ?b
      "js ''bg''" "js ''en''" custom_industry "[]"]
  have run: "translateBatch flaky_provider chars_parser (js ''key'') ?b (js ''bg'') (js ''en'')
      custom_industry [] = (Inr [(js ''a'', js ''x'')], [] @ failed_attempts ?req 2 @ [ProviderCall ?req])"
    using spec [THEN conjunct2, THEN conjunct1, rule_format, of 2 "[(js ''a'', js ''x'')]",
        OF conjI [OF k conjI [OF fails h2']]] .
  have w: "waits (failed_attempts ?req 2) = [2000, 4000]"
    using spec [THEN conjunct2, THEN conjunct2, THEN conjunct1, rule_format, of ?req 2]
    by (simp add: numeral_2_eq_2)
  show ?thesis
    apply (intro conjI)
    apply (rule h0)
    apply (rule h1)
    apply (rule h2)
    using run apply simp
    apply (rule w)
    done
qed

section \<open>Properties of the glossary lookup\<close>

lemma Object_prototype_names: "(k, v) \<in> set Object_prototype \<Longrightarrow> 7 \<le> length k"
  by (auto simp: Object_prototype_def js_def)

lemma Object_prototype_short: "length k < 7 \<Longrightarrow> map_of Object_prototype k = None"
proof -
  assume "length k < 7"
  then have "k \<notin> fst ` set Object_prototype"
    using Object_prototype_names by fastforce
  then show ?thesis by (simp add: map_of_eq_None_iff)
qed

lemma get_property_short:
  "length k < 7 \<Longrightarrow> map_of obj k = None \<Longrightarrow> get_property Object_prototype obj k = None"
  by (simp add: get_property_def Object_prototype_short)

lemma get_property_own:
  "map_of obj k = Some v \<Longrightarrow> get_property prototype obj k = Some (Str v)"
  by (simp add: get_property_def)

lemma get_property_inherited:
  "map_of obj k = None \<Longrightarrow> get_property prototype obj k = map_of prototype k"
  by (simp add: get_property_def)

lemma lookup_a: "get_property Object_prototype (glossary custom_industry) (js ''a'') = None"
  by (rule get_property_short) (simp_all add: js_def custom_industry_def)

section \<open>Properties of the translation run\<close>

lemma process_batches_append:
  "process_batches provider parse apiKey sourceLang targetLang industry onProgress totalItems
       pre tbl completed st = (Inr tbl', st') \<Longrightarrow>
   process_batches provider parse apiKey sourceLang targetLang industry onProgress totalItems
       (pre @ rest) tbl completed st =
     process_batches provider parse apiKey sourceLang targetLang industry onProgress totalItems
       rest tbl' (completed + sum_list (map (\<lambda>b. length (texts b)) pre)) st'"
proof (induction pre arbitrary: tbl completed st)
  case Nil
  then show ?case by simp
next
  case (Cons b pre)
  show ?case
  proof (cases "translateBatch provider parse apiKey b sourceLang targetLang industry (fst st)")
    case (Pair r h)
    show ?thesis
    proof (cases r)
      case (Inl err)
      with Pair Cons.prems show ?thesis by simp
    next
      case (Inr bt)
      show ?thesis
      proof (cases "call_progress onProgress (completed + length (texts b)) totalItems (snd st)")
        case cp: (Pair e s)
        show ?thesis
        proof (cases e)
          case (Some err)
          with Pair Inr cp Cons.prems show ?thesis by simp
        next
          case None
          with Pair Inr cp Cons.prems Cons.IH show ?thesis
            by (simp add: Let_def add.assoc)
        qed
      qed
    qed
  qed
qed

lemma process_batches_fail:
  "translateBatch provider parse apiKey batch sourceLang targetLang industry (fst st) = (Inl err, h) \<Longrightarrow>
   process_batches provider parse apiKey sourceLang targetLang industry onProgress totalItems
       (batch # rest) tbl completed st = (Inl err, h, snd st)"
  by simp

text \<open>
  Claim C3. When a run of \<open>translateTexts\<close> reaches a batch (the progress callback has
  not thrown and the batches before it have succeeded) and all three attempts of that
  batch fail, \<open>translateTexts\<close> rejects with the error of the last attempt. It returns
  no table, so no text of the failed batch reaches the caller in one.
\<close>

theorem translateTexts_exhausted_retries:
  assumes "remaining_items prototype industry items \<noteq> []"
    and "call_progress onProgress
           (length items - length (remaining_items prototype industry items)) (length items) cb
         = (None, cb1)"
    and "batch_loop (remaining_items prototype industry items) 0 = pre @ batch # post"
    and "process_batches provider parse apiKey sourceLang targetLang industry onProgress
           (length items) pre (glossary_matches prototype industry items)
           (length items - length (remaining_items prototype industry items)) (h, cb1)
         = (Inr tbl, h', cb')"
    and "\<forall>j<MAX_RETRIES. handle_response parse batch
           (provider (h' @ failed_attempts
              (batch_request apiKey batch sourceLang targetLang industry) j)
              (batch_request apiKey batch sourceLang targetLang industry)) = Inl (errs j)"
  shows "translateTexts prototype provider parse items sourceLang targetLang industry apiKey onProgress
           (h, cb)
         = (Inl (errs (MAX_RETRIES - 1)),
            h' @ failed_attempts
                (batch_request apiKey batch sourceLang targetLang industry) (MAX_RETRIES - 1)
              @ [ProviderCall (batch_request apiKey batch sourceLang targetLang industry)],
            cb')
       \<and> (\<forall>table. fst (translateTexts prototype provider parse items sourceLang targetLang industry
                          apiKey onProgress (h, cb)) \<noteq> Inr table)"
proof -
  let ?req = "batch_request apiKey batch sourceLang targetLang industry"
  have tb: "translateBatch provider parse apiKey batch sourceLang targetLang industry h' =
      (Inl (errs (MAX_RETRIES - 1)),
       h' @ failed_attempts ?req (MAX_RETRIES - 1) @ [ProviderCall ?req])"
    using assms(5) by (rule translateBatch_all_fail)
  have "process_batches provider parse apiKey sourceLang targetLang industry onProgress
           (length items) (pre @ batch # post) (glossary_matches prototype industry items)
           (length items - length (remaining_items prototype industry items)) (h, cb1)
        = (Inl (errs (MAX_RETRIES - 1)),
           h' @ failed_attempts ?req (MAX_RETRIES - 1) @ [ProviderCall ?req], cb')"
    unfolding process_batches_append [OF assms(4)]
    using process_batches_fail [of provider parse apiKey batch sourceLang targetLang industry
        "(h', cb')", simplified, OF tb]
    by simp
  then have "translateTexts prototype provider parse items sourceLang targetLang industry apiKey onProgress
           (h, cb)
         = (Inl (errs (MAX_RETRIES - 1)),
            h' @ failed_attempts ?req (MAX_RETRIES - 1) @ [ProviderCall ?req], cb')"
    using assms(1,2,3) by (simp add: translateTexts_def)
  then show ?thesis by simp
qed

text \<open>
  One text, no glossary, a provider that throws twice and then answers without text:
  the run rejects with the third error.
\<close>

theorem translateTexts_exhausted_retries_witness:
  "remaining_items Object_prototype custom_industry
      [\<lparr>entry_text = js ''a'', entry_fields = [title], entry_count = 1\<rparr>]
     = [\<lparr>entry_text = js ''a'', entry_fields = [title], entry_count = 1\<rparr>]
   \<and> batch_loop [\<lparr>entry_text = js ''a'', entry_fields = [title], entry_count = 1\<rparr>] 0
     = [\<lparr>texts = [js ''a''], batch_fields = [[title]]\<rparr>]
   \<and> handle_response chars_parser \<lparr>texts = [js ''a''], batch_fields = [[title]]\<rparr>
        (failing_provider
           (failed_attempts (batch_request (js ''key'') \<lparr>texts = [js ''a''], batch_fields = [[title]]\<rparr>
              (js ''bg'') (js ''en'') custom_industry) 0)
           (batch_request (js ''key'') \<lparr>texts = [js ''a''], batch_fields = [[title]]\<rparr>
              (js ''bg'') (js ''en'') custom_industry))
     = Inl (Thrown (js ''overloaded''))
   \<and> handle_response chars_parser \<lparr>texts = [js ''a''], batch_fields = [[title]]\<rparr>
        (failing_provider
           (failed_attempts (batch_request (js ''key'') \<lparr>texts = [js ''a''], batch_fields = [[title]]\<rparr>
              (js ''bg'') (js ''en'') custom_industry) 1)
           (batch_request (js ''key'') \<lparr>texts = [js ''a''], batch_fields = [[title]]\<rparr>
              (js ''bg'') (js ''en'') custom_industry))
     = Inl (Thrown (js ''overloaded''))
   \<and> handle_response chars_parser \<lparr>texts = [js ''a''], batch_fields = [[title]]\<rparr>
        (failing_provider
           (failed_attempts (batch_request (js ''key'') \<lparr>texts = [js ''a''], batch_fields = [[title]]\<rparr>
              (js ''bg'') (js ''en'') custom_industry) 2)
           (batch_request (js ''key'') \<lparr>texts = [js ''a''], batch_fields = [[title]]\<rparr>
              (js ''bg'') (js ''en'') custom_industry))
     = Inl UnexpectedResponseType
   \<and> translateTexts Object_prototype failing_provider chars_parser
        [\<lparr>entry_text = js ''a'', entry_fields = [title], entry_count = 1\<rparr>]
        (js ''bg'') (js ''en'') custom_industry (js ''key'') None ([], ())
     = (Inl UnexpectedResponseType,
        failed_attempts (batch_request (js ''key'') \<lparr>texts = [js ''a''], batch_fields = [[title]]\<rparr>
              (js ''bg'') (js ''en'') custom_industry) 2
          @ [ProviderCall (batch_request (js ''key'') \<lparr>texts = [js ''a''], batch_fields = [[title]]\<rparr>
              (js ''bg'') (js ''en'') custom_industry)],
        ())"
proof -
  let ?items = "[\<lparr>entry_text = js ''a'', entry_fields = [title], entry_count = 1\<rparr>]"
  let ?b = "\<lparr>texts = [js ''a''], batch_fields = [[title]]\<rparr>"
  let ?req = "batch_request (js ''key'') ?b (js ''bg'') (js ''en'') custom_industry"
  let ?errs = "\<lambda>j::nat. if j = 2 then UnexpectedResponseType else Thrown (js ''overloaded'')"
  have rem: "remaining_items Object_prototype custom_industry ?items = ?items"
    by (simp add: remaining_items_def glossary_matches_def glossary_step_def lookup_a map_has_def)
  have bl: "batch_loop ?items 0 = [?b]"
    by (subst batch_loop.simps, subst batch_loop.simps) (simp add: slice_def BATCH_SIZE_def)
  have h0: "handle_response chars_parser ?b (failing_provider (failed_attempts ?req 0) ?req)
      = Inl (Thrown (js ''overloaded''))"
    by (simp add: failed_attempts_simps failing_provider_def handle_response_def)
  have h1: "handle_response chars_parser ?b (failing_provider (failed_attempts ?req 1) ?req)
      = Inl (Thrown (js ''overloaded''))"
    by (simp add: failed_attempts_numeral failing_provider_def handle_response_def)
  have h2: "handle_response chars_parser ?b (failing_provider (failed_attempts ?req 2) ?req)
      = Inl UnexpectedResponseType"
    by (simp add: failed_attempts_numeral failing_provider_def handle_response_def)
  have fails: "\<forall>j<MAX_RETRIES. handle_response chars_parser ?b
      (failing_provider ([] @ failed_attempts ?req j) ?req) = Inl (?errs j)"
  proof (intro allI impI)
    fix j :: nat assume "j < MAX_RETRIES"
    then have "j = 0 \<or> j = 1 \<or> j = 2" by (auto simp: MAX_RETRIES_def)
    then show "handle_response chars_parser ?b
      (failing_provider ([] @ failed_attempts ?req j) ?req) = Inl (?errs j)"
      using h0 h1 h2 by auto
  qed
  have a1: "remaining_items Object_prototype custom_industry ?items \<noteq> []" unfolding rem by simp
  have a2: "call_progress None
      (length ?items - length (remaining_items Object_prototype custom_industry ?items)) (length ?items) ()
      = (None, ())"
    by (simp add: call_progress_def)
  have a3: "batch_loop (remaining_items Object_prototype custom_industry ?items) 0 = [] @ ?b # []"
    unfolding rem bl by simp
  have a4: "process_batches failing_provider chars_parser (js ''key'') (js ''bg'') (js ''en'')
      custom_industry None (length ?items) [] (glossary_matches Object_prototype custom_industry ?items)
      (length ?items - length (remaining_items Object_prototype custom_industry ?items)) ([], ())
      = (Inr (glossary_matches Object_prototype custom_industry ?items), [], ())"
    by simp
  have run: "translateTexts Object_prototype failing_provider chars_parser ?items (js ''bg'') (js ''en'')
      custom_industry (js ''key'') None ([], ())
     = (Inl UnexpectedResponseType, failed_attempts ?req 2 @ [ProviderCall ?req], ())"
    using translateTexts_exhausted_retries [OF a1 a2 a3 a4 fails, THEN conjunct1]
    by (simp add: MAX_RETRIES_def)
  show ?thesis
    apply (intro conjI)
    apply (rule rem)
    apply (rule bl)
    apply (rule h0)
    apply (rule h1)
    apply (rule h2)
    apply (rule run)
    done
qed

declare batch_loop.simps [simp del]

lemma ceil_step:
  assumes "i < (n::nat)"
  shows "Suc ((n - (i + 40) + 39) div 40) = (n - i + 39) div 40"
proof (cases "n - i \<le> 40")
  case True
  then have "n - (i + 40) = 0" by simp
  moreover have "(n - i + 39) div 40 = 1"
  proof -
    have "40 \<le> n - i + 39" "n - i + 39 < 2 * 40" using assms True by simp_all
    then show ?thesis by (simp add: div_nat_eqI)
  qed
  ultimately show ?thesis by simp
next
  case False
  then have "n - i + 39 = (n - (i + 40) + 39) + 40" by simp
  then show ?thesis by (simp only: div_add_self2)
qed

lemma batch_loop_length:
  "length (batch_loop remaining i) = (length remaining - i + (BATCH_SIZE - 1)) div BATCH_SIZE"
proof (induction remaining i rule: batch_loop.induct)
  case (1 remaining i)
  show ?case
  proof (cases "i < length remaining")
    case True
    have "length (batch_loop remaining i) = Suc (length (batch_loop remaining (i + BATCH_SIZE)))"
      using True by (subst batch_loop.simps) simp
    also have "\<dots> = Suc ((length remaining - (i + BATCH_SIZE) + (BATCH_SIZE - 1)) div BATCH_SIZE)"
      using "1.IH" [OF True] by simp
    also have "\<dots> = (length remaining - i + (BATCH_SIZE - 1)) div BATCH_SIZE"
      using ceil_step [OF True] unfolding BATCH_SIZE_def by simp
    finally show ?thesis .
  next
    case False
    then show ?thesis by (subst batch_loop.simps) (simp add: BATCH_SIZE_def)
  qed
qed

lemma batch_loop_nth:
  "k < length (batch_loop remaining i) \<Longrightarrow>
   batch_loop remaining i ! k =
     \<lparr>texts = map entry_text (take BATCH_SIZE (drop (i + k * BATCH_SIZE) remaining)),
      batch_fields = map entry_fields (take BATCH_SIZE (drop (i + k * BATCH_SIZE) remaining))\<rparr>"
proof (induction remaining i arbitrary: k rule: batch_loop.induct)
  case (1 remaining i)
  show ?case
  proof (cases "i < length remaining")
    case True
    have eq: "batch_loop remaining i =
        \<lparr>texts = map entry_text (slice remaining i (i + BATCH_SIZE)),
         batch_fields = map entry_fields (slice remaining i (i + BATCH_SIZE))\<rparr>
        # batch_loop remaining (i + BATCH_SIZE)"
      using True by (subst batch_loop.simps) simp
    show ?thesis
    proof (cases k)
      case 0
      then show ?thesis by (simp add: eq slice_def)
    next
      case (Suc k')
      with "1.prems" eq have "k' < length (batch_loop remaining (i + BATCH_SIZE))" by simp
      from "1.IH" [OF True this] Suc show ?thesis
        by (simp add: eq ac_simps)
    qed
  next
    case False
    then have "batch_loop remaining i = []" by (subst batch_loop.simps) simp
    with "1.prems" show ?thesis by simp
  qed
qed

lemma batch_loop_texts:
  "concat (map texts (batch_loop remaining i)) = map entry_text (drop i remaining)"
proof (induction remaining i rule: batch_loop.induct)
  case (1 remaining i)
  show ?case
  proof (cases "i < length remaining")
    case True
    have "concat (map texts (batch_loop remaining i)) =
        map entry_text (take BATCH_SIZE (drop i remaining))
        @ concat (map texts (batch_loop remaining (i + BATCH_SIZE)))"
      using True by (subst batch_loop.simps) (simp add: slice_def)
    also have "\<dots> = map entry_text (take BATCH_SIZE (drop i remaining))
        @ map entry_text (drop BATCH_SIZE (drop i remaining))"
      using "1.IH" [OF True] by (simp add: add.commute)
    also have "\<dots> = map entry_text (drop i remaining)"
      by (metis append_take_drop_id map_append)
    finally show ?thesis .
  next
    case False
    then show ?thesis by (subst batch_loop.simps) simp
  qed
qed

lemma batch_loop_full:
  assumes "Suc k < length (batch_loop remaining 0)"
  shows "length (texts (batch_loop remaining 0 ! k)) = BATCH_SIZE"
proof -
  from assms have "Suc k < (length remaining + (BATCH_SIZE - 1)) div BATCH_SIZE"
    by (simp add: batch_loop_length)
  then have "Suc (Suc k) \<le> (length remaining + 39) div 40"
    unfolding BATCH_SIZE_def by simp
  then have "Suc (Suc k) * 40 \<le> length remaining + 39"
    by (simp only: less_eq_div_iff_mult_less_eq [of 40, simplified])
  then have "(k + 1) * BATCH_SIZE < length remaining"
    unfolding BATCH_SIZE_def by simp
  then have "BATCH_SIZE \<le> length (drop (k * BATCH_SIZE) remaining)"
    by simp
  moreover have "k < length (batch_loop remaining 0)" using assms by simp
  ultimately show ?thesis by (simp add: batch_loop_nth)
qed

lemma map_set_keys: "fst ` set (map_set m k v) = insert k (fst ` set m)"
  using arg_cong [OF map_fst_map_set [of m k v], of set] by (auto split: if_splits)

lemma merge_keys:
  "fst ` set (foldl (\<lambda>m (k, v). map_set m k v) m0 kvs) = fst ` set m0 \<union> fst ` set kvs"
proof (induction kvs arbitrary: m0)
  case Nil
  show ?case by simp
next
  case (Cons kv kvs)
  obtain k v where kv: "kv = (k, v)" by (cases kv)
  show ?case using Cons [of "map_set m0 k v"] by (simp add: kv map_set_keys)
qed

lemma merge_str_keys:
  "fst ` set (foldl (\<lambda>m (k, v). map_set m k (Str v)) m0 kvs) = fst ` set m0 \<union> fst ` set kvs"
proof (induction kvs arbitrary: m0)
  case Nil
  show ?case by simp
next
  case (Cons kv kvs)
  obtain k v where kv: "kv = (k, v)" by (cases kv)
  show ?case using Cons [of "map_set m0 k (Str v)"] by (simp add: kv map_set_keys)
qed

lemma handle_response_keys:
  assumes "handle_response parse batch outcome = Inr res"
  shows "fst ` set res = set (texts batch)"
proof -
  from assms obtain translated where l: "length translated = length (texts batch)"
    and res: "res = foldl (\<lambda>result (original, tr). map_set result original tr) []
                     (zip (texts batch) translated)"
    by (auto simp: handle_response_def split: api_outcome.splits list.splits
        content_block.splits sum.splits if_splits)
  have "fst ` set (zip (texts batch) translated) = set (texts batch)"
    using l by (metis map_fst_zip set_map)
  then show ?thesis unfolding res merge_keys by simp
qed

lemma translateBatch_first_attempt:
  assumes "handle_response parse batch
      (provider h (batch_request apiKey batch sourceLang targetLang industry)) = Inr res"
  shows "translateBatch provider parse apiKey batch sourceLang targetLang industry h =
      (Inr res, h @ [ProviderCall (batch_request apiKey batch sourceLang targetLang industry)])"
  unfolding translateBatch_def
  by (rule retry_success) (simp_all add: MAX_RETRIES_def assms)

lemma process_batches_all_succeed:
  assumes ok: "\<forall>h r. \<exists>res. handle_response parse (req_batch r) (provider h r) = Inr res"
    and cb: "\<forall>a b s. fst (call_progress onProgress a b s) = None"
  shows "\<exists>tbl' cb'.
      process_batches provider parse apiKey sourceLang targetLang industry onProgress totalItems
        batches tbl completed (h, s)
      = (Inr tbl',
         h @ map (\<lambda>b. ProviderCall (batch_request apiKey b sourceLang targetLang industry)) batches,
         cb')
      \<and> fst ` set tbl' = fst ` set tbl \<union> set (concat (map texts batches))"
proof (induction batches arbitrary: tbl completed h s)
  case Nil
  show ?case by simp
next
  case (Cons b batches)
  let ?req = "batch_request apiKey b sourceLang targetLang industry"
  from ok obtain res where res: "handle_response parse b (provider h ?req) = Inr res"
    by (metis req_batch_batch_request)
  have tb: "translateBatch provider parse apiKey b sourceLang targetLang industry h =
      (Inr res, h @ [ProviderCall ?req])"
    using res by (rule translateBatch_first_attempt)
  obtain s1 where cp: "call_progress onProgress (completed + length (texts b)) totalItems s
      = (None, s1)"
    using cb by (metis fst_conv surj_pair)
  let ?tbl1 = "foldl (\<lambda>m (original, translated). map_set m original (Str translated)) tbl res"
  from Cons [of ?tbl1 "completed + length (texts b)" "h @ [ProviderCall ?req]" s1]
  obtain tbl' cb' where
    run: "process_batches provider parse apiKey sourceLang targetLang industry onProgress
        totalItems batches ?tbl1 (completed + length (texts b)) (h @ [ProviderCall ?req], s1)
      = (Inr tbl',
         (h @ [ProviderCall ?req])
           @ map (\<lambda>b. ProviderCall (batch_request apiKey b sourceLang targetLang industry)) batches,
         cb')"
    and keys: "fst ` set tbl' = fst ` set ?tbl1 \<union> set (concat (map texts batches))"
    by blast
  have k1: "fst ` set ?tbl1 = fst ` set tbl \<union> set (texts b)"
    using handle_response_keys [OF res] by (simp add: merge_str_keys)
  have "process_batches provider parse apiKey sourceLang targetLang industry onProgress totalItems
        (b # batches) tbl completed (h, s)
      = (Inr tbl',
         h @ map (\<lambda>b. ProviderCall (batch_request apiKey b sourceLang targetLang industry))
               (b # batches),
         cb')"
    using tb cp run by (simp add: Let_def)
  moreover have "fst ` set tbl' = fst ` set tbl \<union> set (concat (map texts (b # batches)))"
    using keys k1 by auto
  ultimately show ?case by blast
qed

lemma map_has_iff: "map_has m k \<longleftrightarrow> k \<in> fst ` set m"
  by (simp add: map_has_def map_of_eq_None_iff)

lemma translateTexts_all_succeed:
  assumes ok: "\<forall>h r. \<exists>res. handle_response parse (req_batch r) (provider h r) = Inr res"
    and cb: "\<forall>a b s. fst (call_progress onProgress a b s) = None"
  shows "\<exists>tbl cb'.
      translateTexts prototype provider parse items sourceLang targetLang industry apiKey onProgress (h, s)
      = (Inr tbl,
         h @ map (\<lambda>b. ProviderCall (batch_request apiKey b sourceLang targetLang industry))
               (batch_loop (remaining_items prototype industry items) 0),
         cb')
      \<and> (\<forall>e \<in> set items. map_has tbl (entry_text e))"
proof (cases "remaining_items prototype industry items = []")
  case True
  obtain s1 where cp: "call_progress onProgress (length items) (length items) s = (None, s1)"
    using cb by (metis fst_conv surj_pair)
  have bl: "batch_loop (remaining_items prototype industry items) 0 = []"
    using True by (subst batch_loop.simps) simp
  have all: "\<forall>e \<in> set items. map_has (glossary_matches prototype industry items) (entry_text e)"
    using True by (auto simp: remaining_items_def filter_empty_conv)
  show ?thesis using True cp bl all by (simp add: translateTexts_def)
next
  case False
  let ?rem = "remaining_items prototype industry items"
  obtain s1 where cp: "call_progress onProgress (length items - length ?rem) (length items) s
      = (None, s1)"
    using cb by (metis fst_conv surj_pair)
  from process_batches_all_succeed [OF ok cb, of apiKey sourceLang targetLang industry
      "length items" "batch_loop ?rem 0" "glossary_matches prototype industry items"
      "length items - length ?rem" h s1]
  obtain tbl cb' where
    run: "process_batches provider parse apiKey sourceLang targetLang industry onProgress
        (length items) (batch_loop ?rem 0) (glossary_matches prototype industry items)
        (length items - length ?rem) (h, s1)
      = (Inr tbl,
         h @ map (\<lambda>b. ProviderCall (batch_request apiKey b sourceLang targetLang industry))
               (batch_loop ?rem 0),
         cb')"
    and keys: "fst ` set tbl = fst ` set (glossary_matches prototype industry items)
        \<union> set (concat (map texts (batch_loop ?rem 0)))"
    by blast
  have "\<forall>e \<in> set items. map_has tbl (entry_text e)"
  proof
    fix e assume e: "e \<in> set items"
    show "map_has tbl (entry_text e)"
    proof (cases "map_has (glossary_matches prototype industry items) (entry_text e)")
      case True
      then show ?thesis using keys by (simp add: map_has_iff)
    next
      case False
      with e have "e \<in> set ?rem" by (simp add: remaining_items_def)
      then have "entry_text e \<in> set (concat (map texts (batch_loop ?rem 0)))"
        unfolding batch_loop_texts by simp
      then show ?thesis using keys by (simp add: map_has_iff)
    qed
  qed
  then show ?thesis using False cp run by (simp add: translateTexts_def)
qed


lemma x_literal: "js ''x'' = [0x78]" "js ''a'' = [0x61]"
  by (simp_all add: js_def)

lemma echo_response:
  "handle_response chars_parser (req_batch r) (echo_provider h r)
     = Inr (foldl (\<lambda>result (original, tr). map_set result original tr) []
              (zip (texts (req_batch r))
                 (map (\<lambda>c. [c]) (replicate (length (texts (req_batch r))) 0x78))))"
proof -
  let ?t = "replicate (length (texts (req_batch r))) (0x78 :: 16 word)"
  have ws: "\<not> is_js_whitespace 0x78" by (simp add: is_js_whitespace_def)
  have tr: "trim ?t = ?t" by (simp add: trim_def ws)
  have "take 3 ?t \<noteq> fence"
  proof
    assume "take 3 ?t = fence"
    then have "set (take 3 ?t) = set fence" by simp
    moreover have "set (take 3 ?t) \<subseteq> {0x78}" by (auto dest: in_set_takeD)
    ultimately show False by (auto simp: fence_def)
  qed
  then have sf: "strip_code_fence ?t = ?t" by (simp add: strip_code_fence_def)
  show ?thesis
    by (simp add: handle_response_def echo_provider_def tr sf chars_parser_def)
qed

lemma flaky_batch_run:
  "translateBatch flaky_provider chars_parser (js ''key'')
      \<lparr>texts = [js ''a''], batch_fields = [[title]]\<rparr> (js ''bg'') (js ''en'') custom_industry []
   = (Inr [(js ''a'', js ''x'')],
      [ProviderCall (batch_request (js ''key'') \<lparr>texts = [js ''a''], batch_fields = [[title]]\<rparr>
         (js ''bg'') (js ''en'') custom_industry), Sleep 2000,
       ProviderCall (batch_request (js ''key'') \<lparr>texts = [js ''a''], batch_fields = [[title]]\<rparr>
         (js ''bg'') (js ''en'') custom_industry), Sleep 4000,
       ProviderCall (batch_request (js ''key'') \<lparr>texts = [js ''a''], batch_fields = [[title]]\<rparr>
         (js ''bg'') (js ''en'') custom_industry)])"
proof -
  let ?b = "\<lparr>texts = [js ''a''], batch_fields = [[title]]\<rparr>"
  let ?req = "batch_request (js ''key'') ?b (js ''bg'') (js ''en'') custom_industry"
  have h0: "handle_response chars_parser (req_batch ?req) (flaky_provider [] ?req)
      = Inl (Thrown (js ''overloaded''))"
    by (simp add: flaky_provider_def handle_response_def)
  have h1: "handle_response chars_parser (req_batch ?req)
      (flaky_provider ([] @ [ProviderCall ?req, Sleep (2000 * (0 + 1))]) ?req)
      = Inl UnexpectedResponseType"
    by (simp add: flaky_provider_def handle_response_def)
  have h2: "handle_response chars_parser (req_batch ?req)
      (flaky_provider (([] @ [ProviderCall ?req, Sleep (2000 * (0 + 1))])
          @ [ProviderCall ?req, Sleep (2000 * (0 + 1 + 1))]) ?req)
      = Inr [(js ''a'', js ''x'')]"
    using echo_response [of ?req "([] @ [ProviderCall ?req, Sleep (2000 * (0 + 1))])
          @ [ProviderCall ?req, Sleep (2000 * (0 + 1 + 1))]"]
    by (simp add: flaky_provider_def x_literal)
  have "retry_loop flaky_provider chars_parser ?req 0 None []
      = retry_loop flaky_provider chars_parser ?req (0 + 1) (Some (Thrown (js ''overloaded'')))
          ([] @ [ProviderCall ?req, Sleep (2000 * (0 + 1))])"
    by (rule retry_failure [where provider = flaky_provider and history = "[]", OF _ h0])
      (simp add: MAX_RETRIES_def)
  also have "\<dots> = retry_loop flaky_provider chars_parser ?req (0 + 1 + 1)
          (Some UnexpectedResponseType)
          (([] @ [ProviderCall ?req, Sleep (2000 * (0 + 1))])
             @ [ProviderCall ?req, Sleep (2000 * (0 + 1 + 1))])"
    by (rule retry_failure [where provider = flaky_provider
          and history = "[] @ [ProviderCall ?req, Sleep (2000 * (0 + 1))]", OF _ h1])
      (simp add: MAX_RETRIES_def)
  also have "\<dots> = (Inr [(js ''a'', js ''x'')],
          (([] @ [ProviderCall ?req, Sleep (2000 * (0 + 1))])
             @ [ProviderCall ?req, Sleep (2000 * (0 + 1 + 1))]) @ [ProviderCall ?req])"
    by (rule retry_success [where provider = flaky_provider
          and history = "([] @ [ProviderCall ?req, Sleep (2000 * (0 + 1))])
             @ [ProviderCall ?req, Sleep (2000 * (0 + 1 + 1))]", OF _ h2])
      (simp add: MAX_RETRIES_def)
  finally show ?thesis by (simp add: translateBatch_def)
qed

lemma flaky_run:
  "translateTexts Object_prototype flaky_provider chars_parser
      [\<lparr>entry_text = js ''a'', entry_fields = [title], entry_count = 1\<rparr>]
      (js ''bg'') (js ''en'') custom_industry (js ''key'') None ([], ())
   = (Inr [(js ''a'', Str (js ''x''))],
      [ProviderCall (batch_request (js ''key'') \<lparr>texts = [js ''a''], batch_fields = [[title]]\<rparr>
         (js ''bg'') (js ''en'') custom_industry), Sleep 2000,
       ProviderCall (batch_request (js ''key'') \<lparr>texts = [js ''a''], batch_fields = [[title]]\<rparr>
         (js ''bg'') (js ''en'') custom_industry), Sleep 4000,
       ProviderCall (batch_request (js ''key'') \<lparr>texts = [js ''a''], batch_fields = [[title]]\<rparr>
         (js ''bg'') (js ''en'') custom_industry)],
      ())"
proof -
  let ?items = "[\<lparr>entry_text = js ''a'', entry_fields = [title], entry_count = 1\<rparr>]"
  let ?b = "\<lparr>texts = [js ''a''], batch_fields = [[title]]\<rparr>"
  have rem: "remaining_items Object_prototype custom_industry ?items = ?items"
    by (simp add: remaining_items_def glossary_matches_def glossary_step_def lookup_a
        map_has_def)
  have gm: "glossary_matches Object_prototype custom_industry ?items = []"
    by (simp add: glossary_matches_def glossary_step_def lookup_a)
  have bl: "batch_loop ?items 0 = [?b]"
    by (subst batch_loop.simps, subst batch_loop.simps) (simp add: slice_def BATCH_SIZE_def)
  show ?thesis
    unfolding translateTexts_def Let_def rem gm bl
    by (simp add: call_progress_def flaky_batch_run)
qed


lemma glossary_fold:
  "map_of (foldl (glossary_step prototype industry) m items) k =
     (if k \<in> entry_text ` set items then
        (case get_property prototype (glossary industry) k of
           Some v \<Rightarrow> if truthy v then Some v else map_of m k
         | None \<Rightarrow> map_of m k)
      else map_of m k)"
proof (induction items arbitrary: m)
  case Nil
  show ?case by simp
next
  case (Cons e items)
  show ?case
    unfolding foldl_Cons Cons.IH
    by (auto simp: glossary_step_def map_of_map_set split: option.splits)
qed

lemma glossary_matches_lookup:
  "map_of (glossary_matches prototype industry items) k =
     (if k \<in> entry_text ` set items then
        (case get_property prototype (glossary industry) k of
           Some v \<Rightarrow> if truthy v then Some v else None
         | None \<Rightarrow> None)
      else None)"
  by (simp add: glossary_matches_def glossary_fold split: option.splits)

lemma glossary_matches_own:
  assumes "map_of (glossary industry) k \<noteq> None \<or> map_of prototype k = None"
  shows "map_of (glossary_matches prototype industry items) k =
     (if k \<in> entry_text ` set items then
        (case map_of (glossary industry) k of
           Some v \<Rightarrow> if v \<noteq> [] then Some (Str v) else None
         | None \<Rightarrow> None)
      else None)"
  using assms
  by (auto simp: glossary_matches_lookup get_property_def split: option.splits)

lemma hit_not_remaining:
  assumes "map_of (glossary industry) t = Some v" "v \<noteq> []"
  shows "t \<notin> entry_text ` set (remaining_items prototype industry items)"
  using assms
  by (auto simp: remaining_items_def map_has_def glossary_matches_lookup get_property_def)

lemma miss_remaining:
  assumes "e \<in> set items"
    and "map_of (glossary industry) (entry_text e) = Some []
         \<or> (map_of (glossary industry) (entry_text e) = None
             \<and> map_of prototype (entry_text e) = None)"
  shows "e \<in> set (remaining_items prototype industry items)"
  using assms
  by (auto simp: remaining_items_def map_has_def glossary_matches_lookup get_property_def)

lemma glossary_matches_remaining:
  "glossary_matches prototype industry (remaining_items prototype industry items) = []"
proof -
  let ?rem = "remaining_items prototype industry items"
  have step: "glossary_step prototype industry [] e = []" if "e \<in> set ?rem" for e
  proof -
    from that have "e \<in> set items"
      and "map_of (glossary_matches prototype industry items) (entry_text e) = None"
      by (simp_all add: remaining_items_def map_has_def)
    then show ?thesis
      by (auto simp: glossary_matches_lookup glossary_step_def split: option.splits if_splits)
  qed
  have "foldl (glossary_step prototype industry) [] es = []" if "set es \<subseteq> set ?rem" for es
    using that by (induction es) (simp_all add: step)
  then show ?thesis by (simp add: glossary_matches_def)
qed

lemma remaining_items_idem:
  "remaining_items prototype industry (remaining_items prototype industry items)
     = remaining_items prototype industry items"
proof -
  let ?rem = "remaining_items prototype industry items"
  have "remaining_items prototype industry ?rem
      = filter (\<lambda>t. \<not> map_has (glossary_matches prototype industry ?rem) (entry_text t)) ?rem"
    by (rule remaining_items_def)
  also have "\<dots> = ?rem"
    unfolding glossary_matches_remaining by (simp add: map_has_def)
  finally show ?thesis .
qed

lemma merge_str_lookup:
  "t \<notin> fst ` set kvs \<Longrightarrow>
   map_of (foldl (\<lambda>m (k, v). map_set m k (Str v)) m0 kvs) t = map_of m0 t"
proof (induction kvs arbitrary: m0)
  case Nil
  show ?case by simp
next
  case (Cons kv kvs)
  obtain k v where kv: "kv = (k, v)" by (cases kv)
  from Cons.prems kv have "t \<noteq> k" "t \<notin> fst ` set kvs" by auto
  then show ?case using Cons.IH [of "map_set m0 k (Str v)"] by (simp add: kv map_of_map_set)
qed

lemma retry_loop_result:
  "retry_loop provider parse req attempt lastError h = (Inr res, h') \<Longrightarrow>
   \<exists>h0. handle_response parse (req_batch req) (provider h0 req) = Inr res"
proof (induction provider parse req attempt lastError h rule: retry_loop.induct)
  case (1 provider parse req attempt lastError history)
  show ?case
  proof (cases "attempt < MAX_RETRIES")
    case False
    with "1.prems" show ?thesis by (simp add: retry_done)
  next
    case True
    show ?thesis
    proof (cases "handle_response parse (req_batch req) (provider history req)")
      case (Inr r)
      with True "1.prems" have "r = res" by (simp add: retry_success)
      with Inr show ?thesis by blast
    next
      case (Inl err)
      have "retry_loop provider parse req attempt lastError history =
          retry_loop provider parse req (attempt + 1) (Some err)
               (if attempt < MAX_RETRIES - 1
                then history @ [ProviderCall req, Sleep (2000 * (attempt + 1))]
                else history @ [ProviderCall req])"
        using True Inl by (subst retry_loop.simps) simp
      with "1.prems" "1.IH" [OF True Inl] show ?thesis by simp
    qed
  qed
qed

lemma retry_loop_calls:
  "\<exists>added. snd (retry_loop provider parse req attempt lastError h) = h @ added
      \<and> set (provider_calls added) \<subseteq> {req}"
proof (induction provider parse req attempt lastError h rule: retry_loop.induct)
  case (1 provider parse req attempt lastError history)
  show ?case
  proof (cases "attempt < MAX_RETRIES")
    case False
    then show ?thesis by (simp add: retry_done)
  next
    case True
    show ?thesis
    proof (cases "handle_response parse (req_batch req) (provider history req)")
      case (Inr r)
      then show ?thesis using True by (simp add: retry_success)
    next
      case (Inl err)
      let ?h1 = "if attempt < MAX_RETRIES - 1
                then history @ [ProviderCall req, Sleep (2000 * (attempt + 1))]
                else history @ [ProviderCall req]"
      have eq: "retry_loop provider parse req attempt lastError history =
          retry_loop provider parse req (attempt + 1) (Some err) ?h1"
        using True Inl by (subst retry_loop.simps) simp
      from "1.IH" [OF True Inl] obtain added where
        a: "snd (retry_loop provider parse req (attempt + 1) (Some err) ?h1) = ?h1 @ added"
        and b: "set (provider_calls added) \<subseteq> {req}"
        by blast
      show ?thesis
      proof (cases "attempt < MAX_RETRIES - 1")
        case True
        with a b eq show ?thesis
          by (intro exI [of _ "[ProviderCall req, Sleep (2000 * (attempt + 1))] @ added"]) simp
      next
        case False
        with a b eq show ?thesis
          by (intro exI [of _ "[ProviderCall req] @ added"]) simp
      qed
    qed
  qed
qed

lemma translateBatch_keys:
  assumes "translateBatch provider parse apiKey batch sourceLang targetLang industry h = (Inr res, h')"
  shows "fst ` set res = set (texts batch)"
proof -
  from assms retry_loop_result obtain h0 where
    "handle_response parse
       (req_batch (batch_request apiKey batch sourceLang targetLang industry))
       (provider h0 (batch_request apiKey batch sourceLang targetLang industry)) = Inr res"
    unfolding translateBatch_def by blast
  then show ?thesis using handle_response_keys by simp
qed

lemma process_batches_keeps:
  "process_batches provider parse apiKey sourceLang targetLang industry onProgress totalItems
       batches tbl completed st = (Inr tbl', st') \<Longrightarrow>
   t \<notin> set (concat (map texts batches)) \<Longrightarrow> map_of tbl' t = map_of tbl t"
proof (induction batches arbitrary: tbl completed st)
  case Nil
  then show ?case by simp
next
  case (Cons b batches)
  obtain r h1 where tb: "translateBatch provider parse apiKey b sourceLang targetLang industry
      (fst st) = (r, h1)"
    by (cases "translateBatch provider parse apiKey b sourceLang targetLang industry (fst st)")
  show ?case
  proof (cases r)
    case (Inl err)
    with tb Cons.prems show ?thesis by simp
  next
    case (Inr res)
    obtain e s1 where cp: "call_progress onProgress (completed + length (texts b)) totalItems
        (snd st) = (e, s1)"
      by (cases "call_progress onProgress (completed + length (texts b)) totalItems (snd st)")
    let ?tbl1 = "foldl (\<lambda>m (original, translated). map_set m original (Str translated)) tbl res"
    show ?thesis
    proof (cases e)
      case (Some err)
      with tb Inr cp Cons.prems show ?thesis by simp
    next
      case None
      with tb Inr cp Cons.prems(1) have run:
        "process_batches provider parse apiKey sourceLang targetLang industry onProgress
           totalItems batches ?tbl1 (completed + length (texts b)) (h1, s1) = (Inr tbl', st')"
        by (simp add: Let_def)
      from Cons.prems(2) have nb: "t \<notin> set (texts b)"
        and nr: "t \<notin> set (concat (map texts batches))" by auto
      have "fst ` set res = set (texts b)"
        using tb unfolding Inr by (rule translateBatch_keys)
      with nb have "map_of ?tbl1 t = map_of tbl t" by (simp add: merge_str_lookup)
      with Cons.IH [OF run nr] show ?thesis by simp
    qed
  qed
qed

lemma process_batches_calls:
  "\<exists>added. fst (snd (process_batches provider parse apiKey sourceLang targetLang industry
                      onProgress totalItems batches tbl completed (h, s))) = h @ added
      \<and> (\<forall>r \<in> set (provider_calls added). req_batch r \<in> set batches)"
proof (induction batches arbitrary: tbl completed h s)
  case Nil
  show ?case by simp
next
  case (Cons b batches)
  let ?req = "batch_request apiKey b sourceLang targetLang industry"
  obtain r h1 where tb: "translateBatch provider parse apiKey b sourceLang targetLang industry
      h = (r, h1)"
    by (cases "translateBatch provider parse apiKey b sourceLang targetLang industry h")
  from retry_loop_calls [of provider parse ?req 0 None h] tb
  obtain added1 where a1: "h1 = h @ added1" and c1: "set (provider_calls added1) \<subseteq> {?req}"
    by (auto simp: translateBatch_def)
  have c1': "\<forall>r \<in> set (provider_calls added1). req_batch r \<in> set (b # batches)"
    using c1 by auto
  show ?case
  proof (cases r)
    case (Inl err)
    with tb a1 c1' show ?thesis by (intro exI [of _ added1]) simp
  next
    case (Inr res)
    obtain e s1 where cp: "call_progress onProgress (completed + length (texts b)) totalItems s
        = (e, s1)"
      by (cases "call_progress onProgress (completed + length (texts b)) totalItems s")
    let ?tbl1 = "foldl (\<lambda>m (original, translated). map_set m original (Str translated)) tbl res"
    show ?thesis
    proof (cases e)
      case (Some err)
      with tb Inr cp a1 c1' show ?thesis by (intro exI [of _ added1]) simp
    next
      case None
      from Cons [of ?tbl1 "completed + length (texts b)" h1 s1]
      obtain added2 where a2: "fst (snd (process_batches provider parse apiKey sourceLang
            targetLang industry onProgress totalItems batches ?tbl1
            (completed + length (texts b)) (h1, s1))) = h1 @ added2"
        and c2: "\<forall>r \<in> set (provider_calls added2). req_batch r \<in> set batches"
        by blast
      have "fst (snd (process_batches provider parse apiKey sourceLang targetLang industry
            onProgress totalItems (b # batches) tbl completed (h, s))) = h @ (added1 @ added2)"
        using tb Inr cp None a1 a2 by (simp add: Let_def)
      moreover have "\<forall>r \<in> set (provider_calls (added1 @ added2)).
          req_batch r \<in> set (b # batches)"
        using c1' c2 by auto
      ultimately show ?thesis by blast
    qed
  qed
qed

lemma process_batches_history:
  assumes cb: "\<forall>a b s. fst (call_progress onProgress a b s) = None"
  shows "fst (snd (process_batches provider parse apiKey sourceLang targetLang industry
                     onProgress totalItems batches tbl completed (h, s)))
       = fst (snd (process_batches provider parse apiKey sourceLang targetLang industry
                     onProgress totalItems' batches tbl' completed' (h, s')))"
proof (induction batches arbitrary: tbl tbl' completed completed' h s s')
  case Nil
  show ?case by simp
next
  case (Cons b batches)
  obtain r h1 where tb: "translateBatch provider parse apiKey b sourceLang targetLang industry
      h = (r, h1)"
    by (cases "translateBatch provider parse apiKey b sourceLang targetLang industry h")
  show ?case
  proof (cases r)
    case (Inl err)
    with tb show ?thesis by simp
  next
    case (Inr res)
    obtain s1 where cp: "call_progress onProgress (completed + length (texts b)) totalItems s
        = (None, s1)"
      using cb by (metis fst_conv surj_pair)
    obtain s1' where cp': "call_progress onProgress (completed' + length (texts b)) totalItems' s'
        = (None, s1')"
      using cb by (metis fst_conv surj_pair)
    show ?thesis
      using tb Inr cp cp' Cons.IH by (simp add: Let_def)
  qed
qed

lemma translateTexts_no_misses:
  "remaining_items prototype industry items = [] \<Longrightarrow>
   translateTexts prototype provider parse items sourceLang targetLang industry apiKey onProgress (h, s) =
     (case call_progress onProgress (length items) (length items) s of
        (Some err, s') \<Rightarrow> (Inl err, h, s')
      | (None, s') \<Rightarrow> (Inr (glossary_matches prototype industry items), h, s'))"
  by (simp add: translateTexts_def split: prod.splits option.splits)

lemma translateTexts_misses:
  "remaining_items prototype industry items \<noteq> [] \<Longrightarrow>
   translateTexts prototype provider parse items sourceLang targetLang industry apiKey onProgress (h, s) =
     (case call_progress onProgress
             (length items - length (remaining_items prototype industry items)) (length items) s of
        (Some err, s') \<Rightarrow> (Inl err, h, s')
      | (None, s') \<Rightarrow>
          process_batches provider parse apiKey sourceLang targetLang industry onProgress
            (length items) (batch_loop (remaining_items prototype industry items) 0)
            (glossary_matches prototype industry items)
            (length items - length (remaining_items prototype industry items)) (h, s'))"
  by (simp add: translateTexts_def Let_def split: prod.splits option.splits)

lemma translateTexts_calls:
  "\<exists>added. fst (snd (translateTexts prototype provider parse items sourceLang targetLang industry apiKey
                      onProgress (h, s))) = h @ added
      \<and> (\<forall>r \<in> set (provider_calls added).
            req_batch r \<in> set (batch_loop (remaining_items prototype industry items) 0))"
proof -
  let ?rem = "remaining_items prototype industry items"
  obtain e s0 where cp0: "call_progress onProgress (length items) (length items) s = (e, s0)"
    by (cases "call_progress onProgress (length items) (length items) s")
  obtain e1 s1 where cp1: "call_progress onProgress (length items - length ?rem) (length items) s
      = (e1, s1)"
    by (cases "call_progress onProgress (length items - length ?rem) (length items) s")
  show ?thesis
  proof (cases "?rem = []")
    case True
    then show ?thesis using cp0
      by (intro exI [of _ "[]"]) (simp add: translateTexts_def split: option.splits)
  next
    case False
    show ?thesis
    proof (cases e1)
      case (Some err)
      then show ?thesis using False cp1
        by (intro exI [of _ "[]"]) (simp add: translateTexts_def)
    next
      case None
      from process_batches_calls [of provider parse apiKey sourceLang targetLang industry
          onProgress "length items" "batch_loop ?rem 0" "glossary_matches prototype industry items"
          "length items - length ?rem" h s1]
      show ?thesis using False cp1 None by (simp add: translateTexts_def Let_def)
    qed
  qed
qed

lemma translateTexts_keeps_glossary:
  assumes run: "translateTexts prototype provider parse items sourceLang targetLang industry apiKey
      onProgress (h, s) = (Inr tbl, st')"
    and t: "t \<notin> entry_text ` set (remaining_items prototype industry items)"
  shows "map_of tbl t = map_of (glossary_matches prototype industry items) t"
proof -
  let ?rem = "remaining_items prototype industry items"
  show ?thesis
  proof (cases "?rem = []")
    case True
    with run show ?thesis
      unfolding translateTexts_no_misses [OF True]
      by (auto split: prod.splits option.splits)
  next
    case False
    from run obtain s1 where
      pb: "process_batches provider parse apiKey sourceLang targetLang industry onProgress
          (length items) (batch_loop ?rem 0) (glossary_matches prototype industry items)
          (length items - length ?rem) (h, s1) = (Inr tbl, st')"
      unfolding translateTexts_misses [OF False]
      by (auto split: prod.splits option.splits)
    have "t \<notin> set (concat (map texts (batch_loop ?rem 0)))"
      using t unfolding batch_loop_texts by simp
    from process_batches_keeps [OF pb this] show ?thesis .
  qed
qed

lemma translateTexts_history_misses:
  assumes cb: "\<forall>a b s. fst (call_progress onProgress a b s) = None"
  shows "fst (snd (translateTexts prototype provider parse items sourceLang targetLang industry
                     apiKey onProgress (h, s)))
       = fst (snd (translateTexts prototype provider parse
                     (remaining_items prototype industry items) sourceLang targetLang industry
                     apiKey onProgress (h, s)))"
proof -
  let ?rem = "remaining_items prototype industry items"
  show ?thesis
  proof (cases "?rem = []")
    case True
    obtain s1 where cp: "call_progress onProgress (length items) (length items) s = (None, s1)"
      using cb by (metis fst_conv surj_pair)
    obtain s2 where cp2: "call_progress onProgress 0 0 s = (None, s2)"
      using cb by (metis fst_conv surj_pair)
    have "remaining_items prototype industry [] = []" by (simp add: remaining_items_def)
    then show ?thesis
      unfolding True translateTexts_no_misses [OF True] using cp cp2
      by (simp add: translateTexts_no_misses)
  next
    case False
    have ne: "remaining_items prototype industry ?rem \<noteq> []"
      unfolding remaining_items_idem by (rule False)
    obtain s1 where cp: "call_progress onProgress (length items - length ?rem) (length items) s
        = (None, s1)"
      using cb by (metis fst_conv surj_pair)
    obtain s2 where cp2: "call_progress onProgress (length ?rem - length ?rem) (length ?rem) s
        = (None, s2)"
      using cb by (metis fst_conv surj_pair)
    show ?thesis
      unfolding translateTexts_misses [OF False] translateTexts_misses [OF ne]
        remaining_items_idem
      using cp cp2
      by (simp add: process_batches_history [OF cb, where s = s1 and s' = s2])
  qed
qed




text \<open>
  What the statement leaves out: a text that is no key of the glossary but names a
  member of \<open>Object.prototype\<close> is taken for a hit. With the empty glossary of the
  profile \<open>custom\<close>, the text \<open>constructor\<close> is stored in the table with the
  inherited function as its translation, and no provider call is made.
\<close>

lemma translateTexts_inherited_name:
  "translateTexts Object_prototype provider parse
     [\<lparr>entry_text = js ''constructor'', entry_fields = [title], entry_count = 1\<rparr>]
     sourceLang targetLang custom_industry apiKey None (h, s)
   = (Inr [(js ''constructor'', Obj (js ''function Object() { [native code] }''))], h, s)"
proof -
  let ?items = "[\<lparr>entry_text = js ''constructor'', entry_fields = [title], entry_count = 1\<rparr>]"
  have gp: "get_property Object_prototype (glossary custom_industry) (js ''constructor'')
      = Some (Obj (js ''function Object() { [native code] }''))"
    by (simp add: get_property_def custom_industry_def Object_prototype_def)
  have gm: "glossary_matches Object_prototype custom_industry ?items
      = [(js ''constructor'', Obj (js ''function Object() { [native code] }''))]"
    by (simp add: glossary_matches_def glossary_step_def gp)
  have rem: "remaining_items Object_prototype custom_industry ?items = []"
    unfolding remaining_items_def gm by (simp add: map_has_def)
  show ?thesis
    unfolding translateTexts_no_misses [OF rem] gm by (simp add: call_progress_def)
qed

section \<open>Properties of the endpoint\<close>

lemma step_specI:
  "(\<And>s. P s \<Longrightarrow> (case m s of (Inr a, s') \<Rightarrow> Q a s' | (Inl err, s') \<Rightarrow> E err s'))
     \<Longrightarrow> step_spec P m Q E"
  by (simp add: step_spec_def)

lemma step_specD:
  "step_spec P m Q E \<Longrightarrow> P s \<Longrightarrow>
     (case m s of (Inr a, s') \<Rightarrow> Q a s' | (Inl err, s') \<Rightarrow> E err s')"
  by (simp add: step_spec_def)

lemma spec_and_then:
  assumes "step_spec P m Q E" and "\<And>a. step_spec (Q a) (f a) R E"
  shows "step_spec P (and_then m f) R E"
proof (rule step_specI)
  fix s assume "P s"
  note first = step_specD [OF assms(1) this]
  obtain r s1 where ms: "m s = (r, s1)" by (cases "m s")
  show "case and_then m f s of (Inr a, s') \<Rightarrow> R a s' | (Inl err, s') \<Rightarrow> E err s'"
  proof (cases r)
    case (Inl err)
    with first ms show ?thesis by (simp add: and_then_def)
  next
    case (Inr a)
    with first ms have "Q a s1" by simp
    from step_specD [OF assms(2) this] show ?thesis
      using ms Inr by (simp add: and_then_def)
  qed
qed

lemma spec_weaken:
  assumes "step_spec P m Q E" and "\<And>s. P' s \<Longrightarrow> P s"
    and "\<And>a s. Q a s \<Longrightarrow> Q' a s" and "\<And>e s. E e s \<Longrightarrow> E' e s"
  shows "step_spec P' m Q' E'"
  using assms unfolding step_spec_def
  by (fastforce split: prod.splits sum.splits)

lemma read_chunk_written: "written (read_chunk c) = written c"
  by (simp add: read_chunk_def written_def split: list.splits)

lemma read_chunk_closeRequested: "closeRequested (read_chunk c) = closeRequested c"
  by (simp add: read_chunk_def split: list.splits)

lemma read_chunk_state: "\<not> closeRequested c \<Longrightarrow> state (read_chunk c) = state c"
  by (simp add: read_chunk_def split: list.splits)

lemma reads_written: "written ((read_chunk ^^ n) c) = written c"
  by (induction n) (simp_all add: read_chunk_written)

lemma reads_closeRequested: "closeRequested ((read_chunk ^^ n) c) = closeRequested c"
  by (induction n) (simp_all add: read_chunk_closeRequested)

lemma reads_state: "\<not> closeRequested c \<Longrightarrow> state ((read_chunk ^^ n) c) = state c"
  by (induction n) (simp_all add: read_chunk_state reads_closeRequested)

lemma read_chunk_waiting:
  "queue c = [] \<or> readRequests c = 0 \<Longrightarrow>
   queue (read_chunk c) = [] \<or> readRequests (read_chunk c) = 0"
  by (auto simp: read_chunk_def split: list.splits)

lemma reads_waiting:
  "queue c = [] \<or> readRequests c = 0 \<Longrightarrow>
   queue ((read_chunk ^^ n) c) = [] \<or> readRequests ((read_chunk ^^ n) c) = 0"
  by (induction n) (simp_all add: read_chunk_waiting)

lemma consumer_turn_open: "open_stream c \<Longrightarrow> open_stream (consumer_turn consumer c)"
  using reads_waiting [of c "consumer c"]
  by (simp add: open_stream_def consumer_turn_def reads_written reads_closeRequested reads_state)

lemma enqueue_open:
  "open_stream c \<Longrightarrow>
   fst (enqueue ev c) = None
   \<and> written (snd (enqueue ev c)) = written c @ [ev]
   \<and> state (snd (enqueue ev c)) = Readable
   \<and> \<not> closeRequested (snd (enqueue ev c))
   \<and> (queue (snd (enqueue ev c)) = [] \<or> readRequests (snd (enqueue ev c)) = 0)"
  by (auto simp: enqueue_def open_stream_def written_def)

lemma spec_await:
  "step_spec (\<lambda>s. open_stream (stream s)) (await env r)
     (\<lambda>_ s. open_stream (stream s)) (\<lambda>_ s. open_stream (stream s))"
  by (simp add: step_spec_def await_def consumer_turn_open split: sum.splits)

lemma spec_evaluate: "step_spec P (evaluate r) (\<lambda>_. P) (\<lambda>_. P)"
  by (simp add: step_spec_def evaluate_def split: sum.splits)

lemma spec_resolve: "step_spec P (resolve a) (\<lambda>_. P) E"
  by (simp add: step_spec_def resolve_def)

lemma sendEvent_open:
  assumes "open_stream (stream s)"
  shows "fst (sendEvent ev s) = Inr ()
     \<and> written (stream (snd (sendEvent ev s))) = written (stream s) @ [ev]
     \<and> state (stream (snd (sendEvent ev s))) = Readable
     \<and> \<not> closeRequested (stream (snd (sendEvent ev s)))
     \<and> (queue (stream (snd (sendEvent ev s))) = []
          \<or> readRequests (stream (snd (sendEvent ev s))) = 0)"
proof -
  obtain e c where en: "enqueue ev (stream s) = (e, c)" by (cases "enqueue ev (stream s)")
  with enqueue_open [OF assms, of ev] show ?thesis by (simp add: sendEvent_def)
qed

lemma spec_send_progress:
  "\<not> is_terminal ev \<Longrightarrow>
   step_spec (\<lambda>s. open_stream (stream s)) (sendEvent ev) (\<lambda>_ s. open_stream (stream s)) E"
proof (rule step_specI)
  fix s :: request_state
  assume nt: "\<not> is_terminal ev" and o: "open_stream (stream s)"
  obtain r s' where se: "sendEvent ev s = (r, s')" by (cases "sendEvent ev s")
  from sendEvent_open [OF o, of ev] se o nt
  have "r = Inr ()" "open_stream (stream s')" by (simp_all add: open_stream_def)
  with se show "case sendEvent ev s of (Inr a, s') \<Rightarrow> open_stream (stream s')
      | (Inl err, s') \<Rightarrow> E err s'"
    by simp
qed

lemma spec_send_terminal:
  "is_terminal ev \<Longrightarrow>
   step_spec (\<lambda>s. open_stream (stream s)) (sendEvent ev)
     (\<lambda>_ s. state (stream s) = Readable \<and> \<not> closeRequested (stream s)
            \<and> terminated (written (stream s))) E"
proof (rule step_specI)
  fix s :: request_state
  assume t: "is_terminal ev" and o: "open_stream (stream s)"
  obtain r s' where se: "sendEvent ev s = (r, s')" by (cases "sendEvent ev s")
  from sendEvent_open [OF o, of ev] se o t
  have "r = Inr ()" "state (stream s') = Readable" "\<not> closeRequested (stream s')"
    "terminated (written (stream s'))"
    by (simp_all add: open_stream_def terminated_def)
  with se show "case sendEvent ev s of
        (Inr a, s') \<Rightarrow> state (stream s') = Readable \<and> \<not> closeRequested (stream s')
            \<and> terminated (written (stream s'))
      | (Inl err, s') \<Rightarrow> E err s'"
    by simp
qed

lemma spec_close:
  "step_spec (\<lambda>s. state (stream s) = Readable \<and> \<not> closeRequested (stream s)
                 \<and> terminated (written (stream s)))
     controller_close
     (\<lambda>_ s. closeRequested (stream s) \<and> terminated (written (stream s))) E"
  by (simp add: step_spec_def controller_close_def close_def written_def)

lemma spec_terminal_then_close:
  "is_terminal ev \<Longrightarrow>
   step_spec (\<lambda>s. open_stream (stream s))
     (and_then (sendEvent ev) (\<lambda>_. controller_close))
     (\<lambda>_ s. closeRequested (stream s) \<and> terminated (written (stream s))) E"
  by (rule spec_and_then [OF spec_send_terminal spec_close])

lemma call_progress_open:
  "open_stream c \<Longrightarrow>
   fst (call_progress (Some progress_to_stream) a b c) = None
   \<and> open_stream (snd (call_progress (Some progress_to_stream) a b c))"
  using enqueue_open [of c "ProgressEvent a b"]
  by (simp add: call_progress_def progress_to_stream_def open_stream_def)

lemma process_batches_open:
  "open_stream (snd st) \<Longrightarrow>
   open_stream (snd (snd (process_batches provider parse apiKey sourceLang targetLang industry
      (Some progress_to_stream) totalItems batches tbl completed st)))"
proof (induction batches arbitrary: tbl completed st)
  case Nil
  then show ?case by simp
next
  case (Cons b batches)
  obtain r h1 where tb: "translateBatch provider parse apiKey b sourceLang targetLang industry
      (fst st) = (r, h1)"
    by (cases "translateBatch provider parse apiKey b sourceLang targetLang industry (fst st)")
  show ?case
  proof (cases r)
    case (Inl err)
    with tb Cons.prems show ?thesis by simp
  next
    case (Inr res)
    obtain e c1 where cp: "call_progress (Some progress_to_stream)
        (completed + length (texts b)) totalItems (snd st) = (e, c1)"
      by (cases "call_progress (Some progress_to_stream)
        (completed + length (texts b)) totalItems (snd st)")
    from call_progress_open [OF Cons.prems, of "completed + length (texts b)" totalItems] cp
    have e: "e = None" and o1: "open_stream (snd (h1, c1))" by simp_all
    from Cons.IH [OF o1] tb Inr cp e show ?thesis by (simp add: Let_def)
  qed
qed

lemma translateTexts_open:
  assumes "open_stream c"
  shows "open_stream (snd (snd (translateTexts prototype provider parse items sourceLang
      targetLang industry apiKey (Some progress_to_stream) (h, c))))"
proof (cases "remaining_items prototype industry items = []")
  case True
  obtain e c1 where cp: "call_progress (Some progress_to_stream) (length items) (length items) c
      = (e, c1)"
    by (cases "call_progress (Some progress_to_stream) (length items) (length items) c")
  from call_progress_open [OF assms, of "length items" "length items"] cp
  show ?thesis
    unfolding translateTexts_no_misses [OF True] by simp
next
  case False
  let ?n = "length items - length (remaining_items prototype industry items)"
  obtain e c1 where cp: "call_progress (Some progress_to_stream) ?n (length items) c = (e, c1)"
    by (cases "call_progress (Some progress_to_stream) ?n (length items) c")
  from call_progress_open [OF assms, of ?n "length items"] cp
  have e: "e = None" and o1: "open_stream (snd (h, c1))" by simp_all
  show ?thesis
    unfolding translateTexts_misses [OF False]
    using cp e process_batches_open [OF o1] by simp
qed

lemma spec_run_translateTexts:
  "step_spec (\<lambda>s. open_stream (stream s))
     (run_translateTexts env unique sourceLang targetLang industry apiKey)
     (\<lambda>_ s. open_stream (stream s)) (\<lambda>_ s. open_stream (stream s))"
proof (rule step_specI)
  fix s :: request_state assume o: "open_stream (stream s)"
  obtain r h c where tt: "translateTexts (env_Object_prototype env) (env_provider env)
      (env_parse env) unique sourceLang targetLang (shared_table s ! industry) apiKey
      (Some progress_to_stream) (call_history s, stream s) = (r, h, c)"
    by (metis prod_cases3)
  from translateTexts_open [OF o, of "env_Object_prototype env" "env_provider env"
      "env_parse env" unique sourceLang targetLang "shared_table s ! industry" apiKey
      "call_history s"] tt
  have "open_stream c" by simp
  then have "open_stream (consumer_turn (env_consumer env) c)" by (rule consumer_turn_open)
  then show "case run_translateTexts env unique sourceLang targetLang industry apiKey s of
      (Inr a, s') \<Rightarrow> open_stream (stream s') | (Inl err, s') \<Rightarrow> open_stream (stream s')"
    using tt by (simp add: run_translateTexts_def split: sum.splits)
qed

lemma spec_translate_with:
  "step_spec (\<lambda>s. open_stream (stream s))
     (translate_with env upload industryId sourceLang targetLang apiKey customContext fieldsJson
        industry)
     (\<lambda>_ s. terminated (written (stream s))
            \<and> (closeRequested (stream s) \<or> state (stream s) = Readable)) (\<lambda>_ s. open_stream (stream s))"
proof -
  let ?open = "\<lambda>s. open_stream (stream s)"
  let ?E = "\<lambda>(_::error) s. open_stream (stream s)"
  have override: "step_spec ?open
      (\<lambda>s. (Inr (),
         case customContext of
           Some c \<Rightarrow>
             if c \<noteq> [] \<and> industryId = js ''custom''
             then s\<lparr>shared_table := (shared_table s)[industry :=
                      (shared_table s ! industry)\<lparr>industry_context := c\<rparr>]\<rparr>
             else s
         | None \<Rightarrow> s)) (\<lambda>_. ?open) ?E"
    by (rule step_specI) (simp split: option.splits)
  have fields: "step_spec ?open
      (case fieldsJson of
                 Some json \<Rightarrow>
                   if json \<noteq> []
                   then and_then (evaluate (env_parse_fields env json))
                          (\<lambda>fs. resolve (Some (remdups fs)))
                   else resolve None
               | None \<Rightarrow> resolve None) (\<lambda>_. ?open) ?E"
  proof (cases fieldsJson)
    case None
    then show ?thesis by (simp add: spec_resolve)
  next
    case (Some json)
    show ?thesis
    proof (cases "json = []")
      case True
      with Some show ?thesis by (simp add: spec_resolve)
    next
      case False
      have "step_spec ?open (and_then (evaluate (env_parse_fields env json))
                          (\<lambda>fs. resolve (Some (remdups fs)))) (\<lambda>_. ?open) ?E"
        by (rule spec_and_then [OF spec_evaluate spec_resolve])
      with Some False show ?thesis by simp
    qed
  qed
  have rest: "step_spec ?open
      (let items = env_extract env xmlContent sourceLang selectedFields in
       if length items = 0 then
         and_then (sendEvent (ErrorEvent NoTranslatableContent)) (\<lambda>_. controller_close)
       else
         let unique = deduplicateItems items;
             totalProducts = length (remdups (map productId items)) in
         and_then (sendEvent (StatsEvent totalProducts (length items) (length unique))) (\<lambda>_.
         and_then (sendEvent (StatusEvent
                     (FoundUniqueTexts (length unique) (length items) totalProducts))) (\<lambda>_.
         and_then (run_translateTexts env unique sourceLang targetLang industry apiKey)
           (\<lambda>translations.
         and_then (sendEvent (StatusEvent ApplyingTranslations)) (\<lambda>_.
         let translatedXml = applyTranslations xmlContent translations in
         sendEvent (CompleteEvent translatedXml (length translations)))))))
      (\<lambda>_ s. terminated (written (stream s))
            \<and> (closeRequested (stream s) \<or> state (stream s) = Readable)) ?E" for xmlContent selectedFields
  proof (cases "length (env_extract env xmlContent sourceLang selectedFields) = 0")
    case True
    have "step_spec ?open
        (and_then (sendEvent (ErrorEvent NoTranslatableContent)) (\<lambda>_. controller_close))
        (\<lambda>_ s. terminated (written (stream s))
            \<and> (closeRequested (stream s) \<or> state (stream s) = Readable)) ?E"
      by (rule spec_weaken [OF spec_terminal_then_close]) simp_all
    with True show ?thesis
      by (simp add: Let_def)
  next
    case False
    have complete: "step_spec ?open
        (sendEvent (CompleteEvent (applyTranslations xmlContent tr) (length tr)))
        (\<lambda>_ s. terminated (written (stream s))
            \<and> (closeRequested (stream s) \<or> state (stream s) = Readable)) ?E" for tr
      by (rule spec_weaken [OF spec_send_terminal]) simp_all
    show ?thesis
      unfolding Let_def using False
      apply (simp only: if_False)
      apply (rule spec_and_then [OF spec_send_progress])
       apply simp
      apply (rule spec_and_then [OF spec_send_progress])
       apply simp
      apply (rule spec_and_then [OF spec_run_translateTexts])
      apply (rule spec_and_then [OF spec_send_progress])
       apply simp
      apply (rule complete)
      done
  qed
  show ?thesis
    unfolding translate_with_def
    apply (rule spec_and_then [OF override])
    apply (rule spec_and_then [OF spec_send_progress])
     apply simp
    apply (rule spec_and_then [OF spec_await])
    apply (rule spec_and_then [OF spec_send_progress])
     apply simp
    apply (rule spec_and_then [OF fields])
    apply (rule rest)
    done
qed

lemma spec_missing_fields:
  "step_spec (\<lambda>s. open_stream (stream s)) missing_fields
     (\<lambda>_ s. terminated (written (stream s))
            \<and> (closeRequested (stream s) \<or> state (stream s) = Readable)) E"
  unfolding missing_fields_def by (rule spec_weaken [OF spec_terminal_then_close]) simp_all

lemma spec_try_block:
  "step_spec (\<lambda>s. open_stream (stream s)) (try_block env req)
     (\<lambda>_ s. terminated (written (stream s))
            \<and> (closeRequested (stream s) \<or> state (stream s) = Readable)) (\<lambda>_ s. open_stream (stream s))"
proof -
  let ?open = "\<lambda>s. open_stream (stream s)"
  let ?Q = "\<lambda>(_::unit) s. terminated (written (stream s))
            \<and> (closeRequested (stream s) \<or> state (stream s) = Readable)"
  let ?E = "\<lambda>(_::error) s. open_stream (stream s)"
  have lookup: "step_spec ?open
      (\<lambda>s. case getIndustry (shared_table s) industryId of
                     None \<Rightarrow>
                       and_then (sendEvent (ErrorEvent UnknownIndustry))
                         (\<lambda>_. controller_close) s
                   | Some industry \<Rightarrow>
                       translate_with env upload industryId sourceLang targetLang apiKey
                         customContext fieldsJson industry s) ?Q ?E"
    for industryId upload sourceLang targetLang apiKey customContext fieldsJson
  proof (rule step_specI)
    fix s :: request_state assume o: "open_stream (stream s)"
    show "case (case getIndustry (shared_table s) industryId of
                     None \<Rightarrow>
                       and_then (sendEvent (ErrorEvent UnknownIndustry))
                         (\<lambda>_. controller_close) s
                   | Some industry \<Rightarrow>
                       translate_with env upload industryId sourceLang targetLang apiKey
                         customContext fieldsJson industry s) of
            (Inr a, s') \<Rightarrow> terminated (written (stream s'))
                \<and> (closeRequested (stream s') \<or> state (stream s') = Readable)
          | (Inl err, s') \<Rightarrow> open_stream (stream s')"
    proof (cases "getIndustry (shared_table s) industryId")
      case None
      have "step_spec ?open (and_then (sendEvent (ErrorEvent UnknownIndustry))
                         (\<lambda>_. controller_close)) ?Q ?E"
        by (rule spec_weaken [OF spec_terminal_then_close]) simp_all
      from step_specD [OF this, of s] o None show ?thesis by simp
    next
      case (Some industry)
      from step_specD [OF spec_translate_with, of s env upload industryId sourceLang targetLang
          apiKey customContext fieldsJson industry] o Some
      show ?thesis by simp
    qed
  qed
  have body: "step_spec ?open
      (case (form_file formData, form_industry formData, form_sourceLang formData,
             form_targetLang formData, form_apiKey formData) of
         (Some file, Some industryId, Some sourceLang, Some targetLang, Some apiKey) \<Rightarrow>
           if industryId = [] \<or> sourceLang = [] \<or> targetLang = [] \<or> apiKey = []
           then missing_fields
           else
             (\<lambda>s. case getIndustry (shared_table s) industryId of
                     None \<Rightarrow>
                       and_then (sendEvent (ErrorEvent UnknownIndustry))
                         (\<lambda>_. controller_close) s
                   | Some industry \<Rightarrow>
                       translate_with env file industryId sourceLang targetLang apiKey
                         (form_customContext formData) (form_fields formData) industry s)
       | _ \<Rightarrow> missing_fields) ?Q ?E" for formData
    by (simp add: spec_missing_fields lookup split: option.splits prod.splits)
  show ?thesis
    unfolding try_block_def
    by (rule spec_and_then [OF spec_await body])
qed

lemma catch_block_result:
  assumes "open_stream (stream s)"
  shows "fst (catch_block err s) = Inr ()
         \<and> state (stream (snd (catch_block err s))) = Readable
         \<and> \<not> closeRequested (stream (snd (catch_block err s)))
         \<and> terminated (written (stream (snd (catch_block err s))))"
  using sendEvent_open [OF assms, of "ErrorEvent (TranslationFailed err)"] assms
  by (simp add: catch_block_def open_stream_def terminated_def)

lemma controller_close_written:
  "written (stream (snd (controller_close s))) = written (stream s)"
  by (simp add: controller_close_def close_def written_def)

lemma controller_close_requested:
  "closeRequested (stream s) \<or> state (stream s) = Readable \<Longrightarrow>
   closeRequested (stream (snd (controller_close s)))"
  by (auto simp: controller_close_def close_def)

lemma start_result:
  assumes "open_stream (stream s)"
  shows "terminated (written (stream (snd (start env req s))))
         \<and> closeRequested (stream (snd (start env req s)))"
proof -
  obtain r s' where tb: "try_block env req s = (r, s')" by (cases "try_block env req s")
  let ?after = "case try_block env req s of
                           (Inl err, s') \<Rightarrow> catch_block err s'
                         | (Inr u, s') \<Rightarrow> (Inr u, s')"
  have t: "terminated (written (stream (snd ?after)))
      \<and> (closeRequested (stream (snd ?after)) \<or> state (stream (snd ?after)) = Readable)"
  proof (cases r)
    case (Inl err)
    with step_specD [OF spec_try_block assms, of env req] tb
    have "open_stream (stream s')" by simp
    from catch_block_result [OF this, of err] tb Inl show ?thesis by simp
  next
    case (Inr u)
    with step_specD [OF spec_try_block assms, of env req] tb show ?thesis by simp
  qed
  obtain r1 s1 where a: "?after = (r1, s1)" by (cases ?after)
  obtain f s2 where c: "controller_close s1 = (f, s2)" by (cases "controller_close s1")
  have "snd (start env req s) = s2"
    using a c by (simp add: start_def)
  moreover have "written (stream s2) = written (stream s1)"
    using controller_close_written [of s1] c by simp
  moreover have "closeRequested (stream s2)"
    using controller_close_requested [of s1] c t a by simp
  ultimately show ?thesis using t a by simp
qed

text \<open>
  When \<open>start\<close> returns, its last step was the \<open>close\<close> of \<open>finally\<close> and it did
  not throw: the stream is closed if its queue is empty and closes with the last read
  otherwise.
\<close>

lemma start_returns:
  assumes "fst (start env req s) = Inr u"
  shows "closeRequested (stream (snd (start env req s)))
     \<and> (if queue (stream (snd (start env req s))) = []
         then state (stream (snd (start env req s))) = Closed
         else state (stream (snd (start env req s))) = Readable)"
proof -
  let ?after = "case try_block env req s of
                           (Inl err, s') \<Rightarrow> catch_block err s'
                         | (Inr u, s') \<Rightarrow> (Inr u, s')"
  obtain r1 s1 where a: "?after = (r1, s1)" by (cases ?after)
  obtain f s2 where c: "controller_close s1 = (f, s2)" by (cases "controller_close s1")
  have st: "start env req s = (case f of Inl err \<Rightarrow> Inl err | Inr _ \<Rightarrow> r1, s2)"
    using a c by (simp add: start_def)
  with assms obtain v where f: "f = Inr v" by (cases f) simp_all
  from c f have "closeRequested (stream s2)
     \<and> (if queue (stream s2) = [] then state (stream s2) = Closed
         else state (stream s2) = Readable)"
    by (auto simp: controller_close_def close_def split: if_splits)
  with st show ?thesis by simp
qed

lemma read_chunk_closing:
  assumes "closeRequested c"
    and "if queue c = [] then state c = Closed else state c = Readable"
  shows "closeRequested (read_chunk c)
     \<and> (if queue (read_chunk c) = [] then state (read_chunk c) = Closed
         else state (read_chunk c) = Readable)"
  using assms by (cases "queue c") (simp_all add: read_chunk_def)

lemma reads_closing:
  assumes "closeRequested c"
    and "if queue c = [] then state c = Closed else state c = Readable"
  shows "closeRequested ((read_chunk ^^ n) c)
     \<and> (if queue ((read_chunk ^^ n) c) = [] then state ((read_chunk ^^ n) c) = Closed
         else state ((read_chunk ^^ n) c) = Readable)"
proof (induction n)
  case 0
  from assms show ?case by simp
next
  case (Suc n)
  show ?case
    unfolding funpow.simps o_apply
    by (rule read_chunk_closing [OF Suc [THEN conjunct1] Suc [THEN conjunct2]])
qed

lemma drain_closes:
  assumes "closeRequested c"
    and "if queue c = [] then state c = Closed else state c = Readable"
  shows "state (drain c) = Closed \<and> queue (drain c) = [] \<and> delivered (drain c) = written c"
proof -
  have "closeRequested c \<Longrightarrow> (if queue c = [] then state c = Closed else state c = Readable)
      \<Longrightarrow> length (queue c) = n
      \<Longrightarrow> state ((read_chunk ^^ n) c) = Closed \<and> queue ((read_chunk ^^ n) c) = []
          \<and> delivered ((read_chunk ^^ n) c) = written c" for n c
  proof (induction n arbitrary: c)
    case 0
    then show ?case by (simp add: written_def)
  next
    case (Suc n)
    then obtain ev rest where q: "queue c = ev # rest" by (cases "queue c") simp_all
    with Suc.prems have r: "state c = Readable" by simp
    let ?c1 = "read_chunk c"
    have c1: "closeRequested ?c1" "queue ?c1 = rest" "delivered ?c1 = delivered c @ [ev]"
      "if queue ?c1 = [] then state ?c1 = Closed else state ?c1 = Readable"
      using q r Suc.prems(1) by (simp_all add: read_chunk_def)
    have "length (queue ?c1) = n" using c1(2) q Suc.prems(3) by simp
    from Suc.IH [OF c1(1) c1(4) this] c1 q show ?case
      by (simp add: funpow_swap1 written_def)
  qed
  from this [OF assms refl] show ?thesis by (simp add: drain_def)
qed

text \<open>
  Whatever the request and whatever the steps do, the events written to the stream
  while \<open>start\<close> runs are status, stats and progress events followed by exactly one
  terminal event, and \<open>close\<close> has been called when \<open>start\<close> ends. When \<open>start\<close>
  returns, the stream closes once the consumer has read the events, and the consumer has
  read them all.
\<close>

lemma start_events:
  "terminated (written (stream (snd (start env req
       \<lparr>shared_table = tbl, call_history = h, stream = new_stream\<rparr>))))
   \<and> closeRequested (stream (snd (start env req
       \<lparr>shared_table = tbl, call_history = h, stream = new_stream\<rparr>)))"
proof -
  have "open_stream (stream \<lparr>shared_table = tbl, call_history = h, stream = new_stream\<rparr>)"
    by (simp add: open_stream_def new_stream_def written_def)
  then show ?thesis by (rule start_result)
qed

lemma POST_resolved:
  assumes "POST env req shared = (Inr u, s)"
  shows "state (drain (stream s)) = Closed
     \<and> terminated (delivered (drain (stream s)))"
proof -
  let ?s0 = "\<lparr>shared_table = fst shared, call_history = snd shared, stream = new_stream\<rparr>"
  obtain r s1 where st: "start env req ?s0 = (r, s1)" by (cases "start env req ?s0")
  from assms st have r: "r = Inr u"
    and s: "s = s1\<lparr>stream := consumer_turn (env_consumer env) (stream s1)\<rparr>"
    by (auto simp: POST_def Let_def split: sum.splits)
  have "fst (start env req ?s0) = Inr u" using st r by simp
  from start_returns [OF this]
  have c: "closeRequested (stream s1)"
    "if queue (stream s1) = [] then state (stream s1) = Closed else state (stream s1) = Readable"
    unfolding st snd_conv by (rule conjunct1, rule conjunct2)
  from start_events [of env req "fst shared" "snd shared"] st
  have t: "terminated (written (stream s1))" by simp
  let ?c = "consumer_turn (env_consumer env) (stream s1)"
  from reads_closing [OF c, of "env_consumer env (stream s1)"]
  have c': "closeRequested ?c" "if queue ?c = [] then state ?c = Closed else state ?c = Readable"
    by (simp_all add: consumer_turn_def)
  have w: "written ?c = written (stream s1)" by (simp add: consumer_turn_def reads_written)
  from drain_closes [OF c'] w t s show ?thesis by simp
qed

text \<open>
  Claim C2 does not hold of the code. On the paths that return early, \<open>close\<close> is
  called before \<open>return\<close> and again in \<open>finally\<close>; the second call throws, so the
  promise of \<open>start\<close> is rejected with a \<open>TypeError\<close> and the stream is errored.
  For a request without \<open>apiKey\<close>, whatever else it holds and whatever the
  environment, when the consumer has not read before that: the error event was enqueued
  and is dropped with the queue, nothing has reached the consumer, and the stream ends
  errored, not closed.
\<close>

theorem POST_early_return_errors_stream:
  "POST (env\<lparr>env_consumer := idle_consumer\<rparr>) (Inr (formData\<lparr>form_apiKey := None\<rparr>)) shared
     = (Inl TypeError,
        \<lparr>shared_table = fst shared, call_history = snd shared,
         stream = \<lparr>queue = [], delivered = [], readRequests = 0, closeRequested = True,
                   state = Errored TypeError\<rparr>\<rparr>)
   \<and> written (stream (snd (start (env\<lparr>env_consumer := idle_consumer\<rparr>)
         (Inr (formData\<lparr>form_apiKey := None\<rparr>))
         \<lparr>shared_table = fst shared, call_history = snd shared, stream = new_stream\<rparr>)))
       = [ErrorEvent MissingRequiredFields]"
  by (simp add: POST_def start_def try_block_def await_def and_then_def
      missing_fields_def sendEvent_def enqueue_def controller_close_def close_def
      consumer_turn_def idle_consumer_def new_stream_def controller_error_def written_def
      split: option.splits)

text \<open>
  The two other paths that return early end the same way: an unknown profile, and a
  feed in which nothing is found to translate.
\<close>

lemma POST_unknown_industry:
  assumes "form_file formData = Some upload" "form_industry formData = Some industryId"
    "form_sourceLang formData = Some sourceLang" "form_targetLang formData = Some targetLang"
    "form_apiKey formData = Some apiKey"
    "industryId \<noteq> []" "sourceLang \<noteq> []" "targetLang \<noteq> []" "apiKey \<noteq> []"
    "getIndustry (fst shared) industryId = None"
  shows "POST (env\<lparr>env_consumer := idle_consumer\<rparr>) (Inr formData) shared
     = (Inl TypeError,
        \<lparr>shared_table = fst shared, call_history = snd shared,
         stream = \<lparr>queue = [], delivered = [], readRequests = 0, closeRequested = True,
                   state = Errored TypeError\<rparr>\<rparr>)"
  using assms
  by (simp add: POST_def start_def try_block_def await_def and_then_def
      sendEvent_def enqueue_def controller_close_def close_def
      consumer_turn_def idle_consumer_def new_stream_def controller_error_def)

lemma POST_no_items:
  assumes "form_file formData = Some (File (Inr xml))" "form_industry formData = Some industryId"
    "form_sourceLang formData = Some sourceLang" "form_targetLang formData = Some targetLang"
    "form_apiKey formData = Some apiKey" "form_customContext formData = None"
    "form_fields formData = None"
    "industryId \<noteq> []" "sourceLang \<noteq> []" "targetLang \<noteq> []" "apiKey \<noteq> []"
    "getIndustry (fst shared) industryId = Some industry"
    "env_extract env xml sourceLang None = []"
  shows "POST (env\<lparr>env_consumer := idle_consumer\<rparr>) (Inr formData) shared
     = (Inl TypeError,
        \<lparr>shared_table = fst shared, call_history = snd shared,
         stream = \<lparr>queue = [], delivered = [], readRequests = 0, closeRequested = True,
                   state = Errored TypeError\<rparr>\<rparr>)"
  using assms
  by (simp add: POST_def start_def try_block_def translate_with_def await_def and_then_def
      resolve_def sendEvent_def enqueue_def controller_close_def close_def
      consumer_turn_def idle_consumer_def new_stream_def controller_error_def)

text \<open>
  With a consumer that waits for a chunk when the error event is enqueued, the event
  reaches it and the stream is closed before \<open>start\<close> is rejected.
\<close>

lemma POST_missing_apiKey_eager:
  "POST (env\<lparr>env_consumer := eager_consumer\<rparr>) (Inr (formData\<lparr>form_apiKey := None\<rparr>)) shared
     = (Inl TypeError,
        \<lparr>shared_table = fst shared, call_history = snd shared,
         stream = \<lparr>queue = [], delivered = [ErrorEvent MissingRequiredFields],
                   readRequests = 0, closeRequested = True, state = Closed\<rparr>\<rparr>)"
  by (simp add: POST_def start_def try_block_def await_def and_then_def
      missing_fields_def sendEvent_def enqueue_def controller_close_def close_def
      consumer_turn_def eager_consumer_def new_stream_def controller_error_def read_chunk_def
      split: option.splits)

text \<open>
  A request that succeeds after two failed provider calls, read by the eager consumer:
  \<open>start\<close> returns, the consumer has read seven events and then the complete
  event, and the stream is closed.
\<close>

lemma example_run_events:
  "fst (POST example_env (Inr custom_form) ([custom_industry], [])) = Inr ()
   \<and> stream (snd (POST example_env (Inr custom_form) ([custom_industry], []))) =
     \<lparr>queue = [],
      delivered =
        [StatusEvent ReadingFeed, StatusEvent ParsingFeed, StatsEvent 1 1 1,
         StatusEvent (FoundUniqueTexts 1 1 1), ProgressEvent 0 1, ProgressEvent 1 1,
         StatusEvent ApplyingTranslations, CompleteEvent (js ''x'') 1],
      readRequests = 0, closeRequested = True, state = Closed\<rparr>"
  by code_simp

lemma table_after_and_then:
  assumes "\<And>a. preserves_table (f a)"
  shows "shared_table (snd (and_then m f s)) = shared_table (snd (m s))"
proof (cases "m s")
  case (Pair r s1)
  show ?thesis
  proof (cases r)
    case (Inl err)
    with Pair show ?thesis by (simp add: and_then_def)
  next
    case (Inr a)
    with Pair assms [of a] show ?thesis by (simp add: and_then_def preserves_table_def)
  qed
qed

lemma preserves_and_then:
  "preserves_table m \<Longrightarrow> (\<And>a. preserves_table (f a)) \<Longrightarrow> preserves_table (and_then m f)"
  using table_after_and_then [of f m] by (simp add: preserves_table_def)

lemma preserves_sendEvent: "preserves_table (sendEvent ev)"
  by (simp add: preserves_table_def sendEvent_def split: prod.splits option.splits)

lemma preserves_close: "preserves_table controller_close"
  by (simp add: preserves_table_def controller_close_def split: prod.splits option.splits)

lemma preserves_await: "preserves_table (await env r)"
  by (simp add: preserves_table_def await_def)

lemma preserves_evaluate: "preserves_table (evaluate r)"
  by (simp add: preserves_table_def evaluate_def)

lemma preserves_resolve: "preserves_table (resolve a)"
  by (simp add: preserves_table_def resolve_def)

lemma preserves_run_translateTexts:
  "preserves_table (run_translateTexts env unique sourceLang targetLang industry apiKey)"
  by (simp add: preserves_table_def run_translateTexts_def split: prod.splits)

lemma preserves_missing_fields: "preserves_table missing_fields"
  unfolding missing_fields_def
  by (intro preserves_and_then preserves_sendEvent preserves_close)

lemmas preserves_intros =
  preserves_and_then preserves_sendEvent preserves_close preserves_await preserves_evaluate
  preserves_resolve
  preserves_run_translateTexts preserves_missing_fields

lemma translate_with_table:
  "shared_table (snd (translate_with env upload industryId sourceLang targetLang apiKey
        customContext fieldsJson industry s)) =
     (case customContext of
        Some c \<Rightarrow>
          if c \<noteq> [] \<and> industryId = js ''custom''
          then (shared_table s)[industry :=
                  (shared_table s ! industry)\<lparr>industry_context := c\<rparr>]
          else shared_table s
      | None \<Rightarrow> shared_table s)"
proof -
  have fields: "preserves_table
      (case fieldsJson of
                 Some json \<Rightarrow>
                   if json \<noteq> []
                   then and_then (evaluate (env_parse_fields env json))
                          (\<lambda>fs. resolve (Some (remdups fs)))
                   else resolve None
               | None \<Rightarrow> resolve None)"
    by (auto split: option.splits intro!: preserves_intros)
  show ?thesis
    unfolding translate_with_def
    apply (subst table_after_and_then)
     apply (intro preserves_intros fields)
     apply (simp only: Let_def)
     apply (auto intro!: preserves_intros split: option.splits)
    done
qed

lemma and_then_await:
  "and_then (await env (Inr a)) f s
     = f a (s\<lparr>stream := consumer_turn (env_consumer env) (stream s)\<rparr>)"
  "and_then (await env (Inl err)) f s
     = (Inl err, s\<lparr>stream := consumer_turn (env_consumer env) (stream s)\<rparr>)"
  by (simp_all add: and_then_def await_def)

lemma try_block_table:
  "shared_table (snd (try_block env req s)) =
     (case req of
        Inl err \<Rightarrow> shared_table s
      | Inr formData \<Rightarrow>
          (case (form_file formData, form_industry formData, form_sourceLang formData,
                 form_targetLang formData, form_apiKey formData) of
             (Some upload, Some industryId, Some sourceLang, Some targetLang, Some apiKey) \<Rightarrow>
               if industryId = [] \<or> sourceLang = [] \<or> targetLang = [] \<or> apiKey = []
               then shared_table s
               else
                 (case getIndustry (shared_table s) industryId of
                    None \<Rightarrow> shared_table s
                  | Some industry \<Rightarrow>
                      (case form_customContext formData of
                         Some c \<Rightarrow>
                           if c \<noteq> [] \<and> industryId = js ''custom''
                           then (shared_table s)[industry :=
                                  (shared_table s ! industry)\<lparr>industry_context := c\<rparr>]
                           else shared_table s
                       | None \<Rightarrow> shared_table s))
           | _ \<Rightarrow> shared_table s))"
proof (cases req)
  case (Inl err)
  then show ?thesis by (simp add: try_block_def and_then_def await_def)
next
  case (Inr formData)
  have mf: "shared_table (snd (missing_fields s')) = shared_table s'" for s'
    using preserves_missing_fields by (simp add: preserves_table_def)
  have ui: "shared_table (snd (and_then (sendEvent (ErrorEvent UnknownIndustry))
                         (\<lambda>_. controller_close) s')) = shared_table s'" for s'
    using preserves_and_then [OF preserves_sendEvent, of "\<lambda>_. controller_close"
        "ErrorEvent UnknownIndustry"] preserves_close
    by (simp add: preserves_table_def)
  show ?thesis
    unfolding Inr try_block_def and_then_await
    by (simp add: mf ui translate_with_table split: option.splits prod.splits)
qed

lemma start_table: "shared_table (snd (start env req s)) = shared_table (snd (try_block env req s))"
proof -
  obtain r s' where tb: "try_block env req s = (r, s')" by (cases "try_block env req s")
  let ?after = "case try_block env req s of
                           (Inl err, s') \<Rightarrow> catch_block err s'
                         | (Inr u, s') \<Rightarrow> (Inr u, s')"
  have c: "shared_table (snd (catch_block err s')) = shared_table s'" for err
    using preserves_sendEvent by (simp add: preserves_table_def catch_block_def)
  have a: "shared_table (snd ?after) = shared_table s'"
    using tb c by (cases r) simp_all
  obtain r1 s1 where af: "?after = (r1, s1)" by (cases ?after)
  obtain f s2 where cl: "controller_close s1 = (f, s2)" by (cases "controller_close s1")
  have "shared_table s2 = shared_table s1"
    using preserves_close cl by (metis preserves_table_def snd_conv)
  moreover have "snd (start env req s) = s2" using af cl by (simp add: start_def)
  ultimately show ?thesis using a af tb by simp
qed

lemma POST_table:
  "shared_table (snd (POST env req shared))
     = shared_table (snd (start env req
         \<lparr>shared_table = fst shared, call_history = snd shared, stream = new_stream\<rparr>))"
  by (simp add: POST_def Let_def split: prod.splits sum.splits)

lemma getIndustry_custom: "getIndustry industries (js ''custom'') = Some 5"
  by (simp add: getIndustry_def industries_def luxury_watches_jewellery_def
      fashion_apparel_def electronics_tech_def home_furniture_def beauty_cosmetics_def
      custom_industry_def js_def)

lemma later_request_gets_overwritten_context:
  "map (\<lambda>r. industry_context (req_industry r))
     (provider_calls (call_history (snd (POST example_env
        (Inr (custom_form\<lparr>form_customContext := None\<rparr>))
        (industries[5 := custom_industry\<lparr>industry_context := js ''X''\<rparr>], [])))))
   = [js ''X'', js ''X'', js ''X'']"
  by code_simp

text \<open>
  Claim C1 does not hold of the code. A request for the profile \<open>custom\<close> with the
  prompt context \<open>X\<close> writes \<open>X\<close> into the \<open>context\<close> of the sixth object of the
  shared table \<open>industries\<close>, which held the empty string; the table after the request
  differs from the table before it; and a later request for \<open>custom\<close> that gives no
  context is sent to the provider with the context \<open>X\<close> of the earlier request.
\<close>

theorem POST_overwrites_shared_custom_context:
  "shared_table (snd (POST example_env (Inr custom_form) (industries, [])))
     = industries[5 := custom_industry\<lparr>industry_context := js ''X''\<rparr>]
   \<and> industry_context (industries ! 5) = []
   \<and> industry_context
         (shared_table (snd (POST example_env (Inr custom_form) (industries, []))) ! 5)
       = js ''X''
   \<and> shared_table (snd (POST example_env (Inr custom_form) (industries, []))) \<noteq> industries
   \<and> map (\<lambda>r. industry_context (req_industry r))
         (provider_calls (call_history (snd (POST example_env
            (Inr (custom_form\<lparr>form_customContext := None\<rparr>))
            (industries[5 := custom_industry\<lparr>industry_context := js ''X''\<rparr>], [])))))
       = [js ''X'', js ''X'', js ''X'']"
proof -
  have ne: "js ''custom'' \<noteq> []" "js ''bg'' \<noteq> []" "js ''en'' \<noteq> []" "js ''key'' \<noteq> []"
    "js ''X'' \<noteq> []"
    by (simp_all add: js_def)
  have i5: "industries ! 5 = custom_industry" by (simp add: industries_def)
  have l: "length industries = 6" by (simp add: industries_def)
  have t: "shared_table (snd (POST example_env (Inr custom_form) (industries, [])))
     = industries[5 := custom_industry\<lparr>industry_context := js ''X''\<rparr>]"
    unfolding POST_table start_table try_block_table
    by (simp add: custom_form_def getIndustry_custom i5 ne)
  have c0: "industry_context (industries ! 5) = []" by (simp add: i5 custom_industry_def)
  have c1: "industry_context
         (shared_table (snd (POST example_env (Inr custom_form) (industries, []))) ! 5)
       = js ''X''"
    unfolding t using l by simp
  note x = ne(5)
  have "shared_table (snd (POST example_env (Inr custom_form) (industries, []))) ! 5
      \<noteq> industries ! 5"
    using c0 c1 x by metis
  then have ne: "shared_table (snd (POST example_env (Inr custom_form) (industries, [])))
      \<noteq> industries"
    by metis
  show ?thesis
    apply (intro conjI)
    apply (rule t)
    apply (rule c0)
    apply (rule c1)
    apply (rule ne)
    apply (rule later_request_gets_overwritten_context)
    done
qed

end
